theory Spec2Isabelle
  imports Main "HOL-Library.AList" "HOL-Library.Word"
begin

section \<open>The \<open>client:ios\<close> command and the bundler-configuration builder\<close>

text \<open>
  The development embeds two source files: the command module
  \<^verbatim>\<open>packages/expo-cli/src/commands/client/index.js\<close> (the \<open>client:ios\<close> handler) and the
  entry point of the webpack configuration package (\<^verbatim>\<open>unnamed/part_000\<close>).

  The handler is an \<open>async\<close> function that awaits a fixed sequence of collaborators. It is
  modelled as a state-passing program over a \<open>world\<close>: the trace of every observable
  interaction (calls made, lines logged, prompts shown) and the heap of credential objects.
  The answers of the collaborators in one run are collected in an \<open>env\<close>. Strings are
  sequences of 8-bit characters (ASCII text, UTF-8 bytes beyond it), except the text that
  goes through \<open>trim\<close> and the regular expression, the email address: the result of both
  depends on characters beyond ASCII, so that text is a JavaScript string as the language
  has it, a sequence of 16-bit code units.
\<close>

subsection \<open>Data\<close>

type_synonym fault = string

type_synonym code_unit = "16 word"

type_synonym js_string = "code_unit list"

definition utf16 :: "string \<Rightarrow> js_string" where
  \<comment> \<open>the code units of an ASCII text\<close>
  "utf16 s = map of_char s"

datatype error =
    CommandError string string  \<comment> \<open>\<open>new CommandError(code, message)\<close>\<close>
  | ExternalError fault         \<comment> \<open>an exception thrown (or a rejection) by a collaborator\<close>

datatype json =
    JNull | JBool bool | JNum int | JStr string | JArr "json list" | JObj "(string \<times> json) list"

record options =
  opt_config :: "string option"   \<comment> \<open>\<open>options.config\<close>\<close>
  opt_appleId :: "string option"  \<comment> \<open>\<open>--apple-id\<close>\<close>

record user =
  username :: string
  email :: js_string

record team =
  team_id :: string  \<comment> \<open>\<open>team.id\<close>\<close>

record authData =
  appleId :: string
  appleIdPassword :: string
  team :: team

text \<open>\<open>context = {...authData, bundleIdentifier, experienceName, username}\<close>\<close>

record "context" = authData +
  bundleIdentifier :: string
  experienceName :: string
  ctx_username :: "string option"  \<comment> \<open>\<open>user ? user.username : null\<close>\<close>

record eligibility =
  isAllowed :: bool
  errorMessage :: "string option"

text \<open>
  Modelled from the spec: the tag of a credential. The module \<^verbatim>\<open>./tagger\<close> is not among
  the files; the spec describes each credential as reused (clean) or newly produced (dirty).
  A credential object is its own fields and that tag.
\<close>

record credential =
  cred_fields :: "(string \<times> string) list"
  dirty :: bool

record device =
  device_name :: string
  deviceNumber :: string

record storeKeys =
  key_username :: string
  key_experienceName :: string
  key_bundleIdentifier :: string

record request =
  req_user :: "user option"
  req_context :: "context"
  req_distributionCert :: "credential option"
  req_pushKey :: "credential option"
  req_udids :: "string list"
  req_addUdid :: bool
  req_email :: js_string
  req_customAppConfig :: "json option"

record buildResult =
  registrationUrl :: "string option"
  statusUrl :: "string option"

datatype platform = IOS | ANDROID

datatype event =
    SpinnerStart string
  | SpinnerSucceed string
  | SpinnerWarn string
  | Log string
  | LogWarn string
  | LogNewLine
  | LogTable "string list" "string list list"  \<comment> \<open>\<open>log(table.toString())\<close>: head and rows\<close>
  | LogGreen string                            \<comment> \<open>\<open>log(chalk.green(s))\<close>\<close>
  | PrintQRCode "string option"
  | FileExistsAsync string
  | ReadConfigJsonAsync string
  | Authenticate options
  | GetCurrentUserAsync
  | IsAllowedToBuild "user option" string
  | GenerateBundleIdentifier string
  | GetExperienceName "user option" string
  | EnsureAppExists "context" bool
  | SelectDistributionCert "context"
  | SelectPushKey "context"
  | UpdateCredentialsForPlatform platform "(string \<times> string) list" "string list" storeKeys
  | PromptInput string
  | PromptInvalid string
  | PromptConfirm string bool
  | ListDevices "string list"
  | CreateClientBuildRequest request

text \<open>
  The collaborators' answers in one run. \<open>Inl\<close> is an exception. None of the collaborators
  is among the files: the handler's code is embedded as it is, and what they answer is a
  parameter of the run.
\<close>

record env =
  path_join :: "string \<Rightarrow> string \<Rightarrow> string"  \<comment> \<open>Node's \<open>path.join\<close>\<close>
  startCase :: "string \<Rightarrow> string"            \<comment> \<open>lodash's \<open>_.startCase\<close>\<close>
  fileExistsAsync :: "string \<Rightarrow> fault + bool"
  readConfigJsonAsync :: "string \<Rightarrow> fault + json option"
  authenticate :: "options \<Rightarrow> fault + authData"
  getCurrentUserAsync :: "fault + user option"
  isAllowedToBuild :: "user option \<Rightarrow> string \<Rightarrow> fault + eligibility"
  generateBundleIdentifier :: "string \<Rightarrow> fault + string"
  getExperienceName :: "user option \<Rightarrow> string \<Rightarrow> fault + string"
  ensureAppExists :: "context \<Rightarrow> fault + unit"
  selectDistributionCert :: "context \<Rightarrow> fault + credential option"
  selectPushKey :: "context \<Rightarrow> fault + credential option"
  updateCredentialsForPlatform ::
    "platform \<Rightarrow> (string \<times> string) list \<Rightarrow> storeKeys \<Rightarrow> fault + unit"
  emailAnswers :: "js_string list"  \<comment> \<open>the lines the operator types at the email prompt\<close>
  listDevices :: "string list \<Rightarrow> fault + device list"
  addUdidAnswer :: "bool option"    \<comment> \<open>\<open>None\<close>: the operator accepts the default\<close>
  createClientBuildRequest :: "request \<Rightarrow> fault + buildResult"

record world =
  trace :: "event list"
  heap :: "nat \<rightharpoonup> credential"
  next_ref :: nat

definition init_world :: world where
  "init_world = \<lparr>trace = [], heap = Map.empty, next_ref = 0\<rparr>"

subsection \<open>Sequencing: \<open>await\<close>, \<open>throw\<close>, suspension\<close>

text \<open>
  A step ends with a value, with an exception, or suspended at a prompt whose answer
  never comes. An exception or a suspension ends the run: the handler has no \<open>try\<close>.
\<close>

datatype 'a result = Ok 'a | Throw error | Suspended

type_synonym 'a action = "world \<Rightarrow> 'a result \<times> world"

definition ret :: "'a \<Rightarrow> 'a action" where
  "ret x w = (Ok x, w)"

definition throw :: "error \<Rightarrow> 'a action" where
  "throw e w = (Throw e, w)"

definition await :: "'a action \<Rightarrow> ('a \<Rightarrow> 'b action) \<Rightarrow> 'b action" where
  "await m k w =
     (case m w of
        (Ok x, w') \<Rightarrow> k x w'
      | (Throw e, w') \<Rightarrow> (Throw e, w')
      | (Suspended, w') \<Rightarrow> (Suspended, w'))"

definition emit :: "event \<Rightarrow> unit action" where
  "emit e w = (Ok (), w\<lparr>trace := trace w @ [e]\<rparr>)"

text \<open>A call of a collaborator: the call is observed, then its answer or its exception.\<close>

definition call :: "event \<Rightarrow> fault + 'a \<Rightarrow> 'a action" where
  "call e r =
     await (emit e) (\<lambda>_. case r of Inl f \<Rightarrow> throw (ExternalError f) | Inr x \<Rightarrow> ret x)"

text \<open>A selector's credential is a fresh object; the handler holds a reference to it.\<close>

definition alloc :: "credential option \<Rightarrow> nat option action" where
  "alloc c w =
     (case c of
        None \<Rightarrow> (Ok None, w)
      | Some obj \<Rightarrow>
          (Ok (Some (next_ref w)),
           w\<lparr>heap := (heap w)(next_ref w \<mapsto> obj), next_ref := Suc (next_ref w)\<rparr>))"

definition deref :: "nat option \<Rightarrow> credential option action" where
  "deref r w = (Ok (case r of None \<Rightarrow> None | Some a \<Rightarrow> heap w a), w)"

subsection \<open>JavaScript and library primitives\<close>

definition template :: "string option \<Rightarrow> string" where
  \<comment> \<open>a value inside a template literal; \<open>undefined\<close> prints as its name\<close>
  "template v = (case v of None \<Rightarrow> ''undefined'' | Some s \<Rightarrow> s)"

fun js_truthy :: "json option \<Rightarrow> bool" where
  "js_truthy None = False"
| "js_truthy (Some JNull) = False"
| "js_truthy (Some (JBool b)) = b"
| "js_truthy (Some (JNum n)) = (n \<noteq> 0)"
| "js_truthy (Some (JStr s)) = (s \<noteq> [])"
| "js_truthy (Some (JArr xs)) = True"
| "js_truthy (Some (JObj kvs)) = True"

text \<open>
  The code units that ECMAScript calls \<open>LineTerminator\<close> (LF, CR, U+2028, U+2029) and
  \<open>WhiteSpace\<close> (TAB, VT, FF, U+FEFF and the space separators of Unicode, from version 6.3
  on: U+0020, U+00A0, U+1680, U+2000 to U+200A, U+202F, U+205F, U+3000). All of them are
  single code units.
\<close>

definition is_line_terminator :: "code_unit \<Rightarrow> bool" where
  "is_line_terminator c = (c = 0x000A \<or> c = 0x000D \<or> c = 0x2028 \<or> c = 0x2029)"

definition is_white_space :: "code_unit \<Rightarrow> bool" where
  "is_white_space c =
     (c = 0x0009 \<or> c = 0x000B \<or> c = 0x000C \<or> c = 0xFEFF
      \<or> c = 0x0020 \<or> c = 0x00A0 \<or> c = 0x1680
      \<or> c = 0x2000 \<or> c = 0x2001 \<or> c = 0x2002 \<or> c = 0x2003 \<or> c = 0x2004 \<or> c = 0x2005
      \<or> c = 0x2006 \<or> c = 0x2007 \<or> c = 0x2008 \<or> c = 0x2009 \<or> c = 0x200A
      \<or> c = 0x202F \<or> c = 0x205F \<or> c = 0x3000)"

definition trim :: "js_string \<Rightarrow> js_string" where
  \<comment> \<open>\<open>String.prototype.trim\<close>: white space and line terminators go, at both ends\<close>
  "trim s =
     rev (dropWhile (\<lambda>c. is_white_space c \<or> is_line_terminator c)
       (rev (dropWhile (\<lambda>c. is_white_space c \<or> is_line_terminator c) s)))"

text \<open>
  \<open>/.+@.+/.test(value)\<close>: the pattern has no flag and is not anchored; without the \<open>u\<close> flag
  it is matched code unit by code unit, and \<open>.\<close> is any code unit but a line terminator. So
  the test succeeds exactly when some \<open>@\<close> (U+0040) stands between two such code units.
\<close>

fun email_regex_test :: "js_string \<Rightarrow> bool" where
  "email_regex_test (a # b # c # cs) =
     ((\<not> is_line_terminator a \<and> b = 0x0040 \<and> \<not> is_line_terminator c)
      \<or> email_regex_test (b # c # cs))"
| "email_regex_test _ = False"

text \<open>
  \<open>{...acc, ...obj}\<close>: the properties of \<open>obj\<close> are assigned in order; an existing key keeps
  its place and takes the new value, a new key is appended.
\<close>

definition spread :: "(string \<times> string) list \<Rightarrow> (string \<times> string) list \<Rightarrow> (string \<times> string) list" where
  "spread acc obj = fold (\<lambda>(k, v) a. AList.update k v a) obj acc"

text \<open>
  Lodash's \<open>_.has(object, path)\<close> (version 4; the library is not among the files). The own
  properties of a parsed JSON value:
\<close>

definition is_uint :: "string \<Rightarrow> bool" where
  \<comment> \<open>\<open>/^(?:0|[1-9]\d*)$/\<close>\<close>
  "is_uint s =
     (s = ''0'' \<or> (s \<noteq> [] \<and> hd s \<in> set ''123456789'' \<and> (\<forall>c \<in> set s. c \<in> set ''0123456789'')))"

definition digit_value :: "char \<Rightarrow> nat" where
  "digit_value c = of_char c - of_char (CHR ''0'')"

definition uint_value :: "string \<Rightarrow> nat" where
  "uint_value s = fold (\<lambda>c n. 10 * n + digit_value c) s 0"

fun own_property :: "json \<Rightarrow> string \<Rightarrow> json option" where
  "own_property (JObj kvs) k = map_of kvs k"
| "own_property (JArr xs) k =
     (if k = ''length'' then Some (JNum (int (length xs)))
      else if is_uint k \<and> uint_value k < length xs then Some (xs ! uint_value k)
      else None)"
| "own_property (JStr s) k =
     (if k = ''length'' then Some (JNum (int (length s)))
      else if is_uint k \<and> uint_value k < length s then Some (JStr [s ! uint_value k])
      else None)"
| "own_property _ k = None"

text \<open>\<open>hasPath\<close> with \<open>baseHas\<close>: every key of the path is an own property, in turn.\<close>

fun hasPath :: "json \<Rightarrow> string list \<Rightarrow> bool" where
  "hasPath obj [] = False"
| "hasPath obj [k] = (own_property obj k \<noteq> None)"
| "hasPath obj (k # ks) =
     (case own_property obj k of None \<Rightarrow> False | Some v \<Rightarrow> hasPath v ks)"

text \<open>
  \<open>stringToPath\<close> on a string without brackets: the segments between the dots; no segment
  for the empty string.
\<close>

fun split_dots :: "string \<Rightarrow> string \<Rightarrow> string list" where
  "split_dots seg [] = [rev seg]"
| "split_dots seg (c # cs) =
     (if c = CHR ''.'' then rev seg # split_dots [] cs else split_dots (c # seg) cs)"

definition stringToPath :: "string \<Rightarrow> string list" where
  "stringToPath s = (if s = [] then [] else split_dots [] s)"

text \<open>
  \<open>castPath(value, object)\<close> for a \<open>value\<close> that is neither an array nor a number, symbol or
  boolean: \<open>isKey\<close> tests the text of the value (\<open>/^\w*$/\<close>, then the absence of a dot and
  of a bracketed key, then \<open>value in Object(object)\<close>). The text of the value is a parameter; for a
  function it is the function's source text, which has a dot here.
\<close>

definition is_word_char :: "char \<Rightarrow> bool" where
  "is_word_char c =
     (c \<in> set ''abcdefghijklmnopqrstuvwxyzABCDEFGHIJKLMNOPQRSTUVWXYZ0123456789_'')"

definition isKey :: "string \<Rightarrow> json \<Rightarrow> bool" where
  "isKey text obj =
     ((\<forall>c \<in> set text. is_word_char c)
      \<or> (CHR ''.'' \<notin> set text \<and> CHR ''['' \<notin> set text)
      \<or> own_property obj text \<noteq> None)"

definition castPath :: "string \<Rightarrow> json \<Rightarrow> string list" where
  "castPath text obj = (if isKey text obj then [text] else stringToPath text)"

definition lodash_has :: "json option \<Rightarrow> string \<Rightarrow> bool" where
  \<comment> \<open>\<open>object != null && hasPath(object, path, baseHas)\<close>\<close>
  "lodash_has object text =
     (case object of
        None \<Rightarrow> False
      | Some JNull \<Rightarrow> False
      | Some obj \<Rightarrow> hasPath obj (castPath text obj))"

text \<open>
  The second argument of \<open>_.has\<close> at line 52 is the arrow function
  \<^verbatim>\<open>_ => _.ios.config.googleMapsApiKey\<close>. Lodash takes a path there, not an accessor: it
  converts the function to its text and reads the text as a path.
\<close>

definition accessor_text :: string where
  "accessor_text = ''_ => _.ios.config.googleMapsApiKey''"

subsection \<open>Operator prompts\<close>

datatype validation = Valid | Invalid string

text \<open>
  Modelled from the spec: the prompt of \<^verbatim>\<open>../../prompt\<close>, which is not among the files
  (``prompt-with-validation returning a single scalar''; a malformed input is ``recovered
  locally by re-prompting''; the wait for the operator is unbounded). Each typed line goes
  through \<open>filter\<close> and then \<open>validate\<close>; a rejected line shows the message and the prompt
  waits for the next line. When the lines run out the prompt stays suspended.
\<close>

fun ask_until_valid ::
  "(js_string \<Rightarrow> js_string) \<Rightarrow> (js_string \<Rightarrow> validation) \<Rightarrow> js_string list
     \<Rightarrow> event list \<times> js_string option" where
  "ask_until_valid filter' validate [] = ([], None)"
| "ask_until_valid filter' validate (line # rest) =
     (case validate (filter' line) of
        Valid \<Rightarrow> ([], Some (filter' line))
      | Invalid msg \<Rightarrow>
          (case ask_until_valid filter' validate rest of
             (es, r) \<Rightarrow> (PromptInvalid msg # es, r)))"

definition prompt_input ::
  "string \<Rightarrow> (js_string \<Rightarrow> js_string) \<Rightarrow> (js_string \<Rightarrow> validation) \<Rightarrow> js_string list
     \<Rightarrow> js_string action" where
  "prompt_input message filter' validate answers w =
     (case ask_until_valid filter' validate answers of
        (es, r) \<Rightarrow>
          (case r of None \<Rightarrow> Suspended | Some v \<Rightarrow> Ok v,
           w\<lparr>trace := trace w @ PromptInput message # es\<rparr>))"

text \<open>
  Modelled from the spec: a \<open>confirm\<close> prompt (``defaults to true when unanswered''): the
  operator's answer, or the default when the operator gives none.
\<close>

definition prompt_confirm :: "string \<Rightarrow> bool \<Rightarrow> bool option \<Rightarrow> bool action" where
  "prompt_confirm message dflt answer =
     await (emit (PromptConfirm message dflt))
       (\<lambda>_. ret (case answer of None \<Rightarrow> dflt | Some b \<Rightarrow> b))"

subsection \<open>The tagger\<close>

text \<open>
  Modelled from the spec: \<open>clearTags\<close> and \<open>Updater.updateAllAsync\<close> of \<^verbatim>\<open>./tagger\<close>, which is
  not among the files. \<open>clearTags\<close> removes the tag of every credential of the list;
  \<open>updateAllAsync\<close> hands the credentials tagged dirty, and only those, to the function the
  updater was built with.
\<close>

definition clearTags :: "nat list \<Rightarrow> unit action" where
  "clearTags credentialsList w =
     (Ok (),
      w\<lparr>heap := fold (\<lambda>a h. case h a of None \<Rightarrow> h | Some c \<Rightarrow> h(a \<mapsto> c\<lparr>dirty := False\<rparr>))
                 credentialsList (heap w)\<rparr>)"

definition is_dirty :: "world \<Rightarrow> nat \<Rightarrow> bool" where
  "is_dirty w a = (case heap w a of None \<Rightarrow> False | Some c \<Rightarrow> dirty c)"

definition updateAllAsync :: "(nat list \<Rightarrow> unit action) \<Rightarrow> nat list \<Rightarrow> unit action" where
  "updateAllAsync updaterFn credentialsList w =
     updaterFn (filter (is_dirty w) credentialsList) w"

subsection \<open>The handler of \<open>client:ios\<close>\<close>

text \<open>Lines 35-38: the report of disabled services, an object with one key at first.\<close>

definition init_servicesDisabled :: "(string \<times> string) list" where
  "init_servicesDisabled =
     [(''pushNotifications'',
       ''not yet available until API tokens are supported for the Push Notification system'')]"

text \<open>Lines 52-57.\<close>

definition mark_googleMaps ::
  "json option \<Rightarrow> string \<Rightarrow> (string \<times> string) list \<Rightarrow> (string \<times> string) list" where
  "mark_googleMaps exp appJsonPath servicesDisabled =
     (if \<not> lodash_has exp accessor_text then
        (let disabledReason =
           (if js_truthy exp
            then ''ios.config.googleMapsApiKey does not exist in configuration file found in ''
                 @ appJsonPath
            else ''No custom configuration file could be found. You will need to provide a json file with a valid ios.config.googleMapsApiKey field.'')
         in AList.update ''googleMaps'' disabledReason servicesDisabled)
      else servicesDisabled)"

text \<open>
  Lines 90-97. \<open>servicesDisabled.pushNotifications || disabledReason\<close> is the present reason
  unless it is missing or the empty string.
\<close>

definition mark_pushNotifications ::
  "nat option \<Rightarrow> user option \<Rightarrow> (string \<times> string) list \<Rightarrow> (string \<times> string) list" where
  "mark_pushNotifications pushKey user servicesDisabled =
     (if pushKey = None \<or> user = None then
        (let disabledReason =
           (if pushKey = None then ''you did not upload your push credentials''
            else ''we require you to be logged in to store push credentials'')
         in AList.update ''pushNotifications''
              (case map_of servicesDisabled ''pushNotifications'' of
                 None \<Rightarrow> disabledReason
               | Some reason \<Rightarrow> if reason \<noteq> [] then reason else disabledReason)
              servicesDisabled)
      else servicesDisabled)"

text \<open>Lines 99-112.\<close>

definition render_servicesDisabled :: "env \<Rightarrow> (string \<times> string) list \<Rightarrow> unit action" where
  "render_servicesDisabled env servicesDisabled =
     (if length (map fst servicesDisabled) > 0 then
        await (emit LogNewLine) (\<lambda>_.
        await (emit (LogWarn ''These services will be disabled in your custom Expo Client:'')) (\<lambda>_.
        await (emit (LogTable [''Service'', ''Reason'']
                 (map (\<lambda>service. [startCase env service, template (map_of servicesDisabled service)])
                    (map fst servicesDisabled)))) (\<lambda>_.
        emit (Log ''See https://docs.expo.io/versions/latest/guides/adhoc-builds/#fixing-disabled-services for more details.''))))
      else ret ())"

text \<open>Lines 118-133: the function the updater is built with.\<close>

definition updateCredentialsFn :: "env \<Rightarrow> context \<Rightarrow> user \<Rightarrow> nat list \<Rightarrow> unit action" where
  "updateCredentialsFn env context' user listOfCredentials w =
     (if length listOfCredentials = 0 then ret () w
      else
        (let credentials =
           fold (\<lambda>credential acc.
                   spread acc (case heap w credential of None \<Rightarrow> [] | Some c \<Rightarrow> cred_fields c))
             listOfCredentials [(''teamId'', team_id (team context'))];
             keys = \<lparr>key_username = username user,
                     key_experienceName = experienceName context',
                     key_bundleIdentifier = bundleIdentifier context'\<rparr>
         in call (UpdateCredentialsForPlatform IOS credentials [] keys)
              (updateCredentialsForPlatform env IOS credentials keys) w))"

text \<open>Lines 114-139.\<close>

definition store_or_clear :: "env \<Rightarrow> context \<Rightarrow> user option \<Rightarrow> nat list \<Rightarrow> unit action" where
  "store_or_clear env context' user credentialsList =
     (case user of
        Some u \<Rightarrow> updateAllAsync (updateCredentialsFn env context' u) credentialsList
      | None \<Rightarrow> clearTags credentialsList)"

text \<open>Lines 141-151.\<close>

definition validate_email :: "js_string \<Rightarrow> validation" where
  "validate_email value =
     (if email_regex_test value then Valid else Invalid ''That doesn't look like a valid email.'')"

definition resolve_email :: "env \<Rightarrow> user option \<Rightarrow> js_string action" where
  "resolve_email env user =
     (case user of
        Some u \<Rightarrow> ret (email u)
      | None \<Rightarrow>
          prompt_input ''Please enter an email address to notify, when the build is completed:''
            trim validate_email (emailAnswers env))"

text \<open>Lines 162-184.\<close>

definition negotiate_addUdid :: "env \<Rightarrow> device list \<Rightarrow> string list \<Rightarrow> bool action" where
  "negotiate_addUdid env devices udids =
     (if length udids = 0 then
        await (emit (Log ''There are no devices registered to your Apple Developer account. Please follow the instructions below to register an iOS device.'')) (\<lambda>_.
        ret True)
      else
        await (emit (Log ''Custom builds of the Expo Client can only be installed on devices which have been registered with Apple at build-time.'')) (\<lambda>_.
        await (emit (Log ''These devices are currently registered on your Apple Developer account:'')) (\<lambda>_.
        await (emit (LogTable [''Name'', ''Identifier'']
                 (map (\<lambda>device. [device_name device, deviceNumber device]) devices))) (\<lambda>_.
        prompt_confirm ''Would you like to register a new device to use the Expo Client with?''
          True (addUdidAnswer env)))))"

text \<open>Lines 197-219.\<close>

definition render_result :: "bool \<Rightarrow> buildResult \<Rightarrow> unit action" where
  "render_result addUdid result =
     await (emit LogNewLine) (\<lambda>_.
     await
       (if addUdid then
          await (emit (PrintQRCode (registrationUrl result))) (\<lambda>_.
          await (emit (Log ''Open the following link on your iOS device (or scan the QR code) and follow the instructions to install the development profile:'')) (\<lambda>_.
          await (emit LogNewLine) (\<lambda>_.
          await (emit (LogGreen (template (registrationUrl result)))) (\<lambda>_.
          await (emit LogNewLine) (\<lambda>_.
          await (emit (Log ''Please note that you can only register one iOS device per request.'')) (\<lambda>_.
          emit (Log ''After you register your device, we'll start building your client, and you'll receive an email when it's ready to install.'')))))))
        else
          await (emit (PrintQRCode (statusUrl result))) (\<lambda>_.
          await (emit (Log (''Your custom Expo Client is being built! ''
                   @ [CHR 0xF0, CHR 0x9F, CHR 0x9B, CHR 0xA0]))) (\<lambda>_.
          await (emit (Log ''Open this link on your iOS device (or scan the QR code) to view build logs and install the client:'')) (\<lambda>_.
          await (emit LogNewLine) (\<lambda>_.
          emit (LogGreen (template (statusUrl result))))))))
       (\<lambda>_. emit LogNewLine))"

text \<open>Lines 114-220: from the collected credentials to the rendered result.\<close>

definition persist_and_submit ::
  "env \<Rightarrow> json option \<Rightarrow> user option \<Rightarrow> context \<Rightarrow> nat option \<Rightarrow> nat option \<Rightarrow> unit action" where
  "persist_and_submit env exp user context' distributionCert pushKey =
     (let credentialsList = List.map_filter (\<lambda>i. i) [distributionCert, pushKey] in
      await (store_or_clear env context' user credentialsList) (\<lambda>_.
      await (resolve_email env user) (\<lambda>email'.
      let args = [''--all-ios-profile-devices'', appleId context', appleIdPassword context',
                  team_id (team context')] in
      await (call (ListDevices args) (listDevices env args)) (\<lambda>devices.
      let udids = map deviceNumber devices in
      await (emit LogNewLine) (\<lambda>_.
      await (negotiate_addUdid env devices udids) (\<lambda>addUdid.
      await (deref distributionCert) (\<lambda>distributionCertObj.
      await (deref pushKey) (\<lambda>pushKeyObj.
      let req = \<lparr>req_user = user, req_context = context',
                 req_distributionCert = distributionCertObj, req_pushKey = pushKeyObj,
                 req_udids = udids, req_addUdid = addUdid, req_email = email',
                 req_customAppConfig = exp\<rparr> in
      await (call (CreateClientBuildRequest req) (createClientBuildRequest env req)) (\<lambda>result.
      render_result addUdid result)))))))))"

text \<open>Lines 75-112: the context, the credentials and the report of disabled services.\<close>

definition select_credentials ::
  "env \<Rightarrow> (string \<times> string) list \<Rightarrow> authData \<Rightarrow> user option
     \<Rightarrow> (context \<times> nat option \<times> nat option) action" where
  "select_credentials env servicesDisabled authData user =
     await (call (GenerateBundleIdentifier (team_id (team authData)))
              (generateBundleIdentifier env (team_id (team authData)))) (\<lambda>bundleIdentifier'.
     await (call (GetExperienceName user (team_id (team authData)))
              (getExperienceName env user (team_id (team authData)))) (\<lambda>experienceName'.
     let context' =
       \<lparr>appleId = appleId authData, appleIdPassword = appleIdPassword authData,
        team = team authData, bundleIdentifier = bundleIdentifier',
        experienceName = experienceName',
        ctx_username = (case user of None \<Rightarrow> None | Some u \<Rightarrow> Some (username u))\<rparr> in
     await (call (EnsureAppExists context' True) (ensureAppExists env context')) (\<lambda>_.
     await (call (SelectDistributionCert context') (selectDistributionCert env context')) (\<lambda>c.
     await (alloc c) (\<lambda>distributionCert.
     await (call (SelectPushKey context') (selectPushKey env context')) (\<lambda>k.
     await (alloc k) (\<lambda>pushKey.
     let servicesDisabled' = mark_pushNotifications pushKey user servicesDisabled in
     await (render_servicesDisabled env servicesDisabled') (\<lambda>_.
     ret (context', distributionCert, pushKey)))))))))"

text \<open>Lines 42-51: the custom project manifest, if it exists.\<close>

definition appJsonPath_of :: "env \<Rightarrow> string \<Rightarrow> options \<Rightarrow> string" where
  \<comment> \<open>\<open>options.config || path.join(projectDir, 'app.json')\<close>\<close>
  "appJsonPath_of env projectDir options =
     (case opt_config options of
        None \<Rightarrow> path_join env projectDir ''app.json''
      | Some c \<Rightarrow> if c \<noteq> [] then c else path_join env projectDir ''app.json'')"

definition find_configuration :: "env \<Rightarrow> string \<Rightarrow> options \<Rightarrow> json option action" where
  "find_configuration env projectDir options =
     await (emit (SpinnerStart ''Finding custom configuration for the Expo client...'')) (\<lambda>_.
     let appJsonPath = appJsonPath_of env projectDir options in
     await (call (FileExistsAsync appJsonPath) (fileExistsAsync env appJsonPath)) (\<lambda>appJsonExists.
     await (if appJsonExists
            then call (ReadConfigJsonAsync projectDir) (readConfigJsonAsync env projectDir)
            else ret None) (\<lambda>exp.
     await (if js_truthy exp
            then emit (SpinnerSucceed (''Found custom configuration for the Expo client at ''
                         @ appJsonPath))
            else emit (SpinnerWarn ''Unable to find custom configuration for the Expo client.'')) (\<lambda>_.
     ret exp))))"

text \<open>Lines 35-73: the configuration, the authentication and the eligibility gate.\<close>

definition configure_and_authorize ::
  "env \<Rightarrow> string \<Rightarrow> options
     \<Rightarrow> (json option \<times> (string \<times> string) list \<times> authData \<times> user option) action" where
  "configure_and_authorize env projectDir options =
     (let servicesDisabled = init_servicesDisabled in
      await (find_configuration env projectDir options) (\<lambda>exp.
      let servicesDisabled' =
        mark_googleMaps exp (appJsonPath_of env projectDir options) servicesDisabled in
      await (call (Authenticate options) (authenticate env options)) (\<lambda>authData.
      await (call GetCurrentUserAsync (getCurrentUserAsync env)) (\<lambda>user.
      await (call (IsAllowedToBuild user (team_id (team authData)))
               (isAllowedToBuild env user (team_id (team authData)))) (\<lambda>allowed.
      if \<not> isAllowed allowed then
        throw (CommandError ''CLIENT_BUILD_REQUEST_NOT_ALLOWED''
                 (''New Expo Client build request disallowed. Reason: ''
                  @ template (errorMessage allowed)))
      else ret (exp, servicesDisabled', authData, user))))))"

text \<open>
  Lines 34-220, the handler: the three parts in sequence, each handing its local variables
  to the next. A run starts with nothing logged and no credential object.
\<close>

definition client_ios :: "env \<Rightarrow> string \<Rightarrow> options \<Rightarrow> unit action" where
  "client_ios env projectDir options =
     await (configure_and_authorize env projectDir options)
       (\<lambda>(exp, servicesDisabled, authData, user).
     await (select_credentials env servicesDisabled authData user)
       (\<lambda>(context', distributionCert, pushKey).
     persist_and_submit env exp user context' distributionCert pushKey))"

definition run :: "env \<Rightarrow> string \<Rightarrow> options \<Rightarrow> unit result \<times> world" where
  "run env projectDir options = client_ios env projectDir options init_world"

subsection \<open>The bundler-configuration builder\<close>



subsection \<open>What a run shows\<close>

text \<open>
  The following definitions name the events of each part of the handler, so that the trace
  of a run can be written down: the events before the eligibility query, the events of the
  credential selection, the lines of the report of disabled services, and the events of the
  store update, the email prompt, the device enrollment and the result.
\<close>

definition is_preamble :: "event \<Rightarrow> bool" where
  "is_preamble e =
     (case e of SpinnerStart _ \<Rightarrow> True | SpinnerSucceed _ \<Rightarrow> True | SpinnerWarn _ \<Rightarrow> True
      | FileExistsAsync _ \<Rightarrow> True | ReadConfigJsonAsync _ \<Rightarrow> True | Authenticate _ \<Rightarrow> True
      | GetCurrentUserAsync \<Rightarrow> True | _ \<Rightarrow> False)"

definition is_selection :: "event \<Rightarrow> bool" where
  "is_selection e =
     (case e of GenerateBundleIdentifier _ \<Rightarrow> True | GetExperienceName _ _ \<Rightarrow> True
      | EnsureAppExists _ _ \<Rightarrow> True | SelectDistributionCert _ \<Rightarrow> True
      | SelectPushKey _ \<Rightarrow> True | _ \<Rightarrow> False)"

definition report_lines :: "env \<Rightarrow> (string \<times> string) list \<Rightarrow> event list" where
  "report_lines env servicesDisabled =
     (if servicesDisabled = [] then []
      else [LogNewLine,
            LogWarn ''These services will be disabled in your custom Expo Client:'',
            LogTable [''Service'', ''Reason'']
              (map (\<lambda>service. [startCase env service, template (map_of servicesDisabled service)])
                 (map fst servicesDisabled)),
            Log ''See https://docs.expo.io/versions/latest/guides/adhoc-builds/#fixing-disabled-services for more details.''])"

definition email_prompt :: string where
  "email_prompt = ''Please enter an email address to notify, when the build is completed:''"

definition confirm_prompt :: string where
  "confirm_prompt = ''Would you like to register a new device to use the Expo Client with?''"

definition merged_credentials :: "string \<Rightarrow> credential list \<Rightarrow> (string \<times> string) list" where
  "merged_credentials teamId creds =
     fold (\<lambda>credential acc. spread acc (cred_fields credential)) creds [(''teamId'', teamId)]"

definition store_events :: "user option \<Rightarrow> context \<Rightarrow> (nat \<rightharpoonup> credential) \<Rightarrow> nat list \<Rightarrow> event list" where
  "store_events user ctx h creds =
     (case user of
        None \<Rightarrow> []
      | Some u \<Rightarrow>
          (if filter (\<lambda>a. case h a of None \<Rightarrow> False | Some c \<Rightarrow> dirty c) creds = [] then []
           else [UpdateCredentialsForPlatform IOS
                   (merged_credentials (team_id (team ctx))
                      (List.map_filter h
                         (filter (\<lambda>a. case h a of None \<Rightarrow> False | Some c \<Rightarrow> dirty c) creds)))
                   []
                   \<lparr>key_username = username u, key_experienceName = experienceName ctx,
                    key_bundleIdentifier = bundleIdentifier ctx\<rparr>]))"

definition store_outcome ::
  "env \<Rightarrow> user option \<Rightarrow> context \<Rightarrow> (nat \<rightharpoonup> credential) \<Rightarrow> nat list \<Rightarrow> fault option" where
  "store_outcome env user ctx h creds =
     (case store_events user ctx h creds of
        UpdateCredentialsForPlatform p payload xs keys # _ \<Rightarrow>
          (case updateCredentialsForPlatform env p payload keys of
             Inl f \<Rightarrow> Some f | Inr _ \<Rightarrow> None)
      | _ \<Rightarrow> None)"

definition stored_heap :: "user option \<Rightarrow> nat list \<Rightarrow> (nat \<rightharpoonup> credential) \<Rightarrow> (nat \<rightharpoonup> credential)" where
  "stored_heap user creds h =
     (case user of
        None \<Rightarrow> fold (\<lambda>a h. case h a of None \<Rightarrow> h | Some c \<Rightarrow> h(a \<mapsto> c\<lparr>dirty := False\<rparr>)) creds h
      | Some u \<Rightarrow> h)"

definition email_events :: "env \<Rightarrow> user option \<Rightarrow> event list" where
  "email_events env user =
     (case user of
        Some u \<Rightarrow> []
      | None \<Rightarrow> PromptInput email_prompt
                # fst (ask_until_valid trim validate_email (emailAnswers env)))"

definition email_value :: "env \<Rightarrow> user option \<Rightarrow> js_string option" where
  "email_value env user =
     (case user of
        Some u \<Rightarrow> Some (email u)
      | None \<Rightarrow> snd (ask_until_valid trim validate_email (emailAnswers env)))"

definition device_args :: "context \<Rightarrow> string list" where
  "device_args ctx =
     [''--all-ios-profile-devices'', appleId ctx, appleIdPassword ctx, team_id (team ctx)]"

definition enroll_events :: "device list \<Rightarrow> event list" where
  "enroll_events devices =
     (if devices = [] then
        [Log ''There are no devices registered to your Apple Developer account. Please follow the instructions below to register an iOS device.'']
      else
        [Log ''Custom builds of the Expo Client can only be installed on devices which have been registered with Apple at build-time.'',
         Log ''These devices are currently registered on your Apple Developer account:'',
         LogTable [''Name'', ''Identifier'']
           (map (\<lambda>device. [device_name device, deviceNumber device]) devices),
         PromptConfirm confirm_prompt True])"

definition build_request ::
  "env \<Rightarrow> json option \<Rightarrow> user option \<Rightarrow> context \<Rightarrow> credential option \<Rightarrow> credential option
     \<Rightarrow> device list \<Rightarrow> js_string \<Rightarrow> request" where
  "build_request env exp user ctx distributionCert pushKey devices email' =
     \<lparr>req_user = user, req_context = ctx,
      req_distributionCert = distributionCert, req_pushKey = pushKey,
      req_udids = map deviceNumber devices,
      req_addUdid = (if devices = [] then True
                     else case addUdidAnswer env of None \<Rightarrow> True | Some b \<Rightarrow> b),
      req_email = email', req_customAppConfig = exp\<rparr>"

definition result_lines :: "bool \<Rightarrow> buildResult \<Rightarrow> event list" where
  "result_lines addUdid result =
     (if addUdid then
        [LogNewLine, PrintQRCode (registrationUrl result),
         Log ''Open the following link on your iOS device (or scan the QR code) and follow the instructions to install the development profile:'',
         LogNewLine, LogGreen (template (registrationUrl result)), LogNewLine,
         Log ''Please note that you can only register one iOS device per request.'',
         Log ''After you register your device, we'll start building your client, and you'll receive an email when it's ready to install.'',
         LogNewLine]
      else
        [LogNewLine, PrintQRCode (statusUrl result),
         Log (''Your custom Expo Client is being built! '' @ [CHR 0xF0, CHR 0x9F, CHR 0x9B, CHR 0xA0]),
         Log ''Open this link on your iOS device (or scan the QR code) to view build logs and install the client:'',
         LogNewLine, LogGreen (template (statusUrl result)), LogNewLine])"

definition is_credential_selection :: "event \<Rightarrow> bool" where
  "is_credential_selection e =
     (case e of SelectDistributionCert _ \<Rightarrow> True | SelectPushKey _ \<Rightarrow> True | _ \<Rightarrow> False)"

definition is_store_update :: "event \<Rightarrow> bool" where
  "is_store_update e = (case e of UpdateCredentialsForPlatform _ _ _ _ \<Rightarrow> True | _ \<Rightarrow> False)"

definition is_device_listing :: "event \<Rightarrow> bool" where
  "is_device_listing e = (case e of ListDevices _ \<Rightarrow> True | _ \<Rightarrow> False)"

definition is_submission :: "event \<Rightarrow> bool" where
  "is_submission e = (case e of CreateClientBuildRequest _ \<Rightarrow> True | _ \<Rightarrow> False)"

definition is_report_line :: "event \<Rightarrow> bool" where
  "is_report_line e =
     (case e of LogNewLine \<Rightarrow> True | LogWarn _ \<Rightarrow> True | LogTable _ _ \<Rightarrow> True | Log _ \<Rightarrow> True
      | _ \<Rightarrow> False)"

definition is_persist_event :: "event \<Rightarrow> bool" where
  "is_persist_event e =
     (case e of UpdateCredentialsForPlatform _ _ _ _ \<Rightarrow> True | PromptInput _ \<Rightarrow> True
      | PromptInvalid _ \<Rightarrow> True | ListDevices _ \<Rightarrow> True | LogNewLine \<Rightarrow> True | Log _ \<Rightarrow> True
      | LogTable _ _ \<Rightarrow> True | PromptConfirm _ _ \<Rightarrow> True | CreateClientBuildRequest _ \<Rightarrow> True
      | PrintQRCode _ \<Rightarrow> True | LogGreen _ \<Rightarrow> True | _ \<Rightarrow> False)"

definition is_url_rendering :: "event \<Rightarrow> bool" where
  "is_url_rendering e = (case e of PrintQRCode _ \<Rightarrow> True | LogGreen _ \<Rightarrow> True | _ \<Rightarrow> False)"

definition report_header :: string where
  "report_header = ''These services will be disabled in your custom Expo Client:''"

definition is_report_render :: "event \<Rightarrow> bool" where
  "is_report_render e = (e = LogWarn report_header)"

definition report_link :: string where
  "report_link =
     ''See https://docs.expo.io/versions/latest/guides/adhoc-builds/#fixing-disabled-services for more details.''"

text \<open>
  The lines that only the report prints: its heading, its table (the only table with the
  columns \<open>Service\<close> and \<open>Reason\<close>) and its closing line.
\<close>

definition is_report_event :: "event \<Rightarrow> bool" where
  "is_report_event e =
     (case e of
        LogWarn m \<Rightarrow> m = report_header
      | LogTable head rows \<Rightarrow> head = [''Service'', ''Reason'']
      | Log m \<Rightarrow> m = report_link
      | _ \<Rightarrow> False)"

definition is_email_prompt :: "event \<Rightarrow> bool" where
  "is_email_prompt e = (case e of PromptInput _ \<Rightarrow> True | PromptInvalid _ \<Rightarrow> True | _ \<Rightarrow> False)"

definition push_reason :: string where
  "push_reason =
     ''not yet available until API tokens are supported for the Push Notification system''"

definition invalid_email_message :: string where
  "invalid_email_message = ''That doesn't look like a valid email.''"

subsection \<open>Example runs\<close>

text \<open>
  A project whose \<open>app.json\<close> has the field \<open>ios.config.googleMapsApiKey\<close>, and three
  sets of answers of the collaborators: an authenticated developer with a reused
  certificate, a new push key and one registered device, who declines to register another;
  the same developer refused by the eligibility query; an anonymous developer with no
  registered device, who first mistypes the email address.
\<close>

definition demo_config :: json where
  "demo_config =
     JObj [(''ios'', JObj [(''config'', JObj [(''googleMapsApiKey'', JStr ''KEY'')])])]"

definition demo_options :: options where
  "demo_options = \<lparr>opt_config = None, opt_appleId = None\<rparr>"

definition demo_user :: user where
  "demo_user = \<lparr>username = ''alice'', email = utf16 ''alice@example.com''\<rparr>"

definition demo_authData :: authData where
  "demo_authData =
     \<lparr>appleId = ''dev@example.com'', appleIdPassword = ''pw'', team = \<lparr>team_id = ''TEAM1''\<rparr>\<rparr>"

definition demo_env :: env where
  "demo_env =
     \<lparr>path_join = (\<lambda>a b. a @ ''/'' @ b),
      startCase = (\<lambda>s. s),
      fileExistsAsync = (\<lambda>_. Inr True),
      readConfigJsonAsync = (\<lambda>_. Inr (Some demo_config)),
      authenticate = (\<lambda>_. Inr demo_authData),
      getCurrentUserAsync = Inr (Some demo_user),
      isAllowedToBuild = (\<lambda>_ _. Inr \<lparr>isAllowed = True, errorMessage = None\<rparr>),
      generateBundleIdentifier = (\<lambda>t. Inr (''dev.expo.client.'' @ t)),
      getExperienceName = (\<lambda>_ t. Inr (''@alice/client-'' @ t)),
      ensureAppExists = (\<lambda>_. Inr ()),
      selectDistributionCert =
        (\<lambda>_. Inr (Some \<lparr>cred_fields = [(''certId'', ''C1'')], dirty = False\<rparr>)),
      selectPushKey =
        (\<lambda>_. Inr (Some \<lparr>cred_fields = [(''apnsKeyId'', ''K1'')], dirty = True\<rparr>)),
      updateCredentialsForPlatform = (\<lambda>_ _ _. Inr ()),
      emailAnswers = [],
      listDevices = (\<lambda>_. Inr [\<lparr>device_name = ''phone'', deviceNumber = ''UDID1''\<rparr>]),
      addUdidAnswer = Some False,
      createClientBuildRequest =
        (\<lambda>_. Inr \<lparr>registrationUrl = Some ''https://register'',
                   statusUrl = Some ''https://status''\<rparr>)\<rparr>"

definition denied_env :: env where
  "denied_env =
     demo_env\<lparr>isAllowedToBuild :=
       (\<lambda>_ _. Inr \<lparr>isAllowed = False, errorMessage = Some ''quota exceeded''\<rparr>)\<rparr>"

definition anonymous_env :: env where
  "anonymous_env =
     demo_env\<lparr>getCurrentUserAsync := Inr None,
              emailAnswers := [utf16 ''alice'', utf16 '' alice@example.com ''],
              listDevices := (\<lambda>_. Inr []),
              addUdidAnswer := None\<rparr>"

text \<open>
  A fourth set of answers: an anonymous operator who first pastes an address broken by a
  line separator (U+2028 before the \<open>@\<close>, U+2029 after it), then the address between
  no-break spaces.
\<close>

definition unicode_env :: env where
  "unicode_env =
     anonymous_env\<lparr>emailAnswers :=
       [utf16 ''bob'' @ [0x2028, 0x40, 0x2029] @ utf16 ''example.com'',
        [0x00A0, 0xFEFF] @ utf16 ''bob@example.com'' @ [0x3000, 0x2029]]\<rparr>"

definition demo_context :: "user option \<Rightarrow> context" where
  "demo_context user =
     \<lparr>appleId = ''dev@example.com'', appleIdPassword = ''pw'', team = \<lparr>team_id = ''TEAM1''\<rparr>,
      bundleIdentifier = ''dev.expo.client.TEAM1'', experienceName = ''@alice/client-TEAM1'',
      ctx_username = (case user of None \<Rightarrow> None | Some u \<Rightarrow> Some (username u))\<rparr>"

definition demo_preamble :: "event list" where
  "demo_preamble =
     [SpinnerStart ''Finding custom configuration for the Expo client...'',
      FileExistsAsync ''proj/app.json'', ReadConfigJsonAsync ''proj'',
      SpinnerSucceed ''Found custom configuration for the Expo client at proj/app.json'',
      Authenticate demo_options, GetCurrentUserAsync]"

definition demo_selection :: "user option \<Rightarrow> event list" where
  "demo_selection user =
     [IsAllowedToBuild user ''TEAM1'', GenerateBundleIdentifier ''TEAM1'',
      GetExperienceName user ''TEAM1'', EnsureAppExists (demo_context user) True,
      SelectDistributionCert (demo_context user), SelectPushKey (demo_context user)]"

definition demo_report :: "(string \<times> string) list" where
  "demo_report =
     [(''pushNotifications'',
       ''not yet available until API tokens are supported for the Push Notification system''),
      (''googleMaps'',
       ''ios.config.googleMapsApiKey does not exist in configuration file found in proj/app.json'')]"

definition demo_result :: buildResult where
  "demo_result = \<lparr>registrationUrl = Some ''https://register'', statusUrl = Some ''https://status''\<rparr>"

definition demo_devices :: "device list" where
  "demo_devices = [\<lparr>device_name = ''phone'', deviceNumber = ''UDID1''\<rparr>]"

definition demo_request :: request where
  "demo_request =
     \<lparr>req_user = Some demo_user, req_context = demo_context (Some demo_user),
      req_distributionCert = Some \<lparr>cred_fields = [(''certId'', ''C1'')], dirty = False\<rparr>,
      req_pushKey = Some \<lparr>cred_fields = [(''apnsKeyId'', ''K1'')], dirty = True\<rparr>,
      req_udids = [''UDID1''], req_addUdid = False, req_email = utf16 ''alice@example.com'',
      req_customAppConfig = Some demo_config\<rparr>"

definition anonymous_request :: request where
  "anonymous_request =
     \<lparr>req_user = None, req_context = demo_context None,
      req_distributionCert = Some \<lparr>cred_fields = [(''certId'', ''C1'')], dirty = False\<rparr>,
      req_pushKey = Some \<lparr>cred_fields = [(''apnsKeyId'', ''K1'')], dirty = False\<rparr>,
      req_udids = [], req_addUdid = True, req_email = utf16 ''alice@example.com'',
      req_customAppConfig = Some demo_config\<rparr>"

definition unicode_request :: request where
  "unicode_request = anonymous_request\<lparr>req_email := utf16 ''bob@example.com''\<rparr>"

definition demo_store_update :: event where
  "demo_store_update =
     UpdateCredentialsForPlatform IOS [(''teamId'', ''TEAM1''), (''apnsKeyId'', ''K1'')] []
       \<lparr>key_username = ''alice'', key_experienceName = ''@alice/client-TEAM1'',
        key_bundleIdentifier = ''dev.expo.client.TEAM1''\<rparr>"

subsection \<open>Two configurations for the builder\<close>


section \<open>Properties\<close>

subsection \<open>Running the handler step by step\<close>

declare List.map_filter_simps [simp del]

lemma await_ret [simp]: "await (ret x) k = k x"
  by (rule ext) (simp add: await_def ret_def)

lemma await_throw [simp]: "await (throw e) k = throw e"
  by (rule ext) (simp add: await_def throw_def)

lemma await_assoc [simp]: "await (await m f) g = await m (\<lambda>x. await (f x) g)"
  by (rule ext) (simp add: await_def split: prod.splits result.splits)

lemma await_emit [simp]: "await (emit e) k w = k () (w\<lparr>trace := trace w @ [e]\<rparr>)"
  by (simp add: await_def emit_def)

lemma await_call [simp]:
  "await (call e r) k w =
     (case r of Inl f \<Rightarrow> (Throw (ExternalError f), w\<lparr>trace := trace w @ [e]\<rparr>)
              | Inr x \<Rightarrow> k x (w\<lparr>trace := trace w @ [e]\<rparr>))"
  by (cases r) (simp_all add: call_def throw_def)

lemma call_apply:
  "call e r w =
     (case r of Inl f \<Rightarrow> (Throw (ExternalError f), w\<lparr>trace := trace w @ [e]\<rparr>)
              | Inr x \<Rightarrow> (Ok x, w\<lparr>trace := trace w @ [e]\<rparr>))"
  by (cases r) (simp_all add: call_def throw_def ret_def)

lemma await_alloc [simp]:
  "await (alloc c) k w =
     (case c of None \<Rightarrow> k None w
      | Some obj \<Rightarrow> k (Some (next_ref w))
          (w\<lparr>heap := (heap w)(next_ref w \<mapsto> obj), next_ref := Suc (next_ref w)\<rparr>))"
  by (simp add: await_def alloc_def split: option.splits)

lemma await_deref [simp]:
  "await (deref r) k w = k (case r of None \<Rightarrow> None | Some a \<Rightarrow> heap w a) w"
  by (simp add: await_def deref_def)

lemma await_cases:
  assumes "await m k w = (r, w')"
  obtains (ok) x w1 where "m w = (Ok x, w1)" "k x w1 = (r, w')"
    | (throw) e where "m w = (Throw e, w')" "r = Throw e"
    | (suspended) "m w = (Suspended, w')" "r = Suspended"
  using assms by (auto simp add: await_def split: prod.splits result.splits)

lemma render_servicesDisabled_apply:
  "render_servicesDisabled env sd w = (Ok (), w\<lparr>trace := trace w @ report_lines env sd\<rparr>)"
  by (simp add: render_servicesDisabled_def report_lines_def ret_def emit_def)

lemma await_render_servicesDisabled [simp]:
  "await (render_servicesDisabled env sd) k w = k () (w\<lparr>trace := trace w @ report_lines env sd\<rparr>)"
  by (simp add: await_def render_servicesDisabled_apply)

lemma find_configuration_spec:
  assumes "find_configuration env projectDir options w = (r, w1)"
  shows "\<exists>es. trace w1 = trace w @ es \<and> heap w1 = heap w \<and> next_ref w1 = next_ref w
           \<and> list_all is_preamble es \<and> r \<noteq> Suspended"
  using assms
  by (auto simp add: find_configuration_def Let_def throw_def ret_def is_preamble_def
        split: sum.splits if_splits)

lemma configure_and_authorize_cases:
  assumes "configure_and_authorize env projectDir options w = (r, w1)"
  obtains
    (early) es f where "r = Throw (ExternalError f)" "trace w1 = trace w @ es"
        "list_all is_preamble es" "heap w1 = heap w" "next_ref w1 = next_ref w"
  | (query) es authData user where
        "trace w1 = trace w @ es @ [IsAllowedToBuild user (team_id (team authData))]"
        "list_all is_preamble es" "heap w1 = heap w" "next_ref w1 = next_ref w"
        "authenticate env options = Inr authData" "getCurrentUserAsync env = Inr user"
        "case isAllowedToBuild env user (team_id (team authData)) of
           Inl f \<Rightarrow> r = Throw (ExternalError f)
         | Inr allowed \<Rightarrow>
            if \<not> isAllowed allowed then
               r = Throw (CommandError ''CLIENT_BUILD_REQUEST_NOT_ALLOWED''
                 (''New Expo Client build request disallowed. Reason: '' @ template (errorMessage allowed)))
            else (\<exists>exp. r = Ok (exp, mark_googleMaps exp (appJsonPath_of env projectDir options) init_servicesDisabled, authData, user))"
proof -
  from assms have *: "await (find_configuration env projectDir options) (\<lambda>exp.
      await (call (Authenticate options) (authenticate env options)) (\<lambda>authData.
      await (call GetCurrentUserAsync (getCurrentUserAsync env)) (\<lambda>user.
      await (call (IsAllowedToBuild user (team_id (team authData)))
               (isAllowedToBuild env user (team_id (team authData)))) (\<lambda>allowed.
      if \<not> isAllowed allowed then
        throw (CommandError ''CLIENT_BUILD_REQUEST_NOT_ALLOWED''
                 (''New Expo Client build request disallowed. Reason: ''
                  @ template (errorMessage allowed)))
      else ret (exp, mark_googleMaps exp (appJsonPath_of env projectDir options) init_servicesDisabled, authData, user))))) w = (r, w1)"
    by (simp add: configure_and_authorize_def Let_def)
  from * show ?thesis
  proof (cases rule: await_cases)
    case (ok exp w0)
    from find_configuration_spec[OF ok(1)] obtain es0 where es0:
      "trace w0 = trace w @ es0" "heap w0 = heap w" "next_ref w0 = next_ref w" "list_all is_preamble es0"
      by blast
    show ?thesis
    proof (cases "authenticate env options")
      case (Inl f)
      with ok(2) es0 show ?thesis
        by (intro early[of f "es0 @ [Authenticate options]"]) (auto simp: is_preamble_def)
    next
      case auth: (Inr authData)
      show ?thesis
      proof (cases "getCurrentUserAsync env")
        case (Inl f)
        with ok(2) es0 auth show ?thesis
          by (intro early[of f "es0 @ [Authenticate options, GetCurrentUserAsync]"]) (auto simp: is_preamble_def)
      next
        case usr: (Inr user)
        with ok(2) es0 auth show ?thesis
          by (intro query[of "es0 @ [Authenticate options, GetCurrentUserAsync]" user authData])
             (auto simp: is_preamble_def throw_def ret_def split: sum.splits if_splits)
      qed
    qed
  next
    case (throw e)
    from find_configuration_spec[OF throw(1)] obtain es0 where es0:
      "trace w1 = trace w @ es0" "heap w1 = heap w" "next_ref w1 = next_ref w" "list_all is_preamble es0"
      by blast
    have "\<exists>f. e = ExternalError f" using throw(1)
      by (auto simp add: find_configuration_def Let_def throw_def ret_def
        split: sum.splits if_splits)
    with throw es0 show ?thesis by (auto intro: early)
  next
    case suspended
    with find_configuration_spec[OF suspended(1)] show ?thesis by simp
  qed
qed

lemma select_credentials_cases:
  assumes "select_credentials env sd authData user w = (r, w1)"
  obtains
    (failed) es f where "r = Throw (ExternalError f)" "trace w1 = trace w @ es"
        "list_all is_selection es"
        "\<And>ctx. SelectPushKey ctx \<in> set es \<Longrightarrow> selectPushKey env ctx = Inl f"
  | (selected) es b x c k ctx dc pk where
        "generateBundleIdentifier env (team_id (team authData)) = Inr b"
        "getExperienceName env user (team_id (team authData)) = Inr x"
        "ctx = \<lparr>appleId = appleId authData, appleIdPassword = appleIdPassword authData,
                team = team authData, bundleIdentifier = b, experienceName = x,
                ctx_username = (case user of None \<Rightarrow> None | Some u \<Rightarrow> Some (username u))\<rparr>"
        "selectDistributionCert env ctx = Inr c" "selectPushKey env ctx = Inr k"
        "r = Ok (ctx, dc, pk)"
        "trace w1 = trace w @ es @ report_lines env (mark_pushNotifications pk user sd)"
        "list_all is_selection es"
        "(case dc of None \<Rightarrow> None | Some a \<Rightarrow> heap w1 a) = c"
        "(case pk of None \<Rightarrow> None | Some a \<Rightarrow> heap w1 a) = k"
        "dc = None \<longleftrightarrow> c = None" "pk = None \<longleftrightarrow> k = None"
        "dc = None \<or> dc \<noteq> pk"
        "dom (heap w1) = dom (heap w) \<union> set (List.map_filter (\<lambda>i. i) [dc, pk])"
        "es = [GenerateBundleIdentifier (team_id (team authData)),
               GetExperienceName user (team_id (team authData)), EnsureAppExists ctx True,
               SelectDistributionCert ctx, SelectPushKey ctx]"
proof (cases "generateBundleIdentifier env (team_id (team authData))")
  case (Inl f)
  with assms show ?thesis
    by (intro failed[of f "[GenerateBundleIdentifier (team_id (team authData))]"])
       (auto simp: select_credentials_def is_selection_def)
next
  case b: (Inr b)
  show ?thesis
  proof (cases "getExperienceName env user (team_id (team authData))")
    case (Inl f)
    with assms b show ?thesis
      by (intro failed[of f "[GenerateBundleIdentifier (team_id (team authData)),
             GetExperienceName user (team_id (team authData))]"])
         (auto simp: select_credentials_def is_selection_def)
  next
    case x: (Inr x)
    define ctx where "ctx = \<lparr>appleId = appleId authData, appleIdPassword = appleIdPassword authData,
                team = team authData, bundleIdentifier = b, experienceName = x,
                ctx_username = (case user of None \<Rightarrow> None | Some u \<Rightarrow> Some (username u))\<rparr>"
    define es0 where "es0 = [GenerateBundleIdentifier (team_id (team authData)),
             GetExperienceName user (team_id (team authData)), EnsureAppExists ctx True]"
    show ?thesis
    proof (cases "ensureAppExists env ctx")
      case (Inl f)
      with assms b x show ?thesis
        by (intro failed[of f es0])
           (auto simp: select_credentials_def Let_def is_selection_def ctx_def es0_def)
    next
      case app: (Inr u)
      show ?thesis
      proof (cases "selectDistributionCert env ctx")
        case (Inl f)
        with assms b x app show ?thesis
          by (intro failed[of f "es0 @ [SelectDistributionCert ctx]"])
             (auto simp: select_credentials_def Let_def is_selection_def ctx_def es0_def)
      next
        case c: (Inr c)
        show ?thesis
        proof (cases "selectPushKey env ctx")
          case (Inl f)
          with assms b x app c show ?thesis
            by (intro failed[of f "es0 @ [SelectDistributionCert ctx, SelectPushKey ctx]"])
               (auto simp: select_credentials_def Let_def is_selection_def ctx_def es0_def split: option.splits)
        next
          case k: (Inr k)
          define dc where "dc = (case c of None \<Rightarrow> None | Some _ \<Rightarrow> Some (next_ref w))"
          define pk where "pk = (case k of None \<Rightarrow> None
             | Some _ \<Rightarrow> Some (case c of None \<Rightarrow> next_ref w | Some _ \<Rightarrow> Suc (next_ref w)))"
          from assms b x app c k show ?thesis
            by (intro selected[where b=b and x=x and ctx=ctx and c=c and k=k and dc=dc and pk=pk
                  and es="es0 @ [SelectDistributionCert ctx, SelectPushKey ctx]"])
               (auto simp: select_credentials_def Let_def is_selection_def ctx_def es0_def
                  dc_def pk_def List.map_filter_simps ret_def split: option.splits)
        qed
      qed
    qed
  qed
qed

lemma await_prompt_input:
  "await (prompt_input message f v answers) k w =
     (case snd (ask_until_valid f v answers) of
        None \<Rightarrow> (Suspended, w\<lparr>trace := trace w @ PromptInput message # fst (ask_until_valid f v answers)\<rparr>)
      | Some x \<Rightarrow> k x (w\<lparr>trace := trace w @ PromptInput message # fst (ask_until_valid f v answers)\<rparr>))"
  by (simp add: await_def prompt_input_def split: prod.splits option.splits)

lemma ask_until_valid_events:
  "e \<in> set (fst (ask_until_valid f v answers)) \<Longrightarrow> \<exists>m. e = PromptInvalid m"
  by (induction answers) (auto split: validation.splits prod.splits)

lemma await_clearTags:
  "await (clearTags creds) k w =
     k () (w\<lparr>heap := fold (\<lambda>a h. case h a of None \<Rightarrow> h | Some c \<Rightarrow> h(a \<mapsto> c\<lparr>dirty := False\<rparr>))
                 creds (heap w)\<rparr>)"
  by (simp add: await_def clearTags_def)

lemma await_store_or_clear:
  "await (store_or_clear env ctx user creds) k w =
     (case user of
        None \<Rightarrow> await (clearTags creds) k w
      | Some u \<Rightarrow> await (updateCredentialsFn env ctx u (filter (is_dirty w) creds)) k w)"
  by (simp add: store_or_clear_def await_def updateAllAsync_def split: option.splits)

lemma await_updateCredentialsFn:
  "await (updateCredentialsFn env ctx u D) k w =
     (if D = [] then k () w
      else await (call (UpdateCredentialsForPlatform IOS
                    (fold (\<lambda>credential acc.
                       spread acc (case heap w credential of None \<Rightarrow> [] | Some c \<Rightarrow> cred_fields c))
                       D [(''teamId'', team_id (team ctx))])
                    []
                    \<lparr>key_username = username u, key_experienceName = experienceName ctx,
                     key_bundleIdentifier = bundleIdentifier ctx\<rparr>)
                  (updateCredentialsForPlatform env IOS
                    (fold (\<lambda>credential acc.
                       spread acc (case heap w credential of None \<Rightarrow> [] | Some c \<Rightarrow> cred_fields c))
                       D [(''teamId'', team_id (team ctx))])
                    \<lparr>key_username = username u, key_experienceName = experienceName ctx,
                     key_bundleIdentifier = bundleIdentifier ctx\<rparr>)) k w)"
  by (simp add: updateCredentialsFn_def await_def Let_def ret_def)

lemma fold_spread_refs:
  "fold (\<lambda>credential acc. spread acc (case h credential of None \<Rightarrow> [] | Some c \<Rightarrow> cred_fields c)) D acc0
   = fold (\<lambda>credential acc. spread acc (cred_fields credential)) (List.map_filter h D) acc0"
  by (induction D arbitrary: acc0) (auto simp: List.map_filter_simps spread_def split: option.splits)

lemma store_step:
  "await (store_or_clear env ctx user creds) k w =
     (case store_outcome env user ctx (heap w) creds of
        Some f \<Rightarrow> (Throw (ExternalError f),
                   w\<lparr>trace := trace w @ store_events user ctx (heap w) creds\<rparr>)
      | None \<Rightarrow> k () (w\<lparr>trace := trace w @ store_events user ctx (heap w) creds,
                        heap := stored_heap user creds (heap w)\<rparr>))"
  by (auto simp add: stored_heap_def store_events_def store_outcome_def is_dirty_def[abs_def]
       fold_spread_refs merged_credentials_def await_store_or_clear await_updateCredentialsFn
       await_clearTags split: option.splits sum.splits)

lemma negotiate_step:
  "await (negotiate_addUdid env devices (map deviceNumber devices)) k w =
     k (if devices = [] then True else case addUdidAnswer env of None \<Rightarrow> True | Some b \<Rightarrow> b)
       (w\<lparr>trace := trace w @ enroll_events devices\<rparr>)"
  by (simp add: negotiate_addUdid_def prompt_confirm_def enroll_events_def confirm_prompt_def)

lemma render_result_apply:
  "render_result addUdid result w = (Ok (), w\<lparr>trace := trace w @ result_lines addUdid result\<rparr>)"
  by (simp add: render_result_def result_lines_def emit_def)

lemma email_step:
  "await (resolve_email env user) k w =
     (case email_value env user of
        None \<Rightarrow> (Suspended, w\<lparr>trace := trace w @ email_events env user\<rparr>)
      | Some v \<Rightarrow> k v (w\<lparr>trace := trace w @ email_events env user\<rparr>))"
  by (simp add: resolve_email_def email_value_def email_events_def email_prompt_def
      await_prompt_input split: option.splits)

lemma persist_and_submit_eq:
  "persist_and_submit env exp user ctx dc pk w =
     (let creds = List.map_filter (\<lambda>i. i) [dc, pk];
          es1 = store_events user ctx (heap w) creds;
          h = stored_heap user creds (heap w);
          es2 = es1 @ email_events env user
      in case store_outcome env user ctx (heap w) creds of
           Some f \<Rightarrow> (Throw (ExternalError f), w\<lparr>trace := trace w @ es1\<rparr>)
         | None \<Rightarrow>
            (case email_value env user of
               None \<Rightarrow> (Suspended, w\<lparr>trace := trace w @ es2, heap := h\<rparr>)
             | Some email' \<Rightarrow>
                (case listDevices env (device_args ctx) of
                   Inl f \<Rightarrow> (Throw (ExternalError f),
                              w\<lparr>trace := trace w @ es2 @ [ListDevices (device_args ctx)], heap := h\<rparr>)
                 | Inr devices \<Rightarrow>
                    (let req = build_request env exp user ctx
                                 (case dc of None \<Rightarrow> None | Some a \<Rightarrow> h a)
                                 (case pk of None \<Rightarrow> None | Some a \<Rightarrow> h a) devices email';
                         es3 = es2 @ [ListDevices (device_args ctx), LogNewLine]
                               @ enroll_events devices @ [CreateClientBuildRequest req]
                     in case createClientBuildRequest env req of
                          Inl f \<Rightarrow> (Throw (ExternalError f), w\<lparr>trace := trace w @ es3, heap := h\<rparr>)
                        | Inr result \<Rightarrow>
                            (Ok (), w\<lparr>trace := trace w @ es3 @ result_lines (req_addUdid req) result,
                                     heap := h\<rparr>)))))"
proof (cases "store_outcome env user ctx (heap w) (List.map_filter (\<lambda>i. i) [dc, pk])")
  case (Some f)
  then show ?thesis
    by (simp add: persist_and_submit_def Let_def store_step del: List.map_filter_simps)
next
  case st: None
  show ?thesis
  proof (cases "email_value env user")
    case None
    with st show ?thesis
      by (simp add: persist_and_submit_def Let_def store_step email_step
            del: List.map_filter_simps)
  next
    case em: (Some email')
    show ?thesis
    proof (cases "listDevices env (device_args ctx)")
      case (Inl f)
      with st em show ?thesis
        by (simp add: persist_and_submit_def Let_def store_step email_step device_args_def
              del: List.map_filter_simps)
    next
      case (Inr devices)
      with st em show ?thesis
        by (simp add: persist_and_submit_def Let_def store_step email_step negotiate_step
              render_result_apply device_args_def build_request_def del: List.map_filter_simps
              split: sum.splits cong: option.case_cong)
    qed
  qed
qed

lemma run_cases:
  assumes "run env projectDir options = (r, w')"
  obtains
    (early) f where "r = Throw (ExternalError f)" "list_all is_preamble (trace w')"
        "heap w' = Map.empty"
  | (query_failed) pre authData user f where
        "list_all is_preamble pre"
        "authenticate env options = Inr authData" "getCurrentUserAsync env = Inr user"
        "isAllowedToBuild env user (team_id (team authData)) = Inl f"
        "r = Throw (ExternalError f)"
        "trace w' = pre @ [IsAllowedToBuild user (team_id (team authData))]"
        "heap w' = Map.empty"
  | (denied) pre authData user allowed where
        "list_all is_preamble pre"
        "authenticate env options = Inr authData" "getCurrentUserAsync env = Inr user"
        "isAllowedToBuild env user (team_id (team authData)) = Inr allowed"
        "\<not> isAllowed allowed"
        "r = Throw (CommandError ''CLIENT_BUILD_REQUEST_NOT_ALLOWED''
                 (''New Expo Client build request disallowed. Reason: ''
                  @ template (errorMessage allowed)))"
        "trace w' = pre @ [IsAllowedToBuild user (team_id (team authData))]"
        "heap w' = Map.empty"
  | (selection_failed) pre authData user allowed es f where
        "list_all is_preamble pre"
        "authenticate env options = Inr authData" "getCurrentUserAsync env = Inr user"
        "isAllowedToBuild env user (team_id (team authData)) = Inr allowed"
        "isAllowed allowed"
        "r = Throw (ExternalError f)"
        "trace w' = pre @ [IsAllowedToBuild user (team_id (team authData))] @ es"
        "list_all is_selection es"
        "\<And>ctx. SelectPushKey ctx \<in> set es \<Longrightarrow> selectPushKey env ctx = Inl f"
  | (selected) pre authData user allowed es exp b x ctx c k dc pk w1 where
        "list_all is_preamble pre"
        "authenticate env options = Inr authData" "getCurrentUserAsync env = Inr user"
        "isAllowedToBuild env user (team_id (team authData)) = Inr allowed"
        "isAllowed allowed"
        "generateBundleIdentifier env (team_id (team authData)) = Inr b"
        "getExperienceName env user (team_id (team authData)) = Inr x"
        "ctx = \<lparr>appleId = appleId authData, appleIdPassword = appleIdPassword authData,
                team = team authData, bundleIdentifier = b, experienceName = x,
                ctx_username = (case user of None \<Rightarrow> None | Some u \<Rightarrow> Some (username u))\<rparr>"
        "selectDistributionCert env ctx = Inr c" "selectPushKey env ctx = Inr k"
        "trace w1 = pre @ [IsAllowedToBuild user (team_id (team authData))] @ es
            @ report_lines env (mark_pushNotifications pk user
                (mark_googleMaps exp (appJsonPath_of env projectDir options) init_servicesDisabled))"
        "list_all is_selection es"
        "(case dc of None \<Rightarrow> None | Some a \<Rightarrow> heap w1 a) = c"
        "(case pk of None \<Rightarrow> None | Some a \<Rightarrow> heap w1 a) = k"
        "dc = None \<longleftrightarrow> c = None" "pk = None \<longleftrightarrow> k = None"
        "dc = None \<or> dc \<noteq> pk"
        "dom (heap w1) = set (List.map_filter (\<lambda>i. i) [dc, pk])"
        "persist_and_submit env exp user ctx dc pk w1 = (r, w')"
        "es = [GenerateBundleIdentifier (team_id (team authData)),
               GetExperienceName user (team_id (team authData)), EnsureAppExists ctx True,
               SelectDistributionCert ctx, SelectPushKey ctx]"
proof -
  from assms have *: "await (configure_and_authorize env projectDir options)
       (\<lambda>(exp, servicesDisabled, authData, user).
     await (select_credentials env servicesDisabled authData user)
       (\<lambda>(context', distributionCert, pushKey).
     persist_and_submit env exp user context' distributionCert pushKey)) init_world = (r, w')"
    by (simp add: run_def client_ios_def)
  from * show ?thesis
  proof (cases rule: await_cases)
    case (ok a wa)
    obtain exp sd authData user where a: "a = (exp, sd, authData, user)"
      by (cases a) auto
    from ok(1) show ?thesis
    proof (cases rule: configure_and_authorize_cases)
      case (early es f)
      from early(1) show ?thesis by simp
    next
      case (query pre authData' user')
      have "\<exists>allowed. isAllowedToBuild env user' (team_id (team authData')) = Inr allowed
          \<and> isAllowed allowed \<and> authData' = authData \<and> user' = user
          \<and> sd = mark_googleMaps exp (appJsonPath_of env projectDir options) init_servicesDisabled"
      proof (cases "isAllowedToBuild env user' (team_id (team authData'))")
        case (Inl f)
        with query(7) show ?thesis by simp
      next
        case (Inr allowed)
        with query(7) a show ?thesis by (cases "isAllowed allowed") auto
      qed
      then obtain allowed where al:
        "isAllowedToBuild env user (team_id (team authData)) = Inr allowed" "isAllowed allowed"
        "authData' = authData" "user' = user"
        "sd = mark_googleMaps exp (appJsonPath_of env projectDir options) init_servicesDisabled"
        by blast
      from ok(2) a have **: "await (select_credentials env sd authData user)
         (\<lambda>(context', distributionCert, pushKey).
            persist_and_submit env exp user context' distributionCert pushKey) wa = (r, w')"
        by simp
      from ** show ?thesis
      proof (cases rule: await_cases)
        case (ok t w1)
        obtain ctx dc pk where t: "t = (ctx, dc, pk)" by (cases t) auto
        from ok(1) show ?thesis
        proof (cases rule: select_credentials_cases)
          case (failed es f)
          from failed(1) show ?thesis by simp
        next
          case (selected es b x c k ctx' dc' pk')
          with t have eqs: "ctx' = ctx" "dc' = dc" "pk' = pk" by auto
          show ?thesis
            using query al selected ok(2) t eqs
            by (intro that(5)[where pre=pre and authData=authData and user=user
                  and allowed=allowed and es=es and exp=exp and b=b and x=x and ctx=ctx
                  and c=c and k=k and dc=dc and pk=pk and ?w1.0=w1])
               (auto simp: init_world_def simp del: List.map_filter_simps)
        qed
      next
        case (throw e)
        from throw(1) show ?thesis
        proof (cases rule: select_credentials_cases)
          case (failed es f)
          with query al throw show ?thesis
            by (intro that(4)[where pre=pre and authData=authData and user=user
                  and allowed=allowed and es=es and f=f])
               (auto simp: init_world_def)
        next
          case (selected es b x c k ctx' dc' pk')
          from selected(6) show ?thesis by simp
        qed
      next
        case suspended
        from suspended(1) show ?thesis
          by (cases rule: select_credentials_cases) auto
      qed
    qed
  next
    case (throw e)
    from throw(1) show ?thesis
    proof (cases rule: configure_and_authorize_cases)
      case (early es f)
      with throw show ?thesis
        by (intro that(1)[of f]) (auto simp: init_world_def)
    next
      case (query pre authData user)
      show ?thesis
      proof (cases "isAllowedToBuild env user (team_id (team authData))")
        case (Inl f)
        with query throw show ?thesis
          by (intro that(2)[where pre=pre and authData=authData and user=user and f=f])
             (auto simp: init_world_def)
      next
        case (Inr allowed)
        with query throw show ?thesis
          by (intro that(3)[where pre=pre and authData=authData and user=user and allowed=allowed])
             (auto simp: init_world_def split: if_splits)
      qed
    qed
  next
    case suspended
    from suspended(1) show ?thesis
      by (cases rule: configure_and_authorize_cases) (auto split: sum.splits if_splits)
  qed
qed

lemma report_lines_events: "list_all is_report_line (report_lines env sd)"
  by (simp add: report_lines_def is_report_line_def)

lemma store_events_cases:
  "store_events user ctx h creds = [] \<or>
   (\<exists>u payload. user = Some u \<and> store_events user ctx h creds =
      [UpdateCredentialsForPlatform IOS payload []
         \<lparr>key_username = username u, key_experienceName = experienceName ctx,
          key_bundleIdentifier = bundleIdentifier ctx\<rparr>])"
  by (simp add: store_events_def split: option.splits)

lemma store_events_persist: "list_all is_persist_event (store_events user ctx h creds)"
  using store_events_cases[of user ctx h creds] by (auto simp: is_persist_event_def)

lemma email_events_persist: "list_all is_persist_event (email_events env user)"
  by (auto simp: email_events_def is_persist_event_def list_all_iff
      dest!: ask_until_valid_events split: option.splits)

lemma enroll_events_persist: "list_all is_persist_event (enroll_events devices)"
  by (simp add: enroll_events_def is_persist_event_def)

lemma result_lines_persist: "list_all is_persist_event (result_lines a result)"
  by (simp add: result_lines_def is_persist_event_def)

lemma persist_and_submit_trace:
  assumes "persist_and_submit env exp user ctx dc pk w = (r, w')"
  shows "\<exists>es. trace w' = trace w @ es \<and> list_all is_persist_event es"
  using assms store_events_persist[of user ctx "heap w" "List.map_filter (\<lambda>i. i) [dc, pk]"]
    email_events_persist[of env user]
  by (auto simp add: persist_and_submit_eq Let_def enroll_events_persist result_lines_persist
        is_persist_event_def
      simp del: List.map_filter_simps split: option.splits sum.splits)

lemmas classifier_defs =
  is_preamble_def is_selection_def is_report_line_def is_persist_event_def
  is_credential_selection_def is_store_update_def is_device_listing_def is_submission_def

lemma preamble_event:
  "is_preamble e \<Longrightarrow> \<not> is_credential_selection e \<and> \<not> is_store_update e
     \<and> \<not> is_device_listing e \<and> \<not> is_submission e \<and> \<not> is_selection e
     \<and> \<not> is_persist_event e \<and> \<not> is_report_line e \<and> e \<noteq> IsAllowedToBuild u t"
  by (cases e) (simp_all add: classifier_defs)

lemma selection_event:
  "is_selection e \<Longrightarrow> \<not> is_store_update e
     \<and> \<not> is_device_listing e \<and> \<not> is_submission e \<and> \<not> is_preamble e
     \<and> \<not> is_persist_event e \<and> \<not> is_report_line e \<and> e \<noteq> IsAllowedToBuild u t"
  by (cases e) (simp_all add: classifier_defs)

lemma report_line_event:
  "is_report_line e \<Longrightarrow> \<not> is_credential_selection e \<and> \<not> is_store_update e
     \<and> \<not> is_device_listing e \<and> \<not> is_submission e \<and> \<not> is_selection e
     \<and> \<not> is_preamble e \<and> e \<noteq> IsAllowedToBuild u t"
  by (cases e) (simp_all add: classifier_defs)

lemma persist_event:
  "is_persist_event e \<Longrightarrow> \<not> is_credential_selection e \<and> \<not> is_selection e
     \<and> \<not> is_preamble e \<and> e \<noteq> IsAllowedToBuild u t"
  by (cases e) (simp_all add: classifier_defs)

lemma query_event [simp]:
  "\<not> is_preamble (IsAllowedToBuild u t)" "\<not> is_selection (IsAllowedToBuild u t)"
  "\<not> is_persist_event (IsAllowedToBuild u t)" "\<not> is_report_line (IsAllowedToBuild u t)"
  "\<not> is_credential_selection (IsAllowedToBuild u t)" "\<not> is_store_update (IsAllowedToBuild u t)"
  "\<not> is_device_listing (IsAllowedToBuild u t)" "\<not> is_submission (IsAllowedToBuild u t)"
  by (simp_all add: classifier_defs)

lemma is_credential_selection_simps [simp]:
  "\<not> is_credential_selection (SpinnerStart a1)"
  "\<not> is_credential_selection (SpinnerSucceed b1)"
  "\<not> is_credential_selection (SpinnerWarn c1)"
  "\<not> is_credential_selection (Log d1)"
  "\<not> is_credential_selection (LogWarn e1)"
  "\<not> is_credential_selection LogNewLine"
  "\<not> is_credential_selection (LogTable g1 g2)"
  "\<not> is_credential_selection (LogGreen h1)"
  "\<not> is_credential_selection (PrintQRCode i1)"
  "\<not> is_credential_selection (FileExistsAsync j1)"
  "\<not> is_credential_selection (ReadConfigJsonAsync k1)"
  "\<not> is_credential_selection (Authenticate l1)"
  "\<not> is_credential_selection GetCurrentUserAsync"
  "\<not> is_credential_selection (IsAllowedToBuild n1 n2)"
  "\<not> is_credential_selection (GenerateBundleIdentifier o1)"
  "\<not> is_credential_selection (GetExperienceName p1 p2)"
  "\<not> is_credential_selection (EnsureAppExists q1 q2)"
  "is_credential_selection (SelectDistributionCert r1)"
  "is_credential_selection (SelectPushKey s1)"
  "\<not> is_credential_selection (UpdateCredentialsForPlatform t1 t2 t3 t4)"
  "\<not> is_credential_selection (PromptInput u1)"
  "\<not> is_credential_selection (PromptInvalid v1)"
  "\<not> is_credential_selection (PromptConfirm w1 w2)"
  "\<not> is_credential_selection (ListDevices x1)"
  "\<not> is_credential_selection (CreateClientBuildRequest y1)"
  by (simp_all add: is_credential_selection_def)

lemma is_store_update_simps [simp]:
  "\<not> is_store_update (SpinnerStart a1)"
  "\<not> is_store_update (SpinnerSucceed b1)"
  "\<not> is_store_update (SpinnerWarn c1)"
  "\<not> is_store_update (Log d1)"
  "\<not> is_store_update (LogWarn e1)"
  "\<not> is_store_update LogNewLine"
  "\<not> is_store_update (LogTable g1 g2)"
  "\<not> is_store_update (LogGreen h1)"
  "\<not> is_store_update (PrintQRCode i1)"
  "\<not> is_store_update (FileExistsAsync j1)"
  "\<not> is_store_update (ReadConfigJsonAsync k1)"
  "\<not> is_store_update (Authenticate l1)"
  "\<not> is_store_update GetCurrentUserAsync"
  "\<not> is_store_update (IsAllowedToBuild n1 n2)"
  "\<not> is_store_update (GenerateBundleIdentifier o1)"
  "\<not> is_store_update (GetExperienceName p1 p2)"
  "\<not> is_store_update (EnsureAppExists q1 q2)"
  "\<not> is_store_update (SelectDistributionCert r1)"
  "\<not> is_store_update (SelectPushKey s1)"
  "is_store_update (UpdateCredentialsForPlatform t1 t2 t3 t4)"
  "\<not> is_store_update (PromptInput u1)"
  "\<not> is_store_update (PromptInvalid v1)"
  "\<not> is_store_update (PromptConfirm w1 w2)"
  "\<not> is_store_update (ListDevices x1)"
  "\<not> is_store_update (CreateClientBuildRequest y1)"
  by (simp_all add: is_store_update_def)

lemma is_device_listing_simps [simp]:
  "\<not> is_device_listing (SpinnerStart a1)"
  "\<not> is_device_listing (SpinnerSucceed b1)"
  "\<not> is_device_listing (SpinnerWarn c1)"
  "\<not> is_device_listing (Log d1)"
  "\<not> is_device_listing (LogWarn e1)"
  "\<not> is_device_listing LogNewLine"
  "\<not> is_device_listing (LogTable g1 g2)"
  "\<not> is_device_listing (LogGreen h1)"
  "\<not> is_device_listing (PrintQRCode i1)"
  "\<not> is_device_listing (FileExistsAsync j1)"
  "\<not> is_device_listing (ReadConfigJsonAsync k1)"
  "\<not> is_device_listing (Authenticate l1)"
  "\<not> is_device_listing GetCurrentUserAsync"
  "\<not> is_device_listing (IsAllowedToBuild n1 n2)"
  "\<not> is_device_listing (GenerateBundleIdentifier o1)"
  "\<not> is_device_listing (GetExperienceName p1 p2)"
  "\<not> is_device_listing (EnsureAppExists q1 q2)"
  "\<not> is_device_listing (SelectDistributionCert r1)"
  "\<not> is_device_listing (SelectPushKey s1)"
  "\<not> is_device_listing (UpdateCredentialsForPlatform t1 t2 t3 t4)"
  "\<not> is_device_listing (PromptInput u1)"
  "\<not> is_device_listing (PromptInvalid v1)"
  "\<not> is_device_listing (PromptConfirm w1 w2)"
  "is_device_listing (ListDevices x1)"
  "\<not> is_device_listing (CreateClientBuildRequest y1)"
  by (simp_all add: is_device_listing_def)

lemma is_submission_simps [simp]:
  "\<not> is_submission (SpinnerStart a1)"
  "\<not> is_submission (SpinnerSucceed b1)"
  "\<not> is_submission (SpinnerWarn c1)"
  "\<not> is_submission (Log d1)"
  "\<not> is_submission (LogWarn e1)"
  "\<not> is_submission LogNewLine"
  "\<not> is_submission (LogTable g1 g2)"
  "\<not> is_submission (LogGreen h1)"
  "\<not> is_submission (PrintQRCode i1)"
  "\<not> is_submission (FileExistsAsync j1)"
  "\<not> is_submission (ReadConfigJsonAsync k1)"
  "\<not> is_submission (Authenticate l1)"
  "\<not> is_submission GetCurrentUserAsync"
  "\<not> is_submission (IsAllowedToBuild n1 n2)"
  "\<not> is_submission (GenerateBundleIdentifier o1)"
  "\<not> is_submission (GetExperienceName p1 p2)"
  "\<not> is_submission (EnsureAppExists q1 q2)"
  "\<not> is_submission (SelectDistributionCert r1)"
  "\<not> is_submission (SelectPushKey s1)"
  "\<not> is_submission (UpdateCredentialsForPlatform t1 t2 t3 t4)"
  "\<not> is_submission (PromptInput u1)"
  "\<not> is_submission (PromptInvalid v1)"
  "\<not> is_submission (PromptConfirm w1 w2)"
  "\<not> is_submission (ListDevices x1)"
  "is_submission (CreateClientBuildRequest y1)"
  by (simp_all add: is_submission_def)

lemma is_preamble_simps [simp]:
  "is_preamble (SpinnerStart a1)"
  "is_preamble (SpinnerSucceed b1)"
  "is_preamble (SpinnerWarn c1)"
  "\<not> is_preamble (Log d1)"
  "\<not> is_preamble (LogWarn e1)"
  "\<not> is_preamble LogNewLine"
  "\<not> is_preamble (LogTable g1 g2)"
  "\<not> is_preamble (LogGreen h1)"
  "\<not> is_preamble (PrintQRCode i1)"
  "is_preamble (FileExistsAsync j1)"
  "is_preamble (ReadConfigJsonAsync k1)"
  "is_preamble (Authenticate l1)"
  "is_preamble GetCurrentUserAsync"
  "\<not> is_preamble (IsAllowedToBuild n1 n2)"
  "\<not> is_preamble (GenerateBundleIdentifier o1)"
  "\<not> is_preamble (GetExperienceName p1 p2)"
  "\<not> is_preamble (EnsureAppExists q1 q2)"
  "\<not> is_preamble (SelectDistributionCert r1)"
  "\<not> is_preamble (SelectPushKey s1)"
  "\<not> is_preamble (UpdateCredentialsForPlatform t1 t2 t3 t4)"
  "\<not> is_preamble (PromptInput u1)"
  "\<not> is_preamble (PromptInvalid v1)"
  "\<not> is_preamble (PromptConfirm w1 w2)"
  "\<not> is_preamble (ListDevices x1)"
  "\<not> is_preamble (CreateClientBuildRequest y1)"
  by (simp_all add: is_preamble_def)

lemma is_selection_simps [simp]:
  "\<not> is_selection (SpinnerStart a1)"
  "\<not> is_selection (SpinnerSucceed b1)"
  "\<not> is_selection (SpinnerWarn c1)"
  "\<not> is_selection (Log d1)"
  "\<not> is_selection (LogWarn e1)"
  "\<not> is_selection LogNewLine"
  "\<not> is_selection (LogTable g1 g2)"
  "\<not> is_selection (LogGreen h1)"
  "\<not> is_selection (PrintQRCode i1)"
  "\<not> is_selection (FileExistsAsync j1)"
  "\<not> is_selection (ReadConfigJsonAsync k1)"
  "\<not> is_selection (Authenticate l1)"
  "\<not> is_selection GetCurrentUserAsync"
  "\<not> is_selection (IsAllowedToBuild n1 n2)"
  "is_selection (GenerateBundleIdentifier o1)"
  "is_selection (GetExperienceName p1 p2)"
  "is_selection (EnsureAppExists q1 q2)"
  "is_selection (SelectDistributionCert r1)"
  "is_selection (SelectPushKey s1)"
  "\<not> is_selection (UpdateCredentialsForPlatform t1 t2 t3 t4)"
  "\<not> is_selection (PromptInput u1)"
  "\<not> is_selection (PromptInvalid v1)"
  "\<not> is_selection (PromptConfirm w1 w2)"
  "\<not> is_selection (ListDevices x1)"
  "\<not> is_selection (CreateClientBuildRequest y1)"
  by (simp_all add: is_selection_def)

lemma is_report_line_simps [simp]:
  "\<not> is_report_line (SpinnerStart a1)"
  "\<not> is_report_line (SpinnerSucceed b1)"
  "\<not> is_report_line (SpinnerWarn c1)"
  "is_report_line (Log d1)"
  "is_report_line (LogWarn e1)"
  "is_report_line LogNewLine"
  "is_report_line (LogTable g1 g2)"
  "\<not> is_report_line (LogGreen h1)"
  "\<not> is_report_line (PrintQRCode i1)"
  "\<not> is_report_line (FileExistsAsync j1)"
  "\<not> is_report_line (ReadConfigJsonAsync k1)"
  "\<not> is_report_line (Authenticate l1)"
  "\<not> is_report_line GetCurrentUserAsync"
  "\<not> is_report_line (IsAllowedToBuild n1 n2)"
  "\<not> is_report_line (GenerateBundleIdentifier o1)"
  "\<not> is_report_line (GetExperienceName p1 p2)"
  "\<not> is_report_line (EnsureAppExists q1 q2)"
  "\<not> is_report_line (SelectDistributionCert r1)"
  "\<not> is_report_line (SelectPushKey s1)"
  "\<not> is_report_line (UpdateCredentialsForPlatform t1 t2 t3 t4)"
  "\<not> is_report_line (PromptInput u1)"
  "\<not> is_report_line (PromptInvalid v1)"
  "\<not> is_report_line (PromptConfirm w1 w2)"
  "\<not> is_report_line (ListDevices x1)"
  "\<not> is_report_line (CreateClientBuildRequest y1)"
  by (simp_all add: is_report_line_def)

lemma is_persist_event_simps [simp]:
  "\<not> is_persist_event (SpinnerStart a1)"
  "\<not> is_persist_event (SpinnerSucceed b1)"
  "\<not> is_persist_event (SpinnerWarn c1)"
  "is_persist_event (Log d1)"
  "\<not> is_persist_event (LogWarn e1)"
  "is_persist_event LogNewLine"
  "is_persist_event (LogTable g1 g2)"
  "is_persist_event (LogGreen h1)"
  "is_persist_event (PrintQRCode i1)"
  "\<not> is_persist_event (FileExistsAsync j1)"
  "\<not> is_persist_event (ReadConfigJsonAsync k1)"
  "\<not> is_persist_event (Authenticate l1)"
  "\<not> is_persist_event GetCurrentUserAsync"
  "\<not> is_persist_event (IsAllowedToBuild n1 n2)"
  "\<not> is_persist_event (GenerateBundleIdentifier o1)"
  "\<not> is_persist_event (GetExperienceName p1 p2)"
  "\<not> is_persist_event (EnsureAppExists q1 q2)"
  "\<not> is_persist_event (SelectDistributionCert r1)"
  "\<not> is_persist_event (SelectPushKey s1)"
  "is_persist_event (UpdateCredentialsForPlatform t1 t2 t3 t4)"
  "is_persist_event (PromptInput u1)"
  "is_persist_event (PromptInvalid v1)"
  "is_persist_event (PromptConfirm w1 w2)"
  "is_persist_event (ListDevices x1)"
  "is_persist_event (CreateClientBuildRequest y1)"
  by (simp_all add: is_persist_event_def)

lemma clear_fold:
  "fold (\<lambda>a h. case h a of None \<Rightarrow> h | Some c \<Rightarrow> h(a \<mapsto> c\<lparr>dirty := False\<rparr>)) creds h a =
     (if a \<in> set creds then map_option (\<lambda>c. c\<lparr>dirty := False\<rparr>) (h a) else h a)"
proof (induction creds arbitrary: h)
  case Nil
  show ?case by simp
next
  case (Cons b creds)
  show ?case
    by (cases "h b") (auto simp: Cons.IH map_option_case split: option.splits)
qed

lemma stored_heap_None:
  "stored_heap None creds h a =
     (if a \<in> set creds then map_option (\<lambda>c. c\<lparr>dirty := False\<rparr>) (h a) else h a)"
  by (simp add: stored_heap_def clear_fold)

lemma store_anonymous [simp]:
  "store_events None ctx h creds = []" "store_outcome env None ctx h creds = None"
  by (simp_all add: store_events_def store_outcome_def)

lemma persist_and_submit_anonymous:
  assumes "persist_and_submit env exp None ctx dc pk w = (r, w')"
  shows "\<exists>es. trace w' = trace w @ PromptInput email_prompt # es
           \<and> list_all (\<lambda>e. \<not> is_store_update e) es
           \<and> heap w' = stored_heap None (List.map_filter (\<lambda>i. i) [dc, pk]) (heap w)
           \<and> (\<forall>req. CreateClientBuildRequest req \<in> set es \<longrightarrow>
                 req_distributionCert req =
                   (case dc of None \<Rightarrow> None
                    | Some a \<Rightarrow> stored_heap None (List.map_filter (\<lambda>i. i) [dc, pk]) (heap w) a)
               \<and> req_pushKey req =
                   (case pk of None \<Rightarrow> None
                    | Some a \<Rightarrow> stored_heap None (List.map_filter (\<lambda>i. i) [dc, pk]) (heap w) a))"
proof -
  have inv: "list_all (\<lambda>e. \<not> is_store_update e)
               (fst (ask_until_valid trim validate_email (emailAnswers env)))"
    by (auto simp: list_all_iff dest!: ask_until_valid_events)
  have enr: "list_all (\<lambda>e. \<not> is_store_update e) (enroll_events devices)"
      "\<And>req. CreateClientBuildRequest req \<notin> set (enroll_events devices)" for devices
    by (simp_all add: enroll_events_def)
  have res: "list_all (\<lambda>e. \<not> is_store_update e) (result_lines a result)"
      "\<And>req. CreateClientBuildRequest req \<notin> set (result_lines a result)" for a result
    by (simp_all add: result_lines_def)
  have noreq: "\<And>req. CreateClientBuildRequest req
      \<notin> set (fst (ask_until_valid trim validate_email (emailAnswers env)))"
    by (auto dest!: ask_until_valid_events)
  from assms inv show ?thesis
    by (auto simp add: persist_and_submit_eq Let_def email_events_def enr res noreq
          build_request_def
          simp del: List.map_filter_simps split: option.splits sum.splits)
qed

lemma persist_and_submit_authenticated:
  assumes "persist_and_submit env exp (Some u) ctx dc pk w = (r, w')"
  shows "\<exists>es. trace w' =
            trace w @ store_events (Some u) ctx (heap w) (List.map_filter (\<lambda>i. i) [dc, pk]) @ es
           \<and> list_all (\<lambda>e. \<not> is_store_update e) es"
proof -
  have enr: "list_all (\<lambda>e. \<not> is_store_update e) (enroll_events devices)" for devices
    by (simp add: enroll_events_def)
  have res: "list_all (\<lambda>e. \<not> is_store_update e) (result_lines a result)" for a result
    by (simp add: result_lines_def)
  from assms show ?thesis
    by (auto simp add: persist_and_submit_eq Let_def email_events_def enr res
          simp del: List.map_filter_simps split: option.splits sum.splits)
qed

lemma store_events_selected:
  assumes "(case dc of None \<Rightarrow> None | Some a \<Rightarrow> h a) = c"
      and "(case pk of None \<Rightarrow> None | Some a \<Rightarrow> h a) = k"
      and "dc = None \<longleftrightarrow> c = None" and "pk = None \<longleftrightarrow> k = None"
  shows "store_events (Some u) ctx h (List.map_filter (\<lambda>i. i) [dc, pk]) =
     (if filter dirty (List.map_filter (\<lambda>i. i) [c, k]) = [] then []
      else [UpdateCredentialsForPlatform IOS
              (merged_credentials (team_id (team ctx)) (filter dirty (List.map_filter (\<lambda>i. i) [c, k])))
              []
              \<lparr>key_username = username u, key_experienceName = experienceName ctx,
               key_bundleIdentifier = bundleIdentifier ctx\<rparr>])"
  using assms
  by (cases dc; cases pk) (auto simp: store_events_def List.map_filter_simps)

lemma persist_and_submit_cases:
  assumes "persist_and_submit env exp user ctx dc pk w = (r, w')"
  obtains
    (store_failed) f where
      "store_outcome env user ctx (heap w) (List.map_filter (\<lambda>i. i) [dc, pk]) = Some f"
      "r = Throw (ExternalError f)"
      "trace w' = trace w @ store_events user ctx (heap w) (List.map_filter (\<lambda>i. i) [dc, pk])"
      "heap w' = heap w"
  | (suspended)
      "store_outcome env user ctx (heap w) (List.map_filter (\<lambda>i. i) [dc, pk]) = None"
      "email_value env user = None"
      "r = Suspended"
      "trace w' = trace w @ store_events user ctx (heap w) (List.map_filter (\<lambda>i. i) [dc, pk])
          @ email_events env user"
      "heap w' = stored_heap user (List.map_filter (\<lambda>i. i) [dc, pk]) (heap w)"
  | (devices_failed) email' f where
      "store_outcome env user ctx (heap w) (List.map_filter (\<lambda>i. i) [dc, pk]) = None"
      "email_value env user = Some email'"
      "listDevices env (device_args ctx) = Inl f"
      "r = Throw (ExternalError f)"
      "trace w' = trace w @ store_events user ctx (heap w) (List.map_filter (\<lambda>i. i) [dc, pk])
          @ email_events env user @ [ListDevices (device_args ctx)]"
      "heap w' = stored_heap user (List.map_filter (\<lambda>i. i) [dc, pk]) (heap w)"
  | (submit_failed) email' devices req f where
      "store_outcome env user ctx (heap w) (List.map_filter (\<lambda>i. i) [dc, pk]) = None"
      "email_value env user = Some email'"
      "listDevices env (device_args ctx) = Inr devices"
      "req = build_request env exp user ctx
         (case dc of None \<Rightarrow> None
          | Some a \<Rightarrow> stored_heap user (List.map_filter (\<lambda>i. i) [dc, pk]) (heap w) a)
         (case pk of None \<Rightarrow> None
          | Some a \<Rightarrow> stored_heap user (List.map_filter (\<lambda>i. i) [dc, pk]) (heap w) a)
         devices email'"
      "createClientBuildRequest env req = Inl f"
      "r = Throw (ExternalError f)"
      "trace w' = trace w @ store_events user ctx (heap w) (List.map_filter (\<lambda>i. i) [dc, pk])
          @ email_events env user @ [ListDevices (device_args ctx), LogNewLine]
          @ enroll_events devices @ [CreateClientBuildRequest req]"
      "heap w' = stored_heap user (List.map_filter (\<lambda>i. i) [dc, pk]) (heap w)"
  | (completed) email' devices req result where
      "store_outcome env user ctx (heap w) (List.map_filter (\<lambda>i. i) [dc, pk]) = None"
      "email_value env user = Some email'"
      "listDevices env (device_args ctx) = Inr devices"
      "req = build_request env exp user ctx
         (case dc of None \<Rightarrow> None
          | Some a \<Rightarrow> stored_heap user (List.map_filter (\<lambda>i. i) [dc, pk]) (heap w) a)
         (case pk of None \<Rightarrow> None
          | Some a \<Rightarrow> stored_heap user (List.map_filter (\<lambda>i. i) [dc, pk]) (heap w) a)
         devices email'"
      "createClientBuildRequest env req = Inr result"
      "r = Ok ()"
      "trace w' = trace w @ store_events user ctx (heap w) (List.map_filter (\<lambda>i. i) [dc, pk])
          @ email_events env user @ [ListDevices (device_args ctx), LogNewLine]
          @ enroll_events devices @ [CreateClientBuildRequest req]
          @ result_lines (req_addUdid req) result"
      "heap w' = stored_heap user (List.map_filter (\<lambda>i. i) [dc, pk]) (heap w)"
proof (cases "store_outcome env user ctx (heap w) (List.map_filter (\<lambda>i. i) [dc, pk])")
  case (Some f)
  with assms show ?thesis
    by (intro store_failed[of f])
       (auto simp add: persist_and_submit_eq Let_def)
next
  case st: None
  show ?thesis
  proof (cases "email_value env user")
    case None
    with assms st show ?thesis
      by (intro suspended)
         (auto simp add: persist_and_submit_eq Let_def)
  next
    case em: (Some email')
    show ?thesis
    proof (cases "listDevices env (device_args ctx)")
      case (Inl f)
      with assms st em show ?thesis
        by (intro devices_failed[of email' f])
           (auto simp add: persist_and_submit_eq Let_def)
    next
      case ld: (Inr devices)
      show ?thesis
      proof (cases "createClientBuildRequest env (build_request env exp user ctx
         (case dc of None \<Rightarrow> None
          | Some a \<Rightarrow> stored_heap user (List.map_filter (\<lambda>i. i) [dc, pk]) (heap w) a)
         (case pk of None \<Rightarrow> None
          | Some a \<Rightarrow> stored_heap user (List.map_filter (\<lambda>i. i) [dc, pk]) (heap w) a)
         devices email')")
        case (Inl f)
        with assms st em ld show ?thesis
          by (intro submit_failed[where email'=email' and devices=devices and f=f])
             (auto simp add: persist_and_submit_eq Let_def)
      next
        case (Inr result)
        with assms st em ld show ?thesis
          by (intro completed[where email'=email' and devices=devices and result=result])
             (auto simp add: persist_and_submit_eq Let_def)
      qed
    qed
  qed
qed

lemma phase_events:
  "ListDevices args \<notin> set (store_events user ctx h creds)"
  "ListDevices args \<notin> set (email_events env user)"
  "ListDevices args \<notin> set (enroll_events devices)"
  "ListDevices args \<notin> set (result_lines a result)"
  "CreateClientBuildRequest req \<notin> set (store_events user ctx h creds)"
  "CreateClientBuildRequest req \<notin> set (email_events env user)"
  "CreateClientBuildRequest req \<notin> set (enroll_events devices)"
  "CreateClientBuildRequest req \<notin> set (result_lines a result)"
  "PromptConfirm m d \<notin> set (store_events user ctx h creds)"
  "PromptConfirm m d \<notin> set (email_events env user)"
  "PromptConfirm m d \<notin> set (result_lines a result)"
  "PromptInput m \<notin> set (store_events user ctx h creds)"
  "PromptInput m \<notin> set (enroll_events devices)"
  "PromptInput m \<notin> set (result_lines a result)"
  using store_events_cases[of user ctx h creds]
  by (auto simp: email_events_def enroll_events_def result_lines_def
        dest!: ask_until_valid_events split: option.splits)

lemma persist_and_submit_enrollment:
  assumes "persist_and_submit env exp user ctx dc pk w = (r, w')"
      and "trace w' = trace w @ es"
      and "ListDevices args \<in> set es" and "listDevices env args = Inr devices"
  shows "\<exists>req. CreateClientBuildRequest req \<in> set es
           \<and> (\<forall>req'. CreateClientBuildRequest req' \<in> set es \<longrightarrow> req' = req)
           \<and> req_udids req = map deviceNumber devices
           \<and> (devices = [] \<longrightarrow> req_addUdid req \<and> (\<forall>m d. PromptConfirm m d \<notin> set es))
           \<and> (devices \<noteq> [] \<longrightarrow> PromptConfirm confirm_prompt True \<in> set es
                \<and> req_addUdid req = (case addUdidAnswer env of None \<Rightarrow> True | Some b \<Rightarrow> b))"
  using assms(1)
proof (cases rule: persist_and_submit_cases)
  case (store_failed f)
  with assms(2) have "es = store_events user ctx (heap w) (List.map_filter (\<lambda>i. i) [dc, pk])"
    by simp
  with assms(3) show ?thesis by (simp add: phase_events)
next
  case suspended
  with assms(2) have "es = store_events user ctx (heap w) (List.map_filter (\<lambda>i. i) [dc, pk])
          @ email_events env user"
    by simp
  with assms(3) show ?thesis by (simp add: phase_events)
next
  case (devices_failed email' f)
  with assms(2) have "es = store_events user ctx (heap w) (List.map_filter (\<lambda>i. i) [dc, pk])
          @ email_events env user @ [ListDevices (device_args ctx)]"
    by simp
  with assms(3,4) devices_failed(3) show ?thesis by (auto simp add: phase_events)
next
  case (submit_failed email' devices' req f)
  with assms(2) have es: "es = store_events user ctx (heap w) (List.map_filter (\<lambda>i. i) [dc, pk])
          @ email_events env user @ [ListDevices (device_args ctx), LogNewLine]
          @ enroll_events devices' @ [CreateClientBuildRequest req]"
    by simp
  with assms(3,4) submit_failed(3) have "devices' = devices" by (auto simp add: phase_events)
  with submit_failed(4) es show ?thesis
    by (intro exI[of _ req])
       (auto simp add: phase_events build_request_def enroll_events_def)
next
  case (completed email' devices' req result)
  with assms(2) have es: "es = store_events user ctx (heap w) (List.map_filter (\<lambda>i. i) [dc, pk])
          @ email_events env user @ [ListDevices (device_args ctx), LogNewLine]
          @ enroll_events devices' @ [CreateClientBuildRequest req]
          @ result_lines (req_addUdid req) result"
    by simp
  with assms(3,4) completed(3) have "devices' = devices" by (auto simp add: phase_events)
  with completed(4) es show ?thesis
    by (intro exI[of _ req])
       (auto simp add: phase_events build_request_def enroll_events_def)
qed

subsection \<open>The example runs\<close>

lemmas model_defs =
  run_def client_ios_def configure_and_authorize_def find_configuration_def appJsonPath_of_def
  select_credentials_def persist_and_submit_eq Let_def init_world_def
  await_def emit_def call_def ret_def throw_def alloc_def deref_def

lemmas demo_defs =
  demo_env_def denied_env_def anonymous_env_def demo_options_def demo_user_def
  demo_authData_def demo_config_def

lemma denied_run:
  "run denied_env ''proj'' demo_options =
     (Throw (CommandError ''CLIENT_BUILD_REQUEST_NOT_ALLOWED''
        ''New Expo Client build request disallowed. Reason: quota exceeded''),
      \<lparr>trace = [SpinnerStart ''Finding custom configuration for the Expo client...'',
                FileExistsAsync ''proj/app.json'', ReadConfigJsonAsync ''proj'',
                SpinnerSucceed ''Found custom configuration for the Expo client at proj/app.json'',
                Authenticate demo_options, GetCurrentUserAsync,
                IsAllowedToBuild (Some demo_user) ''TEAM1''],
       heap = Map.empty, next_ref = 0\<rparr>)"
  by (simp add: model_defs demo_defs throw_def template_def)

lemmas demo_defs2 =
  demo_preamble_def demo_selection_def demo_report_def demo_result_def demo_devices_def
  demo_request_def anonymous_request_def demo_store_update_def demo_context_def

lemmas step_defs =
  store_events_def store_outcome_def stored_heap_def email_events_def email_value_def
  device_args_def merged_credentials_def spread_def List.map_filter_simps build_request_def
  mark_googleMaps_def mark_pushNotifications_def init_servicesDisabled_def
  lodash_has_def castPath_def isKey_def stringToPath_def accessor_text_def is_word_char_def
  validate_email_def trim_def is_white_space_def is_line_terminator_def utf16_def

lemma demo_env_fields:
  "path_join demo_env = (\<lambda>a b. a @ ''/'' @ b)"
  "startCase demo_env = (\<lambda>s. s)"
  "fileExistsAsync demo_env = (\<lambda>_. Inr True)"
  "readConfigJsonAsync demo_env = (\<lambda>_. Inr (Some demo_config))"
  "authenticate demo_env = (\<lambda>_. Inr demo_authData)"
  "getCurrentUserAsync demo_env = Inr (Some demo_user)"
  "isAllowedToBuild demo_env = (\<lambda>_ _. Inr \<lparr>isAllowed = True, errorMessage = None\<rparr>)"
  "generateBundleIdentifier demo_env = (\<lambda>t. Inr (''dev.expo.client.'' @ t))"
  "getExperienceName demo_env = (\<lambda>_ t. Inr (''@alice/client-'' @ t))"
  "ensureAppExists demo_env = (\<lambda>_. Inr ())"
  "selectDistributionCert demo_env = (\<lambda>_. Inr (Some \<lparr>cred_fields = [(''certId'', ''C1'')], dirty = False\<rparr>))"
  "selectPushKey demo_env = (\<lambda>_. Inr (Some \<lparr>cred_fields = [(''apnsKeyId'', ''K1'')], dirty = True\<rparr>))"
  "updateCredentialsForPlatform demo_env = (\<lambda>_ _ _. Inr ())"
  "emailAnswers demo_env = []"
  "listDevices demo_env = (\<lambda>_. Inr demo_devices)"
  "addUdidAnswer demo_env = Some False"
  "createClientBuildRequest demo_env = (\<lambda>_. Inr demo_result)"
  by (simp_all add: demo_env_def denied_env_def anonymous_env_def demo_devices_def demo_result_def)

lemma denied_env_fields:
  "path_join denied_env = (\<lambda>a b. a @ ''/'' @ b)"
  "startCase denied_env = (\<lambda>s. s)"
  "fileExistsAsync denied_env = (\<lambda>_. Inr True)"
  "readConfigJsonAsync denied_env = (\<lambda>_. Inr (Some demo_config))"
  "authenticate denied_env = (\<lambda>_. Inr demo_authData)"
  "getCurrentUserAsync denied_env = Inr (Some demo_user)"
  "isAllowedToBuild denied_env = (\<lambda>_ _. Inr \<lparr>isAllowed = False, errorMessage = Some ''quota exceeded''\<rparr>)"
  "generateBundleIdentifier denied_env = (\<lambda>t. Inr (''dev.expo.client.'' @ t))"
  "getExperienceName denied_env = (\<lambda>_ t. Inr (''@alice/client-'' @ t))"
  "ensureAppExists denied_env = (\<lambda>_. Inr ())"
  "selectDistributionCert denied_env = (\<lambda>_. Inr (Some \<lparr>cred_fields = [(''certId'', ''C1'')], dirty = False\<rparr>))"
  "selectPushKey denied_env = (\<lambda>_. Inr (Some \<lparr>cred_fields = [(''apnsKeyId'', ''K1'')], dirty = True\<rparr>))"
  "updateCredentialsForPlatform denied_env = (\<lambda>_ _ _. Inr ())"
  "emailAnswers denied_env = []"
  "listDevices denied_env = (\<lambda>_. Inr demo_devices)"
  "addUdidAnswer denied_env = Some False"
  "createClientBuildRequest denied_env = (\<lambda>_. Inr demo_result)"
  by (simp_all add: demo_env_def denied_env_def anonymous_env_def demo_devices_def demo_result_def)

lemma anonymous_env_fields:
  "path_join anonymous_env = (\<lambda>a b. a @ ''/'' @ b)"
  "startCase anonymous_env = (\<lambda>s. s)"
  "fileExistsAsync anonymous_env = (\<lambda>_. Inr True)"
  "readConfigJsonAsync anonymous_env = (\<lambda>_. Inr (Some demo_config))"
  "authenticate anonymous_env = (\<lambda>_. Inr demo_authData)"
  "getCurrentUserAsync anonymous_env = Inr None"
  "isAllowedToBuild anonymous_env = (\<lambda>_ _. Inr \<lparr>isAllowed = True, errorMessage = None\<rparr>)"
  "generateBundleIdentifier anonymous_env = (\<lambda>t. Inr (''dev.expo.client.'' @ t))"
  "getExperienceName anonymous_env = (\<lambda>_ t. Inr (''@alice/client-'' @ t))"
  "ensureAppExists anonymous_env = (\<lambda>_. Inr ())"
  "selectDistributionCert anonymous_env = (\<lambda>_. Inr (Some \<lparr>cred_fields = [(''certId'', ''C1'')], dirty = False\<rparr>))"
  "selectPushKey anonymous_env = (\<lambda>_. Inr (Some \<lparr>cred_fields = [(''apnsKeyId'', ''K1'')], dirty = True\<rparr>))"
  "updateCredentialsForPlatform anonymous_env = (\<lambda>_ _ _. Inr ())"
  "emailAnswers anonymous_env = [utf16 ''alice'', utf16 '' alice@example.com '']"
  "listDevices anonymous_env = (\<lambda>_. Inr [])"
  "addUdidAnswer anonymous_env = None"
  "createClientBuildRequest anonymous_env = (\<lambda>_. Inr demo_result)"
  by (simp_all add: demo_env_def denied_env_def anonymous_env_def demo_devices_def demo_result_def)

lemmas env_fields = demo_env_fields denied_env_fields anonymous_env_fields

lemma demo_run:
  "run demo_env ''proj'' demo_options =
     (Ok (),
      \<lparr>trace = demo_preamble @ demo_selection (Some demo_user) @ report_lines demo_env demo_report
                @ [demo_store_update, ListDevices (device_args (demo_context (Some demo_user))),
                   LogNewLine]
                @ enroll_events demo_devices @ [CreateClientBuildRequest demo_request]
                @ result_lines False demo_result,
       heap = [0 \<mapsto> \<lparr>cred_fields = [(''certId'', ''C1'')], dirty = False\<rparr>,
               1 \<mapsto> \<lparr>cred_fields = [(''apnsKeyId'', ''K1'')], dirty = True\<rparr>],
       next_ref = 2\<rparr>)"
  by (simp add: model_defs env_fields demo_options_def demo_user_def demo_authData_def demo_config_def demo_defs2 step_defs render_servicesDisabled_apply)

lemma anonymous_run:
  "run anonymous_env ''proj'' demo_options =
     (Ok (),
      \<lparr>trace = demo_preamble @ demo_selection None @ report_lines anonymous_env demo_report
                @ [PromptInput email_prompt, PromptInvalid ''That doesn't look like a valid email.'',
                   ListDevices (device_args (demo_context None)), LogNewLine]
                @ enroll_events [] @ [CreateClientBuildRequest anonymous_request]
                @ result_lines True demo_result,
       heap = [0 \<mapsto> \<lparr>cred_fields = [(''certId'', ''C1'')], dirty = False\<rparr>,
               1 \<mapsto> \<lparr>cred_fields = [(''apnsKeyId'', ''K1'')], dirty = False\<rparr>],
       next_ref = 2\<rparr>)"
  by (simp add: model_defs env_fields demo_options_def demo_user_def demo_authData_def demo_config_def demo_defs2 step_defs render_servicesDisabled_apply)

lemma early_trace:
  assumes "list_all is_preamble pre" and "list_all is_selection es"
      and "trace w1 = pre @ [IsAllowedToBuild u t] @ es @ report_lines env sd"
  shows "ListDevices args \<notin> set (trace w1)"
    and "CreateClientBuildRequest req \<notin> set (trace w1)"
    and "PromptConfirm m d \<notin> set (trace w1)"
    and "PromptInput m \<notin> set (trace w1)"
    and "PromptInvalid m \<notin> set (trace w1)"
    and "PrintQRCode url \<notin> set (trace w1)"
    and "LogGreen m \<notin> set (trace w1)"
    and "UpdateCredentialsForPlatform p payload xs keys \<notin> set (trace w1)"
  using assms report_lines_events[of env sd]
  by (auto simp: list_all_iff)

lemma is_url_rendering_simps [simp]:
  "is_url_rendering (PrintQRCode url)" "is_url_rendering (LogGreen s)"
  "\<not> is_url_rendering (Log s)" "\<not> is_url_rendering LogNewLine"
  "\<not> is_url_rendering (LogWarn s)" "\<not> is_url_rendering (LogTable h rows)"
  "\<not> is_url_rendering (ListDevices args)" "\<not> is_url_rendering (CreateClientBuildRequest req)"
  "\<not> is_url_rendering (PromptInput m)" "\<not> is_url_rendering (PromptInvalid m)"
  "\<not> is_url_rendering (PromptConfirm m d)"
  "\<not> is_url_rendering (UpdateCredentialsForPlatform p payload xs keys)"
  "\<not> is_url_rendering (IsAllowedToBuild u t)"
  by (simp_all add: is_url_rendering_def)

lemma url_rendering_events:
  "is_preamble e \<Longrightarrow> \<not> is_url_rendering e"
  "is_selection e \<Longrightarrow> \<not> is_url_rendering e"
  "is_report_line e \<Longrightarrow> \<not> is_url_rendering e"
  by (cases e; simp add: is_url_rendering_def)+

lemma no_url_rendering:
  "filter is_url_rendering (store_events user ctx h creds) = []"
  "filter is_url_rendering (email_events env user) = []"
  "filter is_url_rendering (enroll_events devices) = []"
  "filter is_url_rendering (report_lines env sd) = []"
  using store_events_cases[of user ctx h creds] report_lines_events[of env sd]
  by (auto simp: email_events_def enroll_events_def filter_empty_conv list_all_iff
        dest!: ask_until_valid_events dest: url_rendering_events split: option.splits)

lemma no_submission:
  "filter is_submission (store_events user ctx h creds) = []"
  "filter is_submission (email_events env user) = []"
  "filter is_submission (enroll_events devices) = []"
  "filter is_submission (report_lines env sd) = []"
  "filter is_submission (result_lines a result) = []"
  using store_events_cases[of user ctx h creds] report_lines_events[of env sd]
  by (auto simp: email_events_def enroll_events_def result_lines_def filter_empty_conv list_all_iff
        dest!: ask_until_valid_events dest: report_line_event split: option.splits)

lemma report_render_events:
  "is_preamble e \<Longrightarrow> \<not> is_report_render e"
  "is_selection e \<Longrightarrow> \<not> is_report_render e"
  "is_persist_event e \<Longrightarrow> \<not> is_report_render e"
  by (auto simp: is_report_render_def)

lemma report_render_query [simp]: "\<not> is_report_render (IsAllowedToBuild u t)"
  by (simp add: is_report_render_def)

lemma mark_googleMaps_push:
  "map_of (mark_googleMaps exp p init_servicesDisabled) ''pushNotifications'' = Some push_reason"
  by (simp add: mark_googleMaps_def init_servicesDisabled_def push_reason_def Let_def
        AList.update_conv')

lemma mark_pushNotifications_push:
  assumes "map_of sd ''pushNotifications'' = Some push_reason"
  shows "map_of (mark_pushNotifications pk user sd) ''pushNotifications'' = Some push_reason"
  using assms
  by (simp add: mark_pushNotifications_def Let_def AList.update_conv' push_reason_def)

lemma servicesDisabled_push:
  "map_of (mark_pushNotifications pk user (mark_googleMaps exp p init_servicesDisabled))
     ''pushNotifications'' = Some push_reason"
  by (rule mark_pushNotifications_push[OF mark_googleMaps_push])

lemma report_lines_rendered:
  assumes "map_of sd ''pushNotifications'' = Some push_reason"
  shows "filter is_report_render (report_lines env sd) = [LogWarn report_header]"
    and "\<exists>rows. LogTable [''Service'', ''Reason''] rows \<in> set (report_lines env sd)
           \<and> [startCase env ''pushNotifications'', push_reason] \<in> set rows"
proof -
  from assms have ne: "sd \<noteq> []" by auto
  then show "filter is_report_render (report_lines env sd) = [LogWarn report_header]"
    by (simp add: report_lines_def is_report_render_def report_header_def)
  from assms have "(''pushNotifications'', push_reason) \<in> set sd"
    by (rule map_of_SomeD)
  then have "[startCase env ''pushNotifications'', push_reason]
      \<in> set (map (\<lambda>service. [startCase env service, template (map_of sd service)]) (map fst sd))"
    using assms by (force simp: template_def)
  with ne show "\<exists>rows. LogTable [''Service'', ''Reason''] rows \<in> set (report_lines env sd)
           \<and> [startCase env ''pushNotifications'', push_reason] \<in> set rows"
    by (simp add: report_lines_def)
qed

lemma persist_and_submit_no_render:
  assumes "persist_and_submit env exp user ctx dc pk w = (r, w')"
  shows "\<exists>es. trace w' = trace w @ es \<and> list_all (\<lambda>e. \<not> is_report_render e) es"
  using persist_and_submit_trace[OF assms]
  by (auto simp: list_all_iff dest: report_render_events)

lemma servicesDisabled_nonempty:
  "mark_pushNotifications pk user (mark_googleMaps exp p init_servicesDisabled) \<noteq> []"
  using servicesDisabled_push[of pk user exp p] by auto

lemma email_regex_test_iff:
  "email_regex_test s \<longleftrightarrow>
     (\<exists>u a b v. s = u @ [a] @ [0x40] @ [b] @ v \<and> \<not> is_line_terminator a \<and> \<not> is_line_terminator b)"
proof (induction s rule: email_regex_test.induct)
  case (1 a b c cs)
  show ?case
  proof
    assume "email_regex_test (a # b # c # cs)"
    then consider "\<not> is_line_terminator a" "b = 0x40" "\<not> is_line_terminator c"
      | "email_regex_test (b # c # cs)" by auto
    then show "\<exists>u a' b' v. a # b # c # cs = u @ [a'] @ [0x40] @ [b'] @ v
        \<and> \<not> is_line_terminator a' \<and> \<not> is_line_terminator b'"
    proof cases
      case 1
      then show ?thesis
        by (intro exI[of _ "[]"] exI[of _ a] exI[of _ c] exI[of _ cs]) simp
    next
      case 2
      with 1 obtain u a' b' v where "b # c # cs = u @ [a'] @ [0x40] @ [b'] @ v"
        "\<not> is_line_terminator a'" "\<not> is_line_terminator b'" by blast
      then show ?thesis
        by (intro exI[of _ "a # u"] exI[of _ a'] exI[of _ b'] exI[of _ v]) simp
    qed
  next
    assume "\<exists>u a' b' v. a # b # c # cs = u @ [a'] @ [0x40] @ [b'] @ v
        \<and> \<not> is_line_terminator a' \<and> \<not> is_line_terminator b'"
    then obtain u a' b' v where *: "a # b # c # cs = u @ [a'] @ [0x40] @ [b'] @ v"
        "\<not> is_line_terminator a'" "\<not> is_line_terminator b'" by blast
    show "email_regex_test (a # b # c # cs)"
    proof (cases u)
      case Nil
      with * show ?thesis by simp
    next
      case (Cons x u')
      with * have "b # c # cs = u' @ [a'] @ [0x40] @ [b'] @ v" by simp
      with *(2,3) 1 have "email_regex_test (b # c # cs)" by blast
      then show ?thesis by simp
    qed
  qed
qed (auto simp: append_eq_Cons_conv)

lemma validate_email_simps:
  "email_regex_test v \<Longrightarrow> validate_email v = Valid"
  "\<not> email_regex_test v \<Longrightarrow> validate_email v = Invalid invalid_email_message"
  by (simp_all add: validate_email_def invalid_email_message_def)

lemma resolve_email_never_throws: "fst (resolve_email env user w) \<noteq> Throw e"
  by (simp add: resolve_email_def ret_def prompt_input_def split: option.splits prod.splits)

lemma accessor_path:
  "stringToPath accessor_text = [''_ => _'', ''ios'', ''config'', ''googleMapsApiKey'']"
  by (simp add: stringToPath_def accessor_text_def)

lemma accessor_not_key:
  assumes "own_property obj accessor_text = None"
  shows "castPath accessor_text obj = [''_ => _'', ''ios'', ''config'', ''googleMapsApiKey'']"
proof -
  have "\<not> isKey accessor_text obj"
    using assms by (simp add: isKey_def accessor_text_def is_word_char_def)
  then show ?thesis by (simp add: castPath_def accessor_path)
qed

lemma accessor_never_found:
  assumes "own_property obj ''_ => _'' = None" and "own_property obj accessor_text = None"
  shows "\<not> lodash_has (Some obj) accessor_text"
  using assms accessor_not_key[OF assms(2)]
  by (cases obj) (simp_all add: lodash_has_def)

lemma is_report_event_simps [simp]:
  "is_report_event (LogWarn m) = (m = report_header)"
  "is_report_event (LogTable head rows) = (head = [''Service'', ''Reason''])"
  "is_report_event (Log s) = (s = report_link)"
  "\<not> is_report_event LogNewLine"
  "\<not> is_report_event (ListDevices args)" "\<not> is_report_event (CreateClientBuildRequest req)"
  "\<not> is_report_event (PromptInput pm)" "\<not> is_report_event (PromptInvalid pm)"
  "\<not> is_report_event (PromptConfirm pm d)"
  "\<not> is_report_event (UpdateCredentialsForPlatform p payload xs keys)"
  "\<not> is_report_event (IsAllowedToBuild u t)"
  "\<not> is_report_event (PrintQRCode url)" "\<not> is_report_event (LogGreen s)"
  "\<not> is_report_event (SelectPushKey ctx)" "\<not> is_report_event (SelectDistributionCert ctx)"
  "\<not> is_report_event (GenerateBundleIdentifier t)" "\<not> is_report_event (GetExperienceName u t)"
  "\<not> is_report_event (EnsureAppExists ctx d)"
  "\<not> is_report_event (SpinnerStart s)" "\<not> is_report_event (SpinnerSucceed s)"
  "\<not> is_report_event (SpinnerWarn s)" "\<not> is_report_event (FileExistsAsync s)"
  "\<not> is_report_event (ReadConfigJsonAsync s)" "\<not> is_report_event (Authenticate opts)"
  "\<not> is_report_event GetCurrentUserAsync"
  by (simp_all add: is_report_event_def)

lemma report_event_early:
  "is_preamble e \<Longrightarrow> \<not> is_report_event e"
  "is_selection e \<Longrightarrow> \<not> is_report_event e"
  by (cases e; simp add: is_report_event_def is_preamble_def is_selection_def)+

lemma no_report_event:
  "list_all (\<lambda>e. \<not> is_report_event e \<and> \<not> is_selection e) (store_events user ctx h creds)"
  "list_all (\<lambda>e. \<not> is_report_event e \<and> \<not> is_selection e) (email_events env user)"
  "list_all (\<lambda>e. \<not> is_report_event e \<and> \<not> is_selection e) (enroll_events devices)"
  "list_all (\<lambda>e. \<not> is_report_event e \<and> \<not> is_selection e) (result_lines a result)"
  using store_events_cases[of user ctx h creds]
  by (auto simp: email_events_def enroll_events_def result_lines_def list_all_iff report_link_def
        dest!: ask_until_valid_events split: option.splits)

lemma persist_and_submit_no_report:
  assumes "persist_and_submit env exp user ctx dc pk w = (r, w')"
  shows "\<exists>es. trace w' = trace w @ es
           \<and> list_all (\<lambda>e. \<not> is_report_event e \<and> \<not> is_selection e) es"
  using assms
proof (cases rule: persist_and_submit_cases)
  case (store_failed f)
  then show ?thesis using no_report_event(1) by blast
next
  case suspended
  then show ?thesis
    using no_report_event(1)[of user ctx "heap w" "List.map_filter (\<lambda>i. i) [dc, pk]"]
      no_report_event(2)[of env user]
    by (intro exI[of _ "store_events user ctx (heap w) (List.map_filter (\<lambda>i. i) [dc, pk])
          @ email_events env user"]) simp
next
  case (devices_failed email' f)
  then show ?thesis
    using no_report_event(1)[of user ctx "heap w" "List.map_filter (\<lambda>i. i) [dc, pk]"]
      no_report_event(2)[of env user]
    by (intro exI[of _ "store_events user ctx (heap w) (List.map_filter (\<lambda>i. i) [dc, pk])
          @ email_events env user @ [ListDevices (device_args ctx)]"]) simp
next
  case (submit_failed email' devices req f)
  then show ?thesis
    using no_report_event(1)[of user ctx "heap w" "List.map_filter (\<lambda>i. i) [dc, pk]"]
      no_report_event(2)[of env user]
      no_report_event(3)[of devices]
    by (intro exI[of _ "store_events user ctx (heap w) (List.map_filter (\<lambda>i. i) [dc, pk])
          @ email_events env user @ [ListDevices (device_args ctx), LogNewLine]
          @ enroll_events devices @ [CreateClientBuildRequest req]"]) simp
next
  case (completed email' devices req result)
  then show ?thesis
    using no_report_event(1)[of user ctx "heap w" "List.map_filter (\<lambda>i. i) [dc, pk]"]
      no_report_event(2)[of env user]
      no_report_event(3)[of devices] no_report_event(4)[of "req_addUdid req" result]
    by (intro exI[of _ "store_events user ctx (heap w) (List.map_filter (\<lambda>i. i) [dc, pk])
          @ email_events env user @ [ListDevices (device_args ctx), LogNewLine]
          @ enroll_events devices @ [CreateClientBuildRequest req]
          @ result_lines (req_addUdid req) result"]) simp
qed

lemma is_email_prompt_simps [simp]:
  "is_email_prompt (PromptInput m)" "is_email_prompt (PromptInvalid m)"
  "\<not> is_email_prompt (Log s)" "\<not> is_email_prompt LogNewLine"
  "\<not> is_email_prompt (LogWarn s)" "\<not> is_email_prompt (LogTable h rows)"
  "\<not> is_email_prompt (LogGreen s)" "\<not> is_email_prompt (PrintQRCode url)"
  "\<not> is_email_prompt (ListDevices args)" "\<not> is_email_prompt (CreateClientBuildRequest req)"
  "\<not> is_email_prompt (PromptConfirm m d)"
  "\<not> is_email_prompt (UpdateCredentialsForPlatform p payload xs keys)"
  "\<not> is_email_prompt (IsAllowedToBuild u t)"
  by (simp_all add: is_email_prompt_def)

lemma email_prompt_early:
  "is_preamble e \<Longrightarrow> \<not> is_email_prompt e"
  "is_selection e \<Longrightarrow> \<not> is_email_prompt e"
  "is_report_line e \<Longrightarrow> \<not> is_email_prompt e"
  by (cases e; simp add: is_email_prompt_def is_preamble_def is_selection_def is_report_line_def)+

lemma no_email_prompt:
  "list_all (\<lambda>e. \<not> is_email_prompt e) (store_events user ctx h creds)"
  "list_all (\<lambda>e. \<not> is_email_prompt e) (enroll_events devices)"
  "list_all (\<lambda>e. \<not> is_email_prompt e) (result_lines a result)"
  using store_events_cases[of user ctx h creds]
  by (auto simp: enroll_events_def result_lines_def)

lemma ask_email_split:
  "ask_until_valid trim validate_email answers =
     (replicate (length (takeWhile (\<lambda>l. validate_email (trim l) \<noteq> Valid) answers))
        (PromptInvalid invalid_email_message),
      case dropWhile (\<lambda>l. validate_email (trim l) \<noteq> Valid) answers of
        [] \<Rightarrow> None | line # _ \<Rightarrow> Some (trim line))"
proof (induction answers)
  case Nil
  show ?case by simp
next
  case (Cons l ls)
  show ?case
  proof (cases "email_regex_test (trim l)")
    case True
    then show ?thesis by (simp add: validate_email_simps)
  next
    case False
    then show ?thesis by (simp add: validate_email_simps Cons.IH)
  qed
qed

lemma validate_email_iff:
  "validate_email v = Valid \<longleftrightarrow>
     (\<exists>u a b w. v = u @ a # 0x40 # b # w
        \<and> a \<notin> {0x0A, 0x0D, 0x2028, 0x2029} \<and> b \<notin> {0x0A, 0x0D, 0x2028, 0x2029})"
  by (simp add: validate_email_def email_regex_test_iff is_line_terminator_def)

lemma trim_iff:
  "trim line =
     rev (dropWhile (\<lambda>c. c \<in> {0x09, 0x0A, 0x0B, 0x0C, 0x0D, 0x20, 0xA0, 0x1680,
                0x2000, 0x2001, 0x2002, 0x2003, 0x2004, 0x2005, 0x2006, 0x2007, 0x2008, 0x2009,
                0x200A, 0x2028, 0x2029, 0x202F, 0x205F, 0x3000, 0xFEFF})
       (rev (dropWhile (\<lambda>c. c \<in> {0x09, 0x0A, 0x0B, 0x0C, 0x0D, 0x20, 0xA0, 0x1680,
                0x2000, 0x2001, 0x2002, 0x2003, 0x2004, 0x2005, 0x2006, 0x2007, 0x2008, 0x2009,
                0x200A, 0x2028, 0x2029, 0x202F, 0x205F, 0x3000, 0xFEFF}) line)))"
proof -
  have "(\<lambda>c. is_white_space c \<or> is_line_terminator c) =
     (\<lambda>c. c \<in> {0x09, 0x0A, 0x0B, 0x0C, 0x0D, 0x20, 0xA0, 0x1680,
                0x2000, 0x2001, 0x2002, 0x2003, 0x2004, 0x2005, 0x2006, 0x2007, 0x2008, 0x2009,
                0x200A, 0x2028, 0x2029, 0x202F, 0x205F, 0x3000, 0xFEFF})"
    by (rule ext) (auto simp: is_white_space_def is_line_terminator_def)
  then show ?thesis by (simp add: trim_def)
qed

lemma persist_and_submit_email_anonymous:
  assumes "persist_and_submit env exp None ctx dc pk w = (r, w')"
  shows "\<exists>after.
      trace w' = trace w @ PromptInput email_prompt
        # replicate (length (takeWhile (\<lambda>l. validate_email (trim l) \<noteq> Valid) (emailAnswers env)))
            (PromptInvalid invalid_email_message) @ after
    \<and> list_all (\<lambda>e. \<not> is_email_prompt e) after
    \<and> (case dropWhile (\<lambda>l. validate_email (trim l) \<noteq> Valid) (emailAnswers env) of
          [] \<Rightarrow> r = Suspended \<and> after = []
        | line # _ \<Rightarrow>
            (\<exists>rest. after = ListDevices (device_args ctx) # rest)
          \<and> (\<forall>req. CreateClientBuildRequest req \<in> set after \<longrightarrow> req_email req = trim line))"
proof -
  define n where "n = length (takeWhile (\<lambda>l. validate_email (trim l) \<noteq> Valid) (emailAnswers env))"
  have ev: "email_events env None =
      PromptInput email_prompt # replicate n (PromptInvalid invalid_email_message)"
    by (simp add: email_events_def ask_email_split n_def)
  have val: "email_value env None =
      (case dropWhile (\<lambda>l. validate_email (trim l) \<noteq> Valid) (emailAnswers env) of
        [] \<Rightarrow> None | line # _ \<Rightarrow> Some (trim line))"
    by (simp add: email_value_def ask_email_split)
  from assms show ?thesis
  proof (cases rule: persist_and_submit_cases)
    case (store_failed f)
    from store_failed(1) show ?thesis by simp
  next
    case suspended
    from suspended(2) val
    have dw: "dropWhile (\<lambda>l. validate_email (trim l) \<noteq> Valid) (emailAnswers env) = []"
      by (simp split: list.splits)
    show ?thesis
      unfolding dw by (rule exI[of _ "[]"]) (simp add: suspended(3,4) ev n_def)
  next
    case (devices_failed email' f)
    from devices_failed(2) val obtain line rest where
      d: "dropWhile (\<lambda>l. validate_email (trim l) \<noteq> Valid) (emailAnswers env) = line # rest"
        "email' = trim line"
      by (auto split: list.splits)
    show ?thesis
      by (rule exI[of _ "[ListDevices (device_args ctx)]"])
         (simp add: devices_failed(5) ev n_def d)
  next
    case (submit_failed email' devices req f)
    from submit_failed(2) val obtain line rest where
      d: "dropWhile (\<lambda>l. validate_email (trim l) \<noteq> Valid) (emailAnswers env) = line # rest"
        "email' = trim line"
      by (auto split: list.splits)
    have e: "req_email req = trim line"
      by (simp add: submit_failed(4) build_request_def d(2))
    show ?thesis
      using no_email_prompt(2)[of devices]
      by (intro exI[of _ "[ListDevices (device_args ctx), LogNewLine]
            @ enroll_events devices @ [CreateClientBuildRequest req]"])
         (auto simp add: submit_failed(7) ev n_def d e phase_events)
  next
    case (completed email' devices req result)
    from completed(2) val obtain line rest where
      d: "dropWhile (\<lambda>l. validate_email (trim l) \<noteq> Valid) (emailAnswers env) = line # rest"
        "email' = trim line"
      by (auto split: list.splits)
    have e: "req_email req = trim line"
      by (simp add: completed(4) build_request_def d(2))
    show ?thesis
      using no_email_prompt(2)[of devices] no_email_prompt(3)[of "req_addUdid req" result]
      by (intro exI[of _ "[ListDevices (device_args ctx), LogNewLine]
            @ enroll_events devices @ [CreateClientBuildRequest req]
            @ result_lines (req_addUdid req) result"])
         (auto simp add: completed(7) ev n_def d e phase_events)
  qed
qed

lemma persist_and_submit_email_authenticated:
  assumes "persist_and_submit env exp (Some u) ctx dc pk w = (r, w')"
  shows "\<exists>es. trace w' = trace w @ es
    \<and> list_all (\<lambda>e. \<not> is_email_prompt e) es
    \<and> (\<forall>req. CreateClientBuildRequest req \<in> set es \<longrightarrow> req_email req = email u)"
proof -
  define st where "st = store_events (Some u) ctx (heap w) (List.map_filter (\<lambda>i. i) [dc, pk])"
  have st: "list_all (\<lambda>e. \<not> is_email_prompt e) st"
      "\<And>req. CreateClientBuildRequest req \<notin> set st"
    unfolding st_def by (rule no_email_prompt) (rule phase_events)
  have ev: "email_events env (Some u) = []" "email_value env (Some u) = Some (email u)"
    by (simp_all add: email_events_def email_value_def)
  from assms show ?thesis
  proof (cases rule: persist_and_submit_cases)
    case (store_failed f)
    with st show ?thesis by (intro exI[of _ st]) (simp add: st_def)
  next
    case suspended
    from suspended(2) show ?thesis by (simp add: ev)
  next
    case (devices_failed email' f)
    with st show ?thesis
      by (intro exI[of _ "st @ [ListDevices (device_args ctx)]"]) (simp add: st_def ev)
  next
    case (submit_failed email' devices req f)
    have e: "req_email req = email u"
      using submit_failed(2) by (simp add: submit_failed(4) build_request_def ev)
    show ?thesis
      using no_email_prompt(2)[of devices] st
      by (intro exI[of _ "st @ [ListDevices (device_args ctx), LogNewLine]
            @ enroll_events devices @ [CreateClientBuildRequest req]"])
         (auto simp add: submit_failed(7) st_def ev e phase_events)
  next
    case (completed email' devices req result)
    have e: "req_email req = email u"
      using completed(2) by (simp add: completed(4) build_request_def ev)
    show ?thesis
      using no_email_prompt(2)[of devices] no_email_prompt(3)[of "req_addUdid req" result] st
      by (intro exI[of _ "st @ [ListDevices (device_args ctx), LogNewLine]
            @ enroll_events devices @ [CreateClientBuildRequest req]
            @ result_lines (req_addUdid req) result"])
         (auto simp add: completed(7) st_def ev e phase_events)
  qed
qed

lemma unicode_env_fields:
  "path_join unicode_env = (\<lambda>a b. a @ ''/'' @ b)"
  "startCase unicode_env = (\<lambda>s. s)"
  "fileExistsAsync unicode_env = (\<lambda>_. Inr True)"
  "readConfigJsonAsync unicode_env = (\<lambda>_. Inr (Some demo_config))"
  "authenticate unicode_env = (\<lambda>_. Inr demo_authData)"
  "getCurrentUserAsync unicode_env = Inr None"
  "isAllowedToBuild unicode_env = (\<lambda>_ _. Inr \<lparr>isAllowed = True, errorMessage = None\<rparr>)"
  "generateBundleIdentifier unicode_env = (\<lambda>t. Inr (''dev.expo.client.'' @ t))"
  "getExperienceName unicode_env = (\<lambda>_ t. Inr (''@alice/client-'' @ t))"
  "ensureAppExists unicode_env = (\<lambda>_. Inr ())"
  "selectDistributionCert unicode_env = (\<lambda>_. Inr (Some \<lparr>cred_fields = [(''certId'', ''C1'')], dirty = False\<rparr>))"
  "selectPushKey unicode_env = (\<lambda>_. Inr (Some \<lparr>cred_fields = [(''apnsKeyId'', ''K1'')], dirty = True\<rparr>))"
  "updateCredentialsForPlatform unicode_env = (\<lambda>_ _ _. Inr ())"
  "emailAnswers unicode_env =
     [utf16 ''bob'' @ [0x2028, 0x40, 0x2029] @ utf16 ''example.com'',
      [0x00A0, 0xFEFF] @ utf16 ''bob@example.com'' @ [0x3000, 0x2029]]"
  "listDevices unicode_env = (\<lambda>_. Inr [])"
  "addUdidAnswer unicode_env = None"
  "createClientBuildRequest unicode_env = (\<lambda>_. Inr demo_result)"
  by (simp_all add: unicode_env_def anonymous_env_fields)

lemma unicode_run:
  "run unicode_env ''proj'' demo_options =
     (Ok (),
      \<lparr>trace = demo_preamble @ demo_selection None @ report_lines unicode_env demo_report
                @ [PromptInput email_prompt, PromptInvalid ''That doesn't look like a valid email.'',
                   ListDevices (device_args (demo_context None)), LogNewLine]
                @ enroll_events [] @ [CreateClientBuildRequest unicode_request]
                @ result_lines True demo_result,
       heap = [0 \<mapsto> \<lparr>cred_fields = [(''certId'', ''C1'')], dirty = False\<rparr>,
               1 \<mapsto> \<lparr>cred_fields = [(''apnsKeyId'', ''K1'')], dirty = False\<rparr>],
       next_ref = 2\<rparr>)"
  by (simp add: model_defs unicode_env_fields demo_options_def demo_user_def demo_authData_def
        demo_config_def demo_defs2 unicode_request_def step_defs render_servicesDisabled_apply)
subsection \<open>The eligibility gate\<close>

text \<open>
  Claim C1. In every run in which the eligibility query is made and answers
  \<open>isAllowed = false\<close>, the handler throws the \<open>CommandError\<close> of kind
  \<open>CLIENT_BUILD_REQUEST_NOT_ALLOWED\<close> whose message ends with the reason of the service; the
  query is the last event of the run, no credential is selected, the credential store is
  not updated, no device is listed, no build request is submitted, and no credential
  object exists.
\<close>

theorem denied_run_aborts:
  assumes "run env projectDir options = (r, w')"
      and "IsAllowedToBuild user teamId \<in> set (trace w')"
      and "isAllowedToBuild env user teamId = Inr allowed" and "\<not> isAllowed allowed"
  shows "r = Throw (CommandError ''CLIENT_BUILD_REQUEST_NOT_ALLOWED''
               (''New Expo Client build request disallowed. Reason: ''
                @ template (errorMessage allowed)))
       \<and> list_all (\<lambda>e. \<not> is_credential_selection e \<and> \<not> is_store_update e
                      \<and> \<not> is_device_listing e \<and> \<not> is_submission e) (trace w')
       \<and> last (trace w') = IsAllowedToBuild user teamId
       \<and> heap w' = Map.empty"
  using assms(1)
proof (cases rule: run_cases)
  case (early f)
  with assms(2) show ?thesis by (auto simp: list_all_iff dest: preamble_event)
next
  case (query_failed pre authData user' f)
  with assms(2,3) show ?thesis by (auto simp: list_all_iff dest: preamble_event)
next
  case (denied pre authData user' allowed')
  with assms(2,3) have "user' = user" "teamId = team_id (team authData)" "allowed' = allowed"
    by (auto simp: list_all_iff dest: preamble_event)
  with denied show ?thesis
    by (auto simp: list_all_iff dest: preamble_event)
next
  case (selection_failed pre authData user' allowed' es f)
  with assms(2,3,4) show ?thesis
    by (auto simp: list_all_iff dest: preamble_event selection_event)
next
  case (selected pre authData user' allowed' es exp b x ctx c k dc pk w1)
  from persist_and_submit_trace[OF selected(19)] obtain es' where
    "trace w' = trace w1 @ es'" "list_all is_persist_event es'" by blast
  with selected(1-5,11,12) assms(2,3,4)
    report_lines_events[of env "mark_pushNotifications pk user'
                (mark_googleMaps exp (appJsonPath_of env projectDir options) init_servicesDisabled)"]
  show ?thesis
    by (auto simp: list_all_iff
          dest: preamble_event selection_event report_line_event persist_event)
qed

theorem denied_run_aborts_witness:
  "fst (run denied_env ''proj'' demo_options) =
     Throw (CommandError ''CLIENT_BUILD_REQUEST_NOT_ALLOWED''
        ''New Expo Client build request disallowed. Reason: quota exceeded'')
   \<and> last (trace (snd (run denied_env ''proj'' demo_options))) =
       IsAllowedToBuild (Some demo_user) ''TEAM1''"
proof -
  have h1: "run denied_env ''proj'' demo_options =
     (fst (run denied_env ''proj'' demo_options), snd (run denied_env ''proj'' demo_options))"
    by simp
  have h2: "IsAllowedToBuild (Some demo_user) ''TEAM1''
      \<in> set (trace (snd (run denied_env ''proj'' demo_options)))"
    by (simp add: denied_run)
  have h3: "isAllowedToBuild denied_env (Some demo_user) ''TEAM1'' =
      Inr \<lparr>isAllowed = False, errorMessage = Some ''quota exceeded''\<rparr>"
    by (simp add: demo_defs)
  have h4: "\<not> isAllowed \<lparr>isAllowed = False, errorMessage = Some ''quota exceeded''\<rparr>"
    by simp
  from denied_run_aborts[OF h1 h2 h3 h4] show ?thesis
    by (simp add: template_def)
qed

subsection \<open>Anonymous runs\<close>

text \<open>
  Claim C2. In every run in which \<open>getCurrentUserAsync\<close> answers \<open>null\<close>, the credential
  store is never called, whatever the tags of the collected credentials. As soon as such a
  run asks for the email address, every credential object is untagged, and a submitted
  build request carries the credentials the two selectors returned, untagged.
\<close>

theorem anonymous_run_never_stores:
  assumes "run env projectDir options = (r, w')" and "getCurrentUserAsync env = Inr None"
  shows "list_all (\<lambda>e. \<not> is_store_update e) (trace w')
       \<and> ((\<exists>m. PromptInput m \<in> set (trace w')) \<longrightarrow> (\<forall>a c. heap w' a = Some c \<longrightarrow> \<not> dirty c))
       \<and> (\<forall>req. CreateClientBuildRequest req \<in> set (trace w') \<longrightarrow>
             (\<exists>ctx c k. selectDistributionCert env ctx = Inr c \<and> selectPushKey env ctx = Inr k
                \<and> req_distributionCert req = map_option (\<lambda>c. c\<lparr>dirty := False\<rparr>) c
                \<and> req_pushKey req = map_option (\<lambda>c. c\<lparr>dirty := False\<rparr>) k))"
  using assms(1)
proof (cases rule: run_cases)
  case (early f)
  then show ?thesis by (auto simp: list_all_iff is_persist_event_def is_submission_def dest!: preamble_event)
next
  case (query_failed pre authData user f)
  then show ?thesis by (auto simp: list_all_iff is_persist_event_def dest!: preamble_event)
next
  case (denied pre authData user allowed)
  then show ?thesis by (auto simp: list_all_iff is_persist_event_def dest!: preamble_event)
next
  case (selection_failed pre authData user allowed es f)
  then show ?thesis
    by (auto simp: list_all_iff is_persist_event_def dest!: preamble_event selection_event)
next
  case (selected pre authData user allowed es exp b x ctx c k dc pk w1)
  from selected(3) assms(2) have user: "user = None" by simp
  from persist_and_submit_anonymous[OF selected(19)[unfolded user]] obtain es' where es':
    "trace w' = trace w1 @ PromptInput email_prompt # es'"
    "list_all (\<lambda>e. \<not> is_store_update e) es'"
    "heap w' = stored_heap None (List.map_filter (\<lambda>i. i) [dc, pk]) (heap w1)"
    "\<forall>req. CreateClientBuildRequest req \<in> set es' \<longrightarrow>
                 req_distributionCert req =
                   (case dc of None \<Rightarrow> None
                    | Some a \<Rightarrow> stored_heap None (List.map_filter (\<lambda>i. i) [dc, pk]) (heap w1) a)
               \<and> req_pushKey req =
                   (case pk of None \<Rightarrow> None
                    | Some a \<Rightarrow> stored_heap None (List.map_filter (\<lambda>i. i) [dc, pk]) (heap w1) a)"
    by blast
  have clean: "\<forall>a c. heap w' a = Some c \<longrightarrow> \<not> dirty c"
    using selected(18) es'(3)
    by (auto simp: stored_heap_None simp del: List.map_filter_simps split: if_splits)
  have nostore: "list_all (\<lambda>e. \<not> is_store_update e) (trace w')"
    using selected(1,11,12) es'(1,2)
      report_lines_events[of env "mark_pushNotifications pk user
                (mark_googleMaps exp (appJsonPath_of env projectDir options) init_servicesDisabled)"]
    by (auto simp: list_all_iff
          dest: preamble_event selection_event report_line_event)
  have reqs: "\<forall>req. CreateClientBuildRequest req \<in> set (trace w') \<longrightarrow>
       req_distributionCert req = map_option (\<lambda>c. c\<lparr>dirty := False\<rparr>) c
     \<and> req_pushKey req = map_option (\<lambda>c. c\<lparr>dirty := False\<rparr>) k"
  proof (intro allI impI)
    fix req assume "CreateClientBuildRequest req \<in> set (trace w')"
    with selected(1,11,12) es'(1)
      report_lines_events[of env "mark_pushNotifications pk user
                (mark_googleMaps exp (appJsonPath_of env projectDir options) init_servicesDisabled)"]
    have "CreateClientBuildRequest req \<in> set es'"
      by (auto simp: list_all_iff
          dest: preamble_event selection_event report_line_event)
    with es'(4) selected(13-17) show
      "req_distributionCert req = map_option (\<lambda>c. c\<lparr>dirty := False\<rparr>) c
     \<and> req_pushKey req = map_option (\<lambda>c. c\<lparr>dirty := False\<rparr>) k"
      by (cases dc; cases pk) (auto simp: stored_heap_None List.map_filter_simps)
  qed
  from clean nostore reqs selected(9,10) show ?thesis by blast
qed

theorem anonymous_run_never_stores_witness:
  "list_all (\<lambda>e. \<not> is_store_update e) (trace (snd (run anonymous_env ''proj'' demo_options)))
   \<and> (\<exists>c. heap (snd (run anonymous_env ''proj'' demo_options)) 1 = Some c \<and> \<not> dirty c)"
proof -
  have h1: "run anonymous_env ''proj'' demo_options =
     (fst (run anonymous_env ''proj'' demo_options), snd (run anonymous_env ''proj'' demo_options))"
    by simp
  have h2: "getCurrentUserAsync anonymous_env = Inr None"
    by (simp add: env_fields)
  have p: "\<exists>m. PromptInput m \<in> set (trace (snd (run anonymous_env ''proj'' demo_options)))"
    by (rule exI[of _ email_prompt]) (simp add: anonymous_run)
  have h: "heap (snd (run anonymous_env ''proj'' demo_options)) 1 \<noteq> None"
    by (simp add: anonymous_run)
  from anonymous_run_never_stores[OF h1 h2] p h show ?thesis
    by auto
qed

subsection \<open>Authenticated runs\<close>

text \<open>
  Claim C3, as amended. In every run of an authenticated developer the credential store is
  called at most once. A call is \<open>updateCredentialsForPlatform(IOS, payload, [], keys)\<close>
  where \<open>keys\<close> is the username, the experience name and the bundle identifier, at least one
  collected credential is tagged dirty, and \<open>payload\<close> is \<open>{teamId: team.id}\<close> with the
  fields of the dirty credentials, and of no other credential, merged into it in order. So
  when no collected credential is dirty the store is not called.
\<close>

theorem authenticated_run_stores_once:
  assumes "run env projectDir options = (r, w')" and "getCurrentUserAsync env = Inr (Some u)"
  shows "length (filter is_store_update (trace w')) \<le> 1
       \<and> (\<forall>e \<in> set (trace w'). is_store_update e \<longrightarrow>
            (\<exists>authData b x ctx c k.
               authenticate env options = Inr authData
             \<and> generateBundleIdentifier env (team_id (team authData)) = Inr b
             \<and> getExperienceName env (Some u) (team_id (team authData)) = Inr x
             \<and> ctx = \<lparr>appleId = appleId authData, appleIdPassword = appleIdPassword authData,
                      team = team authData, bundleIdentifier = b, experienceName = x,
                      ctx_username = Some (username u)\<rparr>
             \<and> selectDistributionCert env ctx = Inr c \<and> selectPushKey env ctx = Inr k
             \<and> filter dirty (List.map_filter (\<lambda>i. i) [c, k]) \<noteq> []
             \<and> e = UpdateCredentialsForPlatform IOS
                     (merged_credentials (team_id (team authData))
                        (filter dirty (List.map_filter (\<lambda>i. i) [c, k])))
                     []
                     \<lparr>key_username = username u, key_experienceName = x,
                      key_bundleIdentifier = b\<rparr>))"
  using assms(1)
proof (cases rule: run_cases)
  case (early f)
  then have "filter is_store_update (trace w') = []"
    by (auto simp: list_all_iff filter_empty_conv dest: preamble_event)
  then show ?thesis by (auto simp: filter_empty_conv)
next
  case (query_failed pre authData user f)
  then have "filter is_store_update (trace w') = []"
    by (auto simp: list_all_iff filter_empty_conv dest: preamble_event)
  then show ?thesis by (auto simp: filter_empty_conv)
next
  case (denied pre authData user allowed)
  then have "filter is_store_update (trace w') = []"
    by (auto simp: list_all_iff filter_empty_conv dest: preamble_event)
  then show ?thesis by (auto simp: filter_empty_conv)
next
  case (selection_failed pre authData user allowed es f)
  then have "filter is_store_update (trace w') = []"
    by (auto simp: list_all_iff filter_empty_conv dest: preamble_event selection_event)
  then show ?thesis by (auto simp: filter_empty_conv)
next
  case (selected pre authData user allowed es exp b x ctx c k dc pk w1)
  from selected(3) assms(2) have user: "user = Some u" by simp
  define D where "D = filter dirty (List.map_filter (\<lambda>i. i) [c, k])"
  define ev where "ev = UpdateCredentialsForPlatform IOS
              (merged_credentials (team_id (team authData)) D) []
              \<lparr>key_username = username u, key_experienceName = x, key_bundleIdentifier = b\<rparr>"
  have st: "store_events (Some u) ctx (heap w1) (List.map_filter (\<lambda>i. i) [dc, pk]) =
      (if D = [] then [] else [ev])"
    using store_events_selected[OF selected(13,14,15,16), of u ctx] selected(8)
    by (simp add: D_def ev_def del: List.map_filter_simps)
  from persist_and_submit_authenticated[OF selected(19)[unfolded user]] obtain es' where es':
    "trace w' = trace w1 @ store_events (Some u) ctx (heap w1) (List.map_filter (\<lambda>i. i) [dc, pk]) @ es'"
    "list_all (\<lambda>e. \<not> is_store_update e) es'"
    by blast
  have before: "filter is_store_update (trace w1) = []"
    using selected(1,11,12)
      report_lines_events[of env "mark_pushNotifications pk user
                (mark_googleMaps exp (appJsonPath_of env projectDir options) init_servicesDisabled)"]
    by (auto simp: list_all_iff filter_empty_conv
          dest: preamble_event selection_event report_line_event)
  have after: "filter is_store_update es' = []"
    using es'(2) by (auto simp: list_all_iff filter_empty_conv)
  have fl: "filter is_store_update (trace w') = (if D = [] then [] else [ev])"
    using es'(1) st before after by (simp add: ev_def)
  have mem: "e = ev \<and> D \<noteq> []" if "e \<in> set (trace w')" "is_store_update e" for e
  proof -
    from that have "e \<in> set (filter is_store_update (trace w'))" by simp
    with fl show ?thesis by (auto split: if_splits)
  qed
  have len: "length (filter is_store_update (trace w')) \<le> 1"
    using fl by simp
  show ?thesis
  proof (intro conjI ballI impI)
    show "length (filter is_store_update (trace w')) \<le> 1" by (rule len)
  next
    fix e assume "e \<in> set (trace w')" "is_store_update e"
    from mem[OF this] selected(2,6,7,8,9,10) user
    show "\<exists>authData b x ctx c k.
               authenticate env options = Inr authData
             \<and> generateBundleIdentifier env (team_id (team authData)) = Inr b
             \<and> getExperienceName env (Some u) (team_id (team authData)) = Inr x
             \<and> ctx = \<lparr>appleId = appleId authData, appleIdPassword = appleIdPassword authData,
                      team = team authData, bundleIdentifier = b, experienceName = x,
                      ctx_username = Some (username u)\<rparr>
             \<and> selectDistributionCert env ctx = Inr c \<and> selectPushKey env ctx = Inr k
             \<and> filter dirty (List.map_filter (\<lambda>i. i) [c, k]) \<noteq> []
             \<and> e = UpdateCredentialsForPlatform IOS
                     (merged_credentials (team_id (team authData))
                        (filter dirty (List.map_filter (\<lambda>i. i) [c, k])))
                     []
                     \<lparr>key_username = username u, key_experienceName = x,
                      key_bundleIdentifier = b\<rparr>"
      apply -
      apply (rule exI[of _ authData], rule exI[of _ b], rule exI[of _ x], rule exI[of _ ctx],
             rule exI[of _ c], rule exI[of _ k])
      apply (simp add: D_def ev_def del: List.map_filter_simps)
      done
  qed
qed

theorem authenticated_run_stores_once_witness:
  "length (filter is_store_update (trace (snd (run demo_env ''proj'' demo_options)))) \<le> 1
   \<and> (\<exists>authData b x ctx c k.
         authenticate demo_env demo_options = Inr authData
       \<and> generateBundleIdentifier demo_env (team_id (team authData)) = Inr b
       \<and> getExperienceName demo_env (Some demo_user) (team_id (team authData)) = Inr x
       \<and> ctx = \<lparr>appleId = appleId authData, appleIdPassword = appleIdPassword authData,
                team = team authData, bundleIdentifier = b, experienceName = x,
                ctx_username = Some (username demo_user)\<rparr>
       \<and> selectDistributionCert demo_env ctx = Inr c \<and> selectPushKey demo_env ctx = Inr k
       \<and> filter dirty (List.map_filter (\<lambda>i. i) [c, k]) \<noteq> []
       \<and> demo_store_update = UpdateCredentialsForPlatform IOS
               (merged_credentials (team_id (team authData))
                  (filter dirty (List.map_filter (\<lambda>i. i) [c, k])))
               []
               \<lparr>key_username = username demo_user, key_experienceName = x,
                key_bundleIdentifier = b\<rparr>)"
proof -
  have h1: "run demo_env ''proj'' demo_options =
     (fst (run demo_env ''proj'' demo_options), snd (run demo_env ''proj'' demo_options))"
    by simp
  have h2: "getCurrentUserAsync demo_env = Inr (Some demo_user)"
    by (simp add: env_fields)
  have m: "demo_store_update \<in> set (trace (snd (run demo_env ''proj'' demo_options)))"
    by (simp add: demo_run)
  have s: "is_store_update demo_store_update"
    by (simp add: demo_store_update_def)
  from authenticated_run_stores_once[OF h1 h2] m s show ?thesis
    by blast
qed

text \<open>
  The claim as first stated has the payload be the merge of the dirty credentials' fields
  alone. It is not: in the example run the only dirty credential is the push key, and the
  payload also has the \<open>teamId\<close> the merge starts from.
\<close>

theorem store_payload_counterexample:
  "demo_store_update \<in> set (trace (snd (run demo_env ''proj'' demo_options)))
   \<and> demo_store_update =
       UpdateCredentialsForPlatform IOS [(''teamId'', ''TEAM1''), (''apnsKeyId'', ''K1'')] []
         \<lparr>key_username = ''alice'', key_experienceName = ''@alice/client-TEAM1'',
          key_bundleIdentifier = ''dev.expo.client.TEAM1''\<rparr>
   \<and> selectDistributionCert demo_env (demo_context (Some demo_user)) =
       Inr (Some \<lparr>cred_fields = [(''certId'', ''C1'')], dirty = False\<rparr>)
   \<and> selectPushKey demo_env (demo_context (Some demo_user)) =
       Inr (Some \<lparr>cred_fields = [(''apnsKeyId'', ''K1'')], dirty = True\<rparr>)
   \<and> spread [] [(''apnsKeyId'', ''K1'')] \<noteq> [(''teamId'', ''TEAM1''), (''apnsKeyId'', ''K1'')]"
  by (simp add: demo_run demo_store_update_def env_fields spread_def)

subsection \<open>Device enrollment\<close>

text \<open>
  Claim C4. In every run that lists the registered devices and gets the list: exactly one
  build request is submitted and it carries the device numbers of the list. If the list is
  empty, \<open>addUdid\<close> is true in the request and no confirmation is asked of the operator. If
  the list is not empty, the operator is asked the yes/no question with the default
  \<open>true\<close>, and \<open>addUdid\<close> in the request is the operator's answer (the default when the
  operator gives none).
\<close>

theorem enrollment_decides_registration:
  assumes "run env projectDir options = (r, w')"
      and "ListDevices args \<in> set (trace w')" and "listDevices env args = Inr devices"
  shows "\<exists>req. CreateClientBuildRequest req \<in> set (trace w')
           \<and> (\<forall>req'. CreateClientBuildRequest req' \<in> set (trace w') \<longrightarrow> req' = req)
           \<and> req_udids req = map deviceNumber devices
           \<and> (devices = [] \<longrightarrow>
                req_addUdid req \<and> (\<forall>m d. PromptConfirm m d \<notin> set (trace w')))
           \<and> (devices \<noteq> [] \<longrightarrow>
                PromptConfirm confirm_prompt True \<in> set (trace w')
                \<and> req_addUdid req = (case addUdidAnswer env of None \<Rightarrow> True | Some b \<Rightarrow> b))"
  using assms(1)
proof (cases rule: run_cases)
  case (early f)
  with assms(2) have False by (auto simp: list_all_iff)
  then show ?thesis ..
next
  case (query_failed pre authData user f)
  with assms(2) have False by (auto simp: list_all_iff)
  then show ?thesis ..
next
  case (denied pre authData user allowed)
  with assms(2) have False by (auto simp: list_all_iff)
  then show ?thesis ..
next
  case (selection_failed pre authData user allowed es f)
  with assms(2) have False by (auto simp: list_all_iff)
  then show ?thesis ..
next
  case (selected pre authData user allowed es exp b x ctx c k dc pk w1)
  note early = early_trace[OF selected(1,12,11)]
  from persist_and_submit_trace[OF selected(19)] obtain es' where es':
    "trace w' = trace w1 @ es'" by blast
  with assms(2) early(1) have "ListDevices args \<in> set es'" by auto
  from persist_and_submit_enrollment[OF selected(19) es' this assms(3)]
  obtain req where req: "CreateClientBuildRequest req \<in> set es'
     \<and> (\<forall>req'. CreateClientBuildRequest req' \<in> set es' \<longrightarrow> req' = req)
     \<and> req_udids req = map deviceNumber devices
     \<and> (devices = [] \<longrightarrow> req_addUdid req \<and> (\<forall>m d. PromptConfirm m d \<notin> set es'))
     \<and> (devices \<noteq> [] \<longrightarrow> PromptConfirm confirm_prompt True \<in> set es'
                \<and> req_addUdid req = (case addUdidAnswer env of None \<Rightarrow> True | Some b \<Rightarrow> b))"
    ..
  have mem: "CreateClientBuildRequest req' \<in> set (trace w') \<longleftrightarrow> CreateClientBuildRequest req' \<in> set es'"
       "PromptConfirm m d \<in> set (trace w') \<longleftrightarrow> PromptConfirm m d \<in> set es'" for req' m d
    using es' early(2,3) by simp_all
  show ?thesis
    unfolding mem by (rule exI[of _ req]) (rule req)
qed

theorem enrollment_decides_registration_witness:
  "(\<exists>req. CreateClientBuildRequest req \<in> set (trace (snd (run anonymous_env ''proj'' demo_options)))
      \<and> req_udids req = [] \<and> req_addUdid req)
   \<and> (\<exists>req. CreateClientBuildRequest req \<in> set (trace (snd (run demo_env ''proj'' demo_options)))
      \<and> req_udids req = [''UDID1''] \<and> \<not> req_addUdid req)"
proof -
  have a1: "run anonymous_env ''proj'' demo_options =
     (fst (run anonymous_env ''proj'' demo_options), snd (run anonymous_env ''proj'' demo_options))"
    by simp
  have a2: "ListDevices (device_args (demo_context None))
      \<in> set (trace (snd (run anonymous_env ''proj'' demo_options)))"
    by (simp add: anonymous_run)
  have a3: "listDevices anonymous_env (device_args (demo_context None)) = Inr []"
    by (simp add: env_fields)
  have d1: "run demo_env ''proj'' demo_options =
     (fst (run demo_env ''proj'' demo_options), snd (run demo_env ''proj'' demo_options))"
    by simp
  have d2: "ListDevices (device_args (demo_context (Some demo_user)))
      \<in> set (trace (snd (run demo_env ''proj'' demo_options)))"
    by (simp add: demo_run)
  have d3: "listDevices demo_env (device_args (demo_context (Some demo_user))) = Inr demo_devices"
    by (simp add: env_fields)
  have d4: "addUdidAnswer demo_env = Some False" "demo_devices \<noteq> []"
       "map deviceNumber demo_devices = [''UDID1'']"
    by (simp_all add: env_fields demo_devices_def)
  from enrollment_decides_registration[OF a1 a2 a3]
       enrollment_decides_registration[OF d1 d2 d3] d4
  show ?thesis by (auto simp del: not_Cons_self2)
qed

subsection \<open>The rendered result\<close>

text \<open>
  Claim C5. Every completed run submits exactly one build request, gets a result for it,
  and ends with the lines of that result. Of the two URLs of the result the run prints one,
  as a QR code and as a link: the \<open>registrationUrl\<close> when \<open>addUdid\<close> is true in the request,
  the \<open>statusUrl\<close> when it is false. The other URL is not printed.
\<close>

theorem completed_run_renders_one_variant:
  assumes "run env projectDir options = (Ok (), w')"
  shows "\<exists>pre req result.
           trace w' = pre @ [CreateClientBuildRequest req] @ result_lines (req_addUdid req) result
         \<and> createClientBuildRequest env req = Inr result
         \<and> filter is_submission (trace w') = [CreateClientBuildRequest req]
         \<and> filter is_url_rendering (trace w') =
             (if req_addUdid req
              then [PrintQRCode (registrationUrl result), LogGreen (template (registrationUrl result))]
              else [PrintQRCode (statusUrl result), LogGreen (template (statusUrl result))])"
  using assms
proof (cases rule: run_cases)
  case (selected pre authData user allowed es exp b x ctx c k dc pk w1)
  have w1: "filter is_url_rendering (trace w1) = []" "filter is_submission (trace w1) = []"
    using selected(1,11,12)
    by (auto simp: no_url_rendering no_submission filter_empty_conv list_all_iff
          dest: url_rendering_events preamble_event selection_event)
  from selected(19) show ?thesis
  proof (cases rule: persist_and_submit_cases)
    case (completed email' devices req result)
    show ?thesis
      apply (rule exI[of _ "trace w1 @ store_events user ctx (heap w1) (List.map_filter (\<lambda>i. i) [dc, pk])
          @ email_events env user @ [ListDevices (device_args ctx), LogNewLine]
          @ enroll_events devices"])
      apply (rule exI[of _ req], rule exI[of _ result])
      using completed(5,7) w1
      apply (simp add: no_url_rendering no_submission)
      apply (simp add: result_lines_def)
      done
  qed simp_all
qed simp_all

theorem completed_run_renders_one_variant_witness:
  "filter is_url_rendering (trace (snd (run demo_env ''proj'' demo_options))) =
     [PrintQRCode (Some ''https://status''), LogGreen ''https://status'']
   \<and> filter is_url_rendering (trace (snd (run anonymous_env ''proj'' demo_options))) =
     [PrintQRCode (Some ''https://register''), LogGreen ''https://register'']"
proof -
  have d: "run demo_env ''proj'' demo_options = (Ok (), snd (run demo_env ''proj'' demo_options))"
    by (simp add: demo_run)
  have ds: "filter is_submission (trace (snd (run demo_env ''proj'' demo_options))) =
      [CreateClientBuildRequest demo_request]"
    by (simp add: demo_run no_submission demo_preamble_def demo_selection_def
          demo_store_update_def)
  have a: "run anonymous_env ''proj'' demo_options =
      (Ok (), snd (run anonymous_env ''proj'' demo_options))"
    by (simp add: anonymous_run)
  have as: "filter is_submission (trace (snd (run anonymous_env ''proj'' demo_options))) =
      [CreateClientBuildRequest anonymous_request]"
    by (simp add: anonymous_run no_submission demo_preamble_def demo_selection_def)
  have flags: "\<not> req_addUdid demo_request" "req_addUdid anonymous_request"
    by (simp_all add: demo_request_def anonymous_request_def)
  from completed_run_renders_one_variant[OF d] ds flags(1)
  have 1: "filter is_url_rendering (trace (snd (run demo_env ''proj'' demo_options))) =
     [PrintQRCode (Some ''https://status''), LogGreen ''https://status'']"
    by (auto simp: env_fields demo_result_def template_def)
  from completed_run_renders_one_variant[OF a] as flags(2)
  have 2: "filter is_url_rendering (trace (snd (run anonymous_env ''proj'' demo_options))) =
     [PrintQRCode (Some ''https://register''), LogGreen ''https://register'']"
    by (auto simp: env_fields demo_result_def template_def)
  from 1 2 show ?thesis by simp
qed

subsection \<open>The report of disabled services\<close>

text \<open>
  Claim C6, as amended. The report of disabled services is the block of lines 99-112: an
  empty line, the heading, the table of services and reasons, and the closing line. A run
  in which no push key selection returns prints nothing of it, calls neither the credential
  store nor the device listing nor the submitter, and does not complete. In every other run
  the block is printed whole, once, immediately after the push key selection has returned:
  before it there is nothing of the report, no call of the credential store, no device
  listing and no submission; after it there is nothing of the report and no credential
  selection. So the report is rendered before the build request is submitted, never after
  it, and exactly once in every completed run.
\<close>

theorem report_rendered_before_submission:
  assumes "run env projectDir options = (r, w')"
  shows "(r \<noteq> Ok ()
          \<and> (\<forall>ctx k. SelectPushKey ctx \<in> set (trace w') \<longrightarrow> selectPushKey env ctx \<noteq> Inr k)
          \<and> list_all (\<lambda>e. \<not> is_report_event e \<and> \<not> is_store_update e
                \<and> \<not> is_device_listing e \<and> \<not> is_submission e) (trace w'))
       \<or> (\<exists>pre ctx k rows late.
            trace w' =
              pre @ [SelectPushKey ctx, LogNewLine, LogWarn report_header,
                     LogTable [''Service'', ''Reason''] rows, Log report_link] @ late
          \<and> selectPushKey env ctx = Inr k
          \<and> rows \<noteq> []
          \<and> list_all (\<lambda>e. \<not> is_report_event e \<and> \<not> is_store_update e
                \<and> \<not> is_device_listing e \<and> \<not> is_submission e) pre
          \<and> list_all (\<lambda>e. \<not> is_report_event e \<and> \<not> is_credential_selection e) late)"
  using assms
proof (cases rule: run_cases)
  case (early f)
  then have "r \<noteq> Ok ()" "list_all (\<lambda>e. \<not> is_report_event e \<and> \<not> is_store_update e
                \<and> \<not> is_device_listing e \<and> \<not> is_submission e) (trace w')"
      "\<And>ctx. SelectPushKey ctx \<notin> set (trace w')"
    by (auto simp: list_all_iff dest: preamble_event report_event_early)
  then show ?thesis by simp
next
  case (query_failed pre authData user f)
  then have "r \<noteq> Ok ()" "list_all (\<lambda>e. \<not> is_report_event e \<and> \<not> is_store_update e
                \<and> \<not> is_device_listing e \<and> \<not> is_submission e) (trace w')"
      "\<And>ctx. SelectPushKey ctx \<notin> set (trace w')"
    by (auto simp: list_all_iff dest: preamble_event report_event_early)
  then show ?thesis by simp
next
  case (denied pre authData user allowed)
  then have "r \<noteq> Ok ()" "list_all (\<lambda>e. \<not> is_report_event e \<and> \<not> is_store_update e
                \<and> \<not> is_device_listing e \<and> \<not> is_submission e) (trace w')"
      "\<And>ctx. SelectPushKey ctx \<notin> set (trace w')"
    by (auto simp: list_all_iff dest: preamble_event report_event_early)
  then show ?thesis by simp
next
  case (selection_failed pre authData user allowed es f)
  then have "r \<noteq> Ok ()" "list_all (\<lambda>e. \<not> is_report_event e \<and> \<not> is_store_update e
                \<and> \<not> is_device_listing e \<and> \<not> is_submission e) (trace w')"
      "\<And>ctx k. SelectPushKey ctx \<in> set (trace w') \<Longrightarrow> selectPushKey env ctx \<noteq> Inr k"
    by (auto simp: list_all_iff dest: preamble_event selection_event report_event_early)
  then show ?thesis by simp
next
  case (selected pre authData user allowed es exp b x ctx c k dc pk w1)
  define sd where "sd = mark_pushNotifications pk user
                (mark_googleMaps exp (appJsonPath_of env projectDir options) init_servicesDisabled)"
  define pre' where "pre' = pre @ [IsAllowedToBuild user (team_id (team authData)),
               GenerateBundleIdentifier (team_id (team authData)),
               GetExperienceName user (team_id (team authData)), EnsureAppExists ctx True,
               SelectDistributionCert ctx]"
  define rows where "rows =
      map (\<lambda>service. [startCase env service, template (map_of sd service)]) (map fst sd)"
  have ne: "sd \<noteq> []"
    unfolding sd_def by (rule servicesDisabled_nonempty)
  from persist_and_submit_no_report[OF selected(19)] obtain late where late:
    "trace w' = trace w1 @ late"
    "list_all (\<lambda>e. \<not> is_report_event e \<and> \<not> is_selection e) late" by blast
  have block: "report_lines env sd =
      [LogNewLine, LogWarn report_header, LogTable [''Service'', ''Reason''] rows,
       Log report_link]"
    using ne by (simp add: report_lines_def report_header_def report_link_def rows_def)
  have w1: "trace w1 =
      pre' @ [SelectPushKey ctx, LogNewLine, LogWarn report_header,
              LogTable [''Service'', ''Reason''] rows, Log report_link]"
    using selected(11) by (simp add: sd_def[symmetric] block pre'_def selected(20))
  have p: "list_all (\<lambda>e. \<not> is_report_event e \<and> \<not> is_store_update e
                \<and> \<not> is_device_listing e \<and> \<not> is_submission e) pre'"
    using selected(1)
    by (auto simp: pre'_def list_all_iff dest: preamble_event report_event_early)
  have l: "list_all (\<lambda>e. \<not> is_report_event e \<and> \<not> is_credential_selection e) late"
    using late(2)
    by (auto simp: list_all_iff is_selection_def is_credential_selection_def split: event.splits)
  have r: "rows \<noteq> []"
    using ne by (simp add: rows_def)
  have "trace w' =
      pre' @ [SelectPushKey ctx, LogNewLine, LogWarn report_header,
              LogTable [''Service'', ''Reason''] rows, Log report_link] @ late"
    using late(1) w1 by simp
  with p l r selected(10) show ?thesis
    by - (rule disjI2, rule exI[of _ pre'], rule exI[of _ ctx], rule exI[of _ k],
          rule exI[of _ rows], rule exI[of _ late], simp)
qed

theorem report_rendered_before_submission_witness:
  "length (filter is_report_event (trace (snd (run demo_env ''proj'' demo_options)))) = 3"
proof -
  have d: "run demo_env ''proj'' demo_options = (Ok (), snd (run demo_env ''proj'' demo_options))"
    by (simp add: demo_run)
  from report_rendered_before_submission[OF d] obtain pre ctx rows late where *:
    "trace (snd (run demo_env ''proj'' demo_options)) =
       pre @ [SelectPushKey ctx, LogNewLine, LogWarn report_header,
              LogTable [''Service'', ''Reason''] rows, Log report_link] @ late"
    "list_all (\<lambda>e. \<not> is_report_event e \<and> \<not> is_store_update e
                \<and> \<not> is_device_listing e \<and> \<not> is_submission e) pre"
    "list_all (\<lambda>e. \<not> is_report_event e \<and> \<not> is_credential_selection e) late"
    by auto
  have "filter is_report_event pre = []" "filter is_report_event late = []"
    using *(2,3) by (auto simp: filter_empty_conv list_all_iff)
  then show ?thesis
    unfolding *(1) by simp
qed

text \<open>
  The claim as first stated has the report rendered at the end, after the submitter has
  returned. In the example run its three lines are printed before the one submission, and
  nothing of it is printed from the submission on.
\<close>

theorem report_after_submission_counterexample:
  "filter is_report_event
     (takeWhile (Not \<circ> is_submission) (trace (snd (run demo_env ''proj'' demo_options)))) =
     [LogWarn report_header,
      LogTable [''Service'', ''Reason'']
        [[''pushNotifications'', push_reason],
         [''googleMaps'',
          ''ios.config.googleMapsApiKey does not exist in configuration file found in proj/app.json'']],
      Log report_link]
   \<and> filter is_report_event
     (dropWhile (Not \<circ> is_submission) (trace (snd (run demo_env ''proj'' demo_options)))) = []
   \<and> filter is_submission (trace (snd (run demo_env ''proj'' demo_options))) =
     [CreateClientBuildRequest demo_request]"
  by (simp add: demo_run demo_preamble_def demo_selection_def demo_store_update_def
        demo_report_def demo_devices_def env_fields template_def
        report_lines_def enroll_events_def result_lines_def
        report_header_def report_link_def push_reason_def)

text \<open>
  Claim C10, as amended. The report has the key \<open>pushNotifications\<close> with the fixed reason
  from its initialisation on: neither the assignment of \<open>googleMaps\<close> nor the conditional
  assignment of lines 90-97 changes that reason, whatever the configuration, the push key
  and the user, so the report is never empty. Every run in which the push key selection
  returns renders the warning block, once, with the row of that reason.
\<close>

theorem push_notifications_always_reported:
  assumes "run env projectDir options = (r, w')"
      and "SelectPushKey ctx \<in> set (trace w')" and "selectPushKey env ctx = Inr k"
  shows "map_of init_servicesDisabled ''pushNotifications'' = Some push_reason
       \<and> map_of (mark_pushNotifications pk user (mark_googleMaps exp p init_servicesDisabled))
            ''pushNotifications'' = Some push_reason
       \<and> mark_pushNotifications pk user (mark_googleMaps exp p init_servicesDisabled) \<noteq> []
       \<and> filter is_report_render (trace w') = [LogWarn report_header]
       \<and> (\<exists>rows. LogTable [''Service'', ''Reason''] rows \<in> set (trace w')
              \<and> [startCase env ''pushNotifications'', push_reason] \<in> set rows)"
proof -
  have a: "map_of init_servicesDisabled ''pushNotifications'' = Some push_reason"
    by (simp add: init_servicesDisabled_def push_reason_def)
  note b = servicesDisabled_push[of pk user exp p]
  note c = servicesDisabled_nonempty[of pk user exp p]
  have d: "filter is_report_render (trace w') = [LogWarn report_header]
       \<and> (\<exists>rows. LogTable [''Service'', ''Reason''] rows \<in> set (trace w')
              \<and> [startCase env ''pushNotifications'', push_reason] \<in> set rows)"
    using assms(1)
  proof (cases rule: run_cases)
    case (early f)
    with assms(2) have False by (auto simp: list_all_iff)
    then show ?thesis ..
  next
    case (query_failed pre authData user f)
    with assms(2) have False by (auto simp: list_all_iff)
    then show ?thesis ..
  next
    case (denied pre authData user allowed)
    with assms(2) have False by (auto simp: list_all_iff)
    then show ?thesis ..
  next
    case (selection_failed pre authData user allowed es f)
    with assms(2) have "SelectPushKey ctx \<in> set es" by (auto simp: list_all_iff)
    from selection_failed(9)[OF this] assms(3) have False by simp
    then show ?thesis ..
  next
    case (selected pre authData user' allowed es exp' b x ctx' c k' dc pk' w1)
    define sd where "sd = mark_pushNotifications pk' user'
                (mark_googleMaps exp' (appJsonPath_of env projectDir options) init_servicesDisabled)"
    have sd: "map_of sd ''pushNotifications'' = Some push_reason"
      unfolding sd_def by (rule servicesDisabled_push)
    from persist_and_submit_no_render[OF selected(19)] obtain es' where es':
      "trace w' = trace w1 @ es'" "list_all (\<lambda>e. \<not> is_report_render e) es'" by blast
    have w1: "trace w1 = pre @ [IsAllowedToBuild user' (team_id (team authData))] @ es
                @ report_lines env sd"
      using selected(11) by (simp add: sd_def)
    have f1: "filter is_report_render (trace w1) = [LogWarn report_header]"
      using selected(1,12) report_lines_rendered(1)[OF sd, of env]
      by (auto simp: w1 filter_empty_conv list_all_iff dest: report_render_events)
    have f2: "filter is_report_render es' = []"
      using es'(2) by (auto simp: filter_empty_conv list_all_iff)
    from report_lines_rendered(2)[OF sd, of env] obtain rows where
      "LogTable [''Service'', ''Reason''] rows \<in> set (report_lines env sd)"
      "[startCase env ''pushNotifications'', push_reason] \<in> set rows" by blast
    then have "LogTable [''Service'', ''Reason''] rows \<in> set (trace w')
       \<and> [startCase env ''pushNotifications'', push_reason] \<in> set rows"
      by (simp add: es'(1) w1)
    then have "\<exists>rows. LogTable [''Service'', ''Reason''] rows \<in> set (trace w')
       \<and> [startCase env ''pushNotifications'', push_reason] \<in> set rows" ..
    with es'(1) f1 f2 show ?thesis by simp
  qed
  from a b c d show ?thesis by simp
qed

theorem push_notifications_always_reported_witness:
  "filter is_report_render (trace (snd (run anonymous_env ''proj'' demo_options))) =
     [LogWarn report_header]
   \<and> (\<exists>rows. LogTable [''Service'', ''Reason''] rows
          \<in> set (trace (snd (run anonymous_env ''proj'' demo_options)))
        \<and> [''pushNotifications'', push_reason] \<in> set rows)"
proof -
  have h1: "run anonymous_env ''proj'' demo_options =
     (fst (run anonymous_env ''proj'' demo_options), snd (run anonymous_env ''proj'' demo_options))"
    by simp
  have h2: "SelectPushKey (demo_context None)
      \<in> set (trace (snd (run anonymous_env ''proj'' demo_options)))"
    by (simp add: anonymous_run demo_selection_def)
  have h3: "selectPushKey anonymous_env (demo_context None) =
      Inr (Some \<lparr>cred_fields = [(''apnsKeyId'', ''K1'')], dirty = True\<rparr>)"
    by (simp add: env_fields)
  from push_notifications_always_reported[OF h1 h2 h3] show ?thesis
    by (simp add: env_fields)
qed

text \<open>
  The claim as first stated has the block rendered on every run. A run refused by the
  eligibility query ends before the block and renders nothing of it.
\<close>

theorem report_on_every_run_counterexample:
  "filter is_report_render (trace (snd (run denied_env ''proj'' demo_options))) = []
   \<and> fst (run denied_env ''proj'' demo_options) =
       Throw (CommandError ''CLIENT_BUILD_REQUEST_NOT_ALLOWED''
                ''New Expo Client build request disallowed. Reason: quota exceeded'')"
  by (simp add: denied_run is_report_render_def)

text \<open>
  Claim C7. The claim has \<open>googleMaps\<close> reported exactly when the configuration is absent or
  lacks \<open>ios.config.googleMapsApiKey\<close>. The handler tests the field with
  \<^verbatim>\<open>_.has(exp, _ => _.ios.config.googleMapsApiKey)\<close>; \<open>_.has\<close> reads its second argument as a
  path, so the keys it looks for are those of the function's text, the first of them
  \<^verbatim>\<open>_ => _\<close>. For the example configuration, which has the field, the path
  \<^verbatim>\<open>ios.config.googleMapsApiKey\<close> is found, the test of the handler fails all the same, and
  the run reports \<open>googleMaps\<close> with the reason that the field does not exist.
\<close>

theorem googleMaps_reported_with_key_present:
  "hasPath demo_config (stringToPath ''ios.config.googleMapsApiKey'')
   \<and> castPath accessor_text demo_config = [''_ => _'', ''ios'', ''config'', ''googleMapsApiKey'']
   \<and> \<not> lodash_has (Some demo_config) accessor_text
   \<and> mark_googleMaps (Some demo_config) ''proj/app.json'' init_servicesDisabled = demo_report
   \<and> LogTable [''Service'', ''Reason'']
         [[''pushNotifications'', push_reason],
          [''googleMaps'',
           ''ios.config.googleMapsApiKey does not exist in configuration file found in proj/app.json'']]
       \<in> set (trace (snd (run demo_env ''proj'' demo_options)))"
proof -
  have own: "own_property demo_config accessor_text = None"
    by (simp add: demo_config_def accessor_text_def)
  have a: "hasPath demo_config (stringToPath ''ios.config.googleMapsApiKey'')"
    by (simp add: stringToPath_def demo_config_def)
  note b = accessor_not_key[OF own]
  have c: "\<not> lodash_has (Some demo_config) accessor_text"
    using b by (simp add: lodash_has_def demo_config_def)
  have d: "mark_googleMaps (Some demo_config) ''proj/app.json'' init_servicesDisabled = demo_report"
    using c by (simp add: mark_googleMaps_def init_servicesDisabled_def demo_report_def
        demo_config_def)
  have e: "LogTable [''Service'', ''Reason'']
         [[''pushNotifications'', push_reason],
          [''googleMaps'',
           ''ios.config.googleMapsApiKey does not exist in configuration file found in proj/app.json'']]
       \<in> set (trace (snd (run demo_env ''proj'' demo_options)))"
    by (simp add: demo_run report_lines_def demo_report_def env_fields template_def
          push_reason_def)
  from a b c d e show ?thesis by simp
qed

subsection \<open>The notification email\<close>

text \<open>
  Claim C8. In every run: when the lookup of the current user fails, no prompt is shown
  and nothing is submitted. With an authenticated identity no prompt is shown and the email
  of every submitted request is the identity's email. With an anonymous actor the prompt
  is shown exactly when the push key selection has returned; each typed line is trimmed
  and tested, each line before the first accepted one is answered with the message of
  \<open>validate\<close> and a new wait, and then either no line is accepted and the run stays
  suspended at the prompt, without an exception, or the run goes on to list the devices and
  the email of every submitted request is the first accepted line, trimmed. \<open>validate\<close>
  accepts a value exactly when it matches \<open>/.+@.+/\<close>: some \<open>@\<close> stands between two code
  units other than LF, CR, U+2028 and U+2029. \<open>trim\<close> removes, at both ends, the code
  units of white space and the line terminators. Resolving the email never throws.
\<close>

theorem notification_email:
  assumes "run env projectDir options = (r, w')"
  shows "(case getCurrentUserAsync env of
            Inl f \<Rightarrow>
              list_all (\<lambda>e. \<not> is_email_prompt e \<and> \<not> is_submission e) (trace w')
          | Inr (Some u) \<Rightarrow>
              list_all (\<lambda>e. \<not> is_email_prompt e) (trace w')
            \<and> (\<forall>req. CreateClientBuildRequest req \<in> set (trace w') \<longrightarrow> req_email req = email u)
          | Inr None \<Rightarrow>
              (PromptInput email_prompt \<in> set (trace w') \<longleftrightarrow>
                 (\<exists>ctx k. SelectPushKey ctx \<in> set (trace w') \<and> selectPushKey env ctx = Inr k))
            \<and> (PromptInput email_prompt \<in> set (trace w') \<longrightarrow>
                 (\<exists>before after.
                     trace w' = before @ PromptInput email_prompt
                       # replicate
                           (length (takeWhile (\<lambda>l. validate_email (trim l) \<noteq> Valid)
                                      (emailAnswers env)))
                           (PromptInvalid ''That doesn't look like a valid email.'') @ after
                   \<and> list_all (\<lambda>e. \<not> is_email_prompt e) (before @ after)
                   \<and> (case dropWhile (\<lambda>l. validate_email (trim l) \<noteq> Valid) (emailAnswers env) of
                         [] \<Rightarrow> r = Suspended \<and> after = []
                       | line # _ \<Rightarrow>
                           (\<exists>ctx rest. after = ListDevices (device_args ctx) # rest)
                         \<and> (\<forall>req. CreateClientBuildRequest req \<in> set (trace w') \<longrightarrow>
                               req_email req = trim line)))))
       \<and> (\<forall>value. validate_email value = Valid \<longleftrightarrow>
             (\<exists>u a b v. value = u @ a # 0x40 # b # v
                \<and> a \<notin> {0x0A, 0x0D, 0x2028, 0x2029} \<and> b \<notin> {0x0A, 0x0D, 0x2028, 0x2029}))
       \<and> (\<forall>line. trim line =
             rev (dropWhile (\<lambda>c. c \<in> {0x09, 0x0A, 0x0B, 0x0C, 0x0D, 0x20, 0xA0, 0x1680,
                0x2000, 0x2001, 0x2002, 0x2003, 0x2004, 0x2005, 0x2006, 0x2007, 0x2008, 0x2009,
                0x200A, 0x2028, 0x2029, 0x202F, 0x205F, 0x3000, 0xFEFF})
               (rev (dropWhile (\<lambda>c. c \<in> {0x09, 0x0A, 0x0B, 0x0C, 0x0D, 0x20, 0xA0, 0x1680,
                0x2000, 0x2001, 0x2002, 0x2003, 0x2004, 0x2005, 0x2006, 0x2007, 0x2008, 0x2009,
                0x200A, 0x2028, 0x2029, 0x202F, 0x205F, 0x3000, 0xFEFF}) line))))
       \<and> (\<forall>user e w. fst (resolve_email env user w) \<noteq> Throw e)"
proof -
  have aborted: ?thesis
    if "list_all (\<lambda>e. is_preamble e \<or> is_selection e \<or> (\<exists>u t. e = IsAllowedToBuild u t)) (trace w')"
      and "\<And>ctx k. SelectPushKey ctx \<in> set (trace w') \<Longrightarrow> selectPushKey env ctx \<noteq> Inr k"
  proof -
    from that(1) have n: "list_all (\<lambda>e. \<not> is_email_prompt e \<and> \<not> is_submission e) (trace w')"
      by (auto simp: list_all_iff dest: email_prompt_early preamble_event selection_event)
    then have "PromptInput email_prompt \<notin> set (trace w')"
        "\<And>req. CreateClientBuildRequest req \<notin> set (trace w')"
        "list_all (\<lambda>e. \<not> is_email_prompt e) (trace w')"
      by (auto simp: list_all_iff)
    with n that(2) have "case getCurrentUserAsync env of
            Inl f \<Rightarrow>
              list_all (\<lambda>e. \<not> is_email_prompt e \<and> \<not> is_submission e) (trace w')
          | Inr (Some u) \<Rightarrow>
              list_all (\<lambda>e. \<not> is_email_prompt e) (trace w')
            \<and> (\<forall>req. CreateClientBuildRequest req \<in> set (trace w') \<longrightarrow> req_email req = email u)
          | Inr None \<Rightarrow>
              (PromptInput email_prompt \<in> set (trace w') \<longleftrightarrow>
                 (\<exists>ctx k. SelectPushKey ctx \<in> set (trace w') \<and> selectPushKey env ctx = Inr k))
            \<and> (PromptInput email_prompt \<in> set (trace w') \<longrightarrow>
                 (\<exists>before after.
                     trace w' = before @ PromptInput email_prompt
                       # replicate
                           (length (takeWhile (\<lambda>l. validate_email (trim l) \<noteq> Valid)
                                      (emailAnswers env)))
                           (PromptInvalid ''That doesn't look like a valid email.'') @ after
                   \<and> list_all (\<lambda>e. \<not> is_email_prompt e) (before @ after)
                   \<and> (case dropWhile (\<lambda>l. validate_email (trim l) \<noteq> Valid) (emailAnswers env) of
                         [] \<Rightarrow> r = Suspended \<and> after = []
                       | line # _ \<Rightarrow>
                           (\<exists>ctx rest. after = ListDevices (device_args ctx) # rest)
                         \<and> (\<forall>req. CreateClientBuildRequest req \<in> set (trace w') \<longrightarrow>
                               req_email req = trim line))))"
      by (simp split: sum.splits option.splits)
    then show ?thesis
      using validate_email_iff trim_iff resolve_email_never_throws by blast
  qed
  from assms show ?thesis
  proof (cases rule: run_cases)
    case (early f)
    then show ?thesis
      by (intro aborted) (auto simp: list_all_iff dest: preamble_event)
  next
    case (query_failed pre authData user f)
    then show ?thesis
      by (intro aborted) (auto simp: list_all_iff dest: preamble_event)
  next
    case (denied pre authData user allowed)
    then show ?thesis
      by (intro aborted) (auto simp: list_all_iff dest: preamble_event)
  next
    case (selection_failed pre authData user allowed es f)
    then show ?thesis
      by (intro aborted) (auto simp: list_all_iff dest: preamble_event)
  next
    case (selected pre authData user allowed es exp b x ctx c k dc pk w1)
    have w1: "list_all (\<lambda>e. \<not> is_email_prompt e \<and> \<not> is_submission e) (trace w1)"
      using selected(1,12) report_lines_events[of env "mark_pushNotifications pk user
                (mark_googleMaps exp (appJsonPath_of env projectDir options) init_servicesDisabled)"]
      by (auto simp: selected(11) list_all_iff
            dest: email_prompt_early preamble_event selection_event report_line_event)
    have sel: "SelectPushKey ctx \<in> set (trace w1)"
      by (simp add: selected(11,20))
    have main: "case user of
            Some u \<Rightarrow>
              list_all (\<lambda>e. \<not> is_email_prompt e) (trace w')
            \<and> (\<forall>req. CreateClientBuildRequest req \<in> set (trace w') \<longrightarrow> req_email req = email u)
          | None \<Rightarrow>
              (PromptInput email_prompt \<in> set (trace w') \<longleftrightarrow>
                 (\<exists>ctx k. SelectPushKey ctx \<in> set (trace w') \<and> selectPushKey env ctx = Inr k))
            \<and> (PromptInput email_prompt \<in> set (trace w') \<longrightarrow>
                 (\<exists>before after.
                     trace w' = before @ PromptInput email_prompt
                       # replicate
                           (length (takeWhile (\<lambda>l. validate_email (trim l) \<noteq> Valid)
                                      (emailAnswers env)))
                           (PromptInvalid ''That doesn't look like a valid email.'') @ after
                   \<and> list_all (\<lambda>e. \<not> is_email_prompt e) (before @ after)
                   \<and> (case dropWhile (\<lambda>l. validate_email (trim l) \<noteq> Valid) (emailAnswers env) of
                         [] \<Rightarrow> r = Suspended \<and> after = []
                       | line # _ \<Rightarrow>
                           (\<exists>ctx rest. after = ListDevices (device_args ctx) # rest)
                         \<and> (\<forall>req. CreateClientBuildRequest req \<in> set (trace w') \<longrightarrow>
                               req_email req = trim line))))"
    proof (cases user)
      case (Some u)
      from persist_and_submit_email_authenticated[OF selected(19)[unfolded Some]]
      obtain es' where es': "trace w' = trace w1 @ es'"
          "list_all (\<lambda>e. \<not> is_email_prompt e) es'"
          "\<And>req. CreateClientBuildRequest req \<in> set es' \<Longrightarrow> req_email req = email u"
        by blast
      have "list_all (\<lambda>e. \<not> is_email_prompt e) (trace w')"
        using w1 es'(2) by (auto simp: es'(1) list_all_iff)
      moreover have "req_email req = email u"
        if "CreateClientBuildRequest req \<in> set (trace w')" for req
        using that w1 es'(3)[of req] by (auto simp: es'(1) list_all_iff)
      ultimately show ?thesis by (simp add: Some)
    next
      case None
      from persist_and_submit_email_anonymous[OF selected(19)[unfolded None]]
      obtain after where after:
        "trace w' = trace w1 @ PromptInput email_prompt
          # replicate (length (takeWhile (\<lambda>l. validate_email (trim l) \<noteq> Valid) (emailAnswers env)))
              (PromptInvalid invalid_email_message) @ after"
        "list_all (\<lambda>e. \<not> is_email_prompt e) after"
        "case dropWhile (\<lambda>l. validate_email (trim l) \<noteq> Valid) (emailAnswers env) of
          [] \<Rightarrow> r = Suspended \<and> after = []
        | line # _ \<Rightarrow>
            (\<exists>rest. after = ListDevices (device_args ctx) # rest)
          \<and> (\<forall>req. CreateClientBuildRequest req \<in> set after \<longrightarrow> req_email req = trim line)"
        by blast
      have p: "PromptInput email_prompt \<in> set (trace w')"
        by (simp add: after(1))
      have s: "\<exists>ctx k. SelectPushKey ctx \<in> set (trace w') \<and> selectPushKey env ctx = Inr k"
        using sel selected(10) by (auto simp: after(1))
      have req: "CreateClientBuildRequest req \<in> set (trace w') \<longleftrightarrow>
                 CreateClientBuildRequest req \<in> set after" for req
        using w1 by (auto simp: after(1) list_all_iff)
      have ba: "list_all (\<lambda>e. \<not> is_email_prompt e) (trace w1 @ after)"
        using w1 after(2) by (auto simp: list_all_iff)
      have c: "case dropWhile (\<lambda>l. validate_email (trim l) \<noteq> Valid) (emailAnswers env) of
                         [] \<Rightarrow> r = Suspended \<and> after = []
                       | line # _ \<Rightarrow>
                           (\<exists>ctx rest. after = ListDevices (device_args ctx) # rest)
                         \<and> (\<forall>req. CreateClientBuildRequest req \<in> set (trace w') \<longrightarrow>
                               req_email req = trim line)"
      proof (cases "dropWhile (\<lambda>l. validate_email (trim l) \<noteq> Valid) (emailAnswers env)")
        case Nil
        from after(3) show ?thesis unfolding Nil by simp
      next
        case (Cons line rest')
        from after(3) show ?thesis unfolding Cons by (auto simp: req)
      qed
      have "\<exists>before after.
                     trace w' = before @ PromptInput email_prompt
                       # replicate
                           (length (takeWhile (\<lambda>l. validate_email (trim l) \<noteq> Valid)
                                      (emailAnswers env)))
                           (PromptInvalid ''That doesn't look like a valid email.'') @ after
                   \<and> list_all (\<lambda>e. \<not> is_email_prompt e) (before @ after)
                   \<and> (case dropWhile (\<lambda>l. validate_email (trim l) \<noteq> Valid) (emailAnswers env) of
                         [] \<Rightarrow> r = Suspended \<and> after = []
                       | line # _ \<Rightarrow>
                           (\<exists>ctx rest. after = ListDevices (device_args ctx) # rest)
                         \<and> (\<forall>req. CreateClientBuildRequest req \<in> set (trace w') \<longrightarrow>
                               req_email req = trim line))"
        using after(1)[unfolded invalid_email_message_def] ba c
        by - (rule exI[of _ "trace w1"], rule exI[of _ after], simp)
      with p s show ?thesis by (simp add: None)
    qed
    from main have "case getCurrentUserAsync env of
            Inl f \<Rightarrow>
              list_all (\<lambda>e. \<not> is_email_prompt e \<and> \<not> is_submission e) (trace w')
          | Inr (Some u) \<Rightarrow>
              list_all (\<lambda>e. \<not> is_email_prompt e) (trace w')
            \<and> (\<forall>req. CreateClientBuildRequest req \<in> set (trace w') \<longrightarrow> req_email req = email u)
          | Inr None \<Rightarrow>
              (PromptInput email_prompt \<in> set (trace w') \<longleftrightarrow>
                 (\<exists>ctx k. SelectPushKey ctx \<in> set (trace w') \<and> selectPushKey env ctx = Inr k))
            \<and> (PromptInput email_prompt \<in> set (trace w') \<longrightarrow>
                 (\<exists>before after.
                     trace w' = before @ PromptInput email_prompt
                       # replicate
                           (length (takeWhile (\<lambda>l. validate_email (trim l) \<noteq> Valid)
                                      (emailAnswers env)))
                           (PromptInvalid ''That doesn't look like a valid email.'') @ after
                   \<and> list_all (\<lambda>e. \<not> is_email_prompt e) (before @ after)
                   \<and> (case dropWhile (\<lambda>l. validate_email (trim l) \<noteq> Valid) (emailAnswers env) of
                         [] \<Rightarrow> r = Suspended \<and> after = []
                       | line # _ \<Rightarrow>
                           (\<exists>ctx rest. after = ListDevices (device_args ctx) # rest)
                         \<and> (\<forall>req. CreateClientBuildRequest req \<in> set (trace w') \<longrightarrow>
                               req_email req = trim line))))"
      by (simp add: selected(3))
    then show ?thesis
      using validate_email_iff trim_iff resolve_email_never_throws by blast
  qed
qed


theorem notification_email_witness:
  "list_all (\<lambda>e. \<not> is_email_prompt e) (trace (snd (run demo_env ''proj'' demo_options)))
   \<and> req_email demo_request = email demo_user
   \<and> filter is_email_prompt (trace (snd (run unicode_env ''proj'' demo_options))) =
       [PromptInput email_prompt, PromptInvalid ''That doesn't look like a valid email.'']
   \<and> req_email unicode_request =
       trim ([0x00A0, 0xFEFF] @ utf16 ''bob@example.com'' @ [0x3000, 0x2029])
   \<and> trim ([0x00A0, 0xFEFF] @ utf16 ''bob@example.com'' @ [0x3000, 0x2029]) =
       utf16 ''bob@example.com''
   \<and> validate_email (utf16 ''bob'' @ [0x2028, 0x40, 0x2029] @ utf16 ''example.com'') \<noteq> Valid"
proof -
  have d1: "run demo_env ''proj'' demo_options =
     (fst (run demo_env ''proj'' demo_options), snd (run demo_env ''proj'' demo_options))"
    by simp
  have d2: "getCurrentUserAsync demo_env = Inr (Some demo_user)"
    by (simp add: env_fields)
  have d3: "CreateClientBuildRequest demo_request
      \<in> set (trace (snd (run demo_env ''proj'' demo_options)))"
    by (simp add: demo_run)
  have a1: "run unicode_env ''proj'' demo_options =
     (fst (run unicode_env ''proj'' demo_options), snd (run unicode_env ''proj'' demo_options))"
    by simp
  have a2: "getCurrentUserAsync unicode_env = Inr None"
    by (simp add: unicode_env_fields)
  have a3: "CreateClientBuildRequest unicode_request
      \<in> set (trace (snd (run unicode_env ''proj'' demo_options)))"
      "PromptInput email_prompt \<in> set (trace (snd (run unicode_env ''proj'' demo_options)))"
    by (simp_all add: unicode_run)
  have v: "validate_email (trim (utf16 ''bob'' @ [0x2028, 0x40, 0x2029] @ utf16 ''example.com''))
       \<noteq> Valid"
      "validate_email (utf16 ''bob'' @ [0x2028, 0x40, 0x2029] @ utf16 ''example.com'') \<noteq> Valid"
      "validate_email (trim ([0x00A0, 0xFEFF] @ utf16 ''bob@example.com'' @ [0x3000, 0x2029]))
       = Valid"
      "trim ([0x00A0, 0xFEFF] @ utf16 ''bob@example.com'' @ [0x3000, 0x2029]) =
       utf16 ''bob@example.com''"
    by (simp_all add: validate_email_def trim_def is_white_space_def is_line_terminator_def
          utf16_def)
  from notification_email[OF d1] d2 d3
  have demo: "list_all (\<lambda>e. \<not> is_email_prompt e) (trace (snd (run demo_env ''proj'' demo_options)))"
      "req_email demo_request = email demo_user"
    by simp_all
  from notification_email[OF a1] a2 a3 obtain before after where u:
      "trace (snd (run unicode_env ''proj'' demo_options)) =
         before @ PromptInput email_prompt
           # replicate (length (takeWhile (\<lambda>l. validate_email (trim l) \<noteq> Valid)
                                      (emailAnswers unicode_env)))
               (PromptInvalid ''That doesn't look like a valid email.'') @ after"
      "list_all (\<lambda>e. \<not> is_email_prompt e) (before @ after)"
      "case dropWhile (\<lambda>l. validate_email (trim l) \<noteq> Valid) (emailAnswers unicode_env) of
         [] \<Rightarrow> fst (run unicode_env ''proj'' demo_options) = Suspended \<and> after = []
       | line # _ \<Rightarrow>
           (\<exists>ctx rest. after = ListDevices (device_args ctx) # rest)
         \<and> (\<forall>req. CreateClientBuildRequest req
               \<in> set (trace (snd (run unicode_env ''proj'' demo_options))) \<longrightarrow>
               req_email req = trim line)"
    by auto
  have tw: "takeWhile (\<lambda>l. validate_email (trim l) \<noteq> Valid) (emailAnswers unicode_env) =
       [utf16 ''bob'' @ [0x2028, 0x40, 0x2029] @ utf16 ''example.com'']"
    and dw: "dropWhile (\<lambda>l. validate_email (trim l) \<noteq> Valid) (emailAnswers unicode_env) =
       [[0x00A0, 0xFEFF] @ utf16 ''bob@example.com'' @ [0x3000, 0x2029]]"
    by (simp_all add: unicode_env_fields validate_email_def trim_def is_white_space_def
          is_line_terminator_def utf16_def)
  from u(3)[unfolded dw] a3(1) have r: "req_email unicode_request =
       trim ([0x00A0, 0xFEFF] @ utf16 ''bob@example.com'' @ [0x3000, 0x2029])"
    by simp
  have "filter is_email_prompt before = []" "filter is_email_prompt after = []"
    using u(2) by (auto simp: filter_empty_conv list_all_iff)
  then have f: "filter is_email_prompt (trace (snd (run unicode_env ''proj'' demo_options))) =
       [PromptInput email_prompt, PromptInvalid ''That doesn't look like a valid email.'']"
    unfolding u(1) tw by simp
  from demo f r v(2,4) show ?thesis by simp
qed

subsection \<open>The bundler-configuration builder\<close>




end
